(* ===== verification/Prelude.thy ===== *)
theory Prelude
  imports Main "HOL-Library.Word" "HOL-Library.Multiset" "HOL-Library.Sublist"
    "HOL-Library.Char_ord" "HOL-Library.List_Lexorder"
begin

text \<open>
  The shared vocabulary of the development: computations that may panic, the error
  values that cross component boundaries, Go's 64-bit integers, and the generic lemmas
  on lists, maps and counters that the component theories use. Nothing here models a
  file of the repository; the collections \<open>go_defs\<close> and \<open>fs_simps\<close> gather the
  unfolding rules of the standard-library fragment so that proofs name them once.
\<close>

named_theorems go_defs \<open>definitions of the standard-library fragment\<close>
named_theorems fs_simps \<open>lookup laws of the file-system model\<close>
named_theorems ctl_simps \<open>field laws of the controller operations\<close>

section \<open>Panics\<close>

text \<open>A Go call returns or panics; an error return is part of the returned value.\<close>

datatype 'a go = Ret 'a | Panic string

fun go_bind :: "'a go \<Rightarrow> ('a \<Rightarrow> 'b go) \<Rightarrow> 'b go" where
  "go_bind (Ret x) f = f x"
| "go_bind (Panic m) f = Panic m"

fun returns :: "'a go \<Rightarrow> bool" where
  "returns (Ret _) = True"
| "returns (Panic _) = False"

lemma go_bind_Ret_iff [simp]: "go_bind m f = Ret y \<longleftrightarrow> (\<exists>x. m = Ret x \<and> f x = Ret y)"
  by (cases m) auto

lemma returns_iff: "returns m \<longleftrightarrow> (\<exists>x. m = Ret x)"
  by (cases m) auto

lemma go_bind_assoc: "go_bind (go_bind m f) g = go_bind m (\<lambda>x. go_bind (f x) g)"
  by (cases m) auto

section \<open>Errors\<close>

text \<open>
  The kinds of error values the modelled code returns or inspects: the operating
  system's, the lifecycle package's \<open>ExecutionIDNotFoundError\<close>, the API server's
  not-found error, and any other error with its message.
\<close>

datatype os_error = ErrNotExist | ErrExist | ErrNotDir | ErrIsDir | ErrNotEmpty | ErrPermission
  | ErrLoop

datatype not_found = NoExecution string | NoPod string

datatype err =
    OsErr os_error
  | ExecutionIDNotFound not_found
  | ApiNotFound
  | OtherErr string

section \<open>64-bit integers\<close>

text \<open>Go's \<open>int\<close> on the supported platforms: two's complement, wrapping.\<close>

definition wrap64 :: "int \<Rightarrow> int" where
  "wrap64 i = sint (word_of_int i :: 64 word)"

definition max_int64 :: int where "max_int64 = 2 ^ 63 - 1"
definition min_int64 :: int where "min_int64 = - (2 ^ 63)"

definition int64_range :: "int \<Rightarrow> bool" where
  "int64_range i \<longleftrightarrow> min_int64 \<le> i \<and> i \<le> max_int64"

lemma wrap64_id: "int64_range i \<Longrightarrow> wrap64 i = i"
  by (simp add: wrap64_def int64_range_def min_int64_def max_int64_def
      sint_sbintrunc' signed_take_bit_int_eq_self)

lemma wrap64_range: "int64_range (wrap64 i)"
  using sint_range_size [of "word_of_int i :: 64 word"]
  by (simp add: wrap64_def int64_range_def min_int64_def max_int64_def word_size)

section \<open>Lists\<close>

lemma take_sorted_wrt_le:
  assumes "sorted (map f xs)" and "x \<in> set (take n xs)" and "y \<in> set (drop n xs)"
  shows "f x \<le> f y"
proof -
  have "sorted (map f (take n xs) @ map f (drop n xs))"
    using assms(1) by (simp flip: map_append)
  then show ?thesis using assms(2,3) by (auto simp: sorted_append)
qed

lemma count_list_upd:
  assumes "i < length xs"
  shows "length (filter P (xs[i := y])) + (if P (xs ! i) then 1 else 0)
       = length (filter P xs) + (if P y then 1 else 0)"
  using assms
proof (induction xs arbitrary: i)
  case Nil
  then show ?case by simp
next
  case (Cons x xs)
  then show ?case by (cases i) auto
qed

lemma nth_upd: "p < length xs \<Longrightarrow> xs[i := y] ! p = (if i = p then y else xs ! p)"
  by (cases "i = p") auto

lemma sum_list_update_nat:
  assumes "i < length xs"
  shows "sum_list (map f (xs[i := y])) + f (xs ! i) = sum_list (map f xs) + (f y :: nat)"
  using assms
proof (induction xs arbitrary: i)
  case Nil
  then show ?case by simp
next
  case (Cons x xs)
  then show ?case by (cases i) auto
qed

lemma mset_concat_update:
  assumes "i < length xs"
  shows "mset (concat (map f (xs[i := y]))) + mset (f (xs ! i)) = mset (concat (map f xs)) + mset (f y)"
  using assms
proof (induction xs arbitrary: i)
  case Nil
  then show ?case by simp
next
  case (Cons x xs)
  show ?case
  proof (cases i)
    case 0
    then show ?thesis by simp
  next
    case (Suc k)
    with Cons show ?thesis by (simp add: add.assoc)
  qed
qed

lemma set_update_cases: "x \<in> set (xs[i := y]) \<Longrightarrow> x = y \<or> x \<in> set xs"
  using set_update_subset_insert [of xs i y] by auto

lemma in_set_update_other: "x \<in> set xs \<Longrightarrow> x \<noteq> xs ! i \<Longrightarrow> x \<in> set (xs[i := y])"
  by (metis in_set_conv_nth length_list_update nth_list_update_neq)

lemma length_filter_le_bound: "(\<And>x. x \<in> set xs \<Longrightarrow> P x \<Longrightarrow> Q x) \<Longrightarrow>
    length (filter P xs) \<le> length (filter Q xs)"
  by (induction xs) auto

lemma finite_image_card_le_length:
  assumes "\<And>x. x \<in> A \<Longrightarrow> \<exists>i < n. P i x" and "\<And>i x y. P i x \<Longrightarrow> P i y \<Longrightarrow> x = y"
  shows "finite A \<and> card A \<le> n"
proof -
  define g where "g i = (THE x. P i x)" for i
  have g: "P i x \<Longrightarrow> g i = x" for i x
    unfolding g_def using assms(2) by blast
  have sub: "A \<subseteq> g ` {..<n}"
    using assms(1) g by (force simp: image_iff)
  then have "finite A" by (rule finite_subset) simp
  moreover have "card A \<le> card {..<n}"
    using sub by (meson card_image_le card_mono finite_imageI finite_lessThan le_trans)
  ultimately show ?thesis by simp
qed

section \<open>Finite maps as functions\<close>

lemma map_upd_dom_eq: "m k = Some v \<Longrightarrow> dom (m(k \<mapsto> w)) = dom m"
  by auto

lemma fold_map_remove: "fold (\<lambda>k m. m(k := None)) ks m = (\<lambda>k. if k \<in> set ks then None else m k)"
  by (induction ks arbitrary: m) auto

end
