(* ===== verification/GoStd.thy ===== *)
theory GoStd
  imports Prelude
begin

text \<open>
  The part of Go's standard library that the modelled code computes with, restricted to
  the calls the code makes: \<open>strconv.Itoa\<close>, \<open>strings.Split\<close> and \<open>strings.EqualFold\<close>,
  \<open>path/filepath\<close>'s \<open>Clean\<close>, \<open>Join\<close> and \<open>Base\<close> (Unix rules), \<open>net.JoinHostPort\<close>,
  \<open>unicode.IsUpper\<close> on the first 256 code points, \<open>time.Time.Sub\<close>,
  \<open>Duration.Milliseconds\<close> and the layout \<open>"200601021504"\<close> of \<open>Time.Format\<close>.
  A Go \<open>string\<close> is a list of bytes, so it is a \<^typ>\<open>string\<close> here.
\<close>

section \<open>Numbers to strings\<close>

definition digit_char :: "nat \<Rightarrow> char" where
  "digit_char d = char_of (48 + d mod 10)"

fun nat_str :: "nat \<Rightarrow> string" where
  "nat_str n = (if n < 10 then [digit_char n] else nat_str (n div 10) @ [digit_char n])"

declare nat_str.simps [simp del]

definition strconv_Itoa :: "int \<Rightarrow> string" where
  "strconv_Itoa i = (if i < 0 then ''-'' @ nat_str (nat (- i)) else nat_str (nat i))"

definition char_digit :: "char \<Rightarrow> nat" where
  "char_digit c = of_char c - 48"

definition is_digit :: "char \<Rightarrow> bool" where
  "is_digit c \<longleftrightarrow> 48 \<le> (of_char c :: nat) \<and> (of_char c :: nat) \<le> 57"

text \<open>The value of a string of decimal digits, most significant first.\<close>

definition str_nat :: "string \<Rightarrow> nat" where
  "str_nat s = foldl (\<lambda>n c. 10 * n + char_digit c) 0 s"

text \<open>\<open>pad w n\<close>: the last \<open>w\<close> decimal digits of \<open>n\<close>, zero padded.\<close>

fun pad :: "nat \<Rightarrow> nat \<Rightarrow> string" where
  "pad 0 n = []"
| "pad (Suc w) n = pad w (n div 10) @ [digit_char n]"

lemma of_char_digit_char [simp]: "of_char (digit_char d) = (48 + d mod 10 :: nat)"
proof -
  have "48 + d mod 10 < 256"
    using mod_less_divisor [of 10 d] by linarith
  then show ?thesis by (simp add: digit_char_def)
qed

lemma char_digit_digit_char [simp]: "char_digit (digit_char d) = d mod 10"
  by (simp add: char_digit_def)

lemma is_digit_digit_char [simp]: "is_digit (digit_char d)"
  using mod_less_divisor [of 10 d] by (simp add: is_digit_def)

lemma str_nat_snoc [simp]: "str_nat (s @ [c]) = 10 * str_nat s + char_digit c"
  by (simp add: str_nat_def)

lemma str_nat_Nil [simp]: "str_nat [] = 0"
  by (simp add: str_nat_def)

lemma nat_str_digits: "\<forall>c \<in> set (nat_str n). is_digit c"
proof (induction n rule: nat_str.induct)
  case (1 n)
  then show ?case by (cases "n < 10") (auto simp: nat_str.simps [of n])
qed

lemma nat_str_nonempty [simp]: "nat_str n \<noteq> []"
  by (simp add: nat_str.simps [of n])

lemma str_nat_nat_str [simp]: "str_nat (nat_str n) = n"
proof (induction n rule: nat_str.induct)
  case (1 n)
  show ?case
  proof (cases "n < 10")
    case True
    then show ?thesis using str_nat_snoc [of "[]"] by (simp add: nat_str.simps [of n])
  next
    case False
    with 1 show ?thesis by (simp add: nat_str.simps [of n])
  qed
qed

lemma nat_str_inject [simp]: "nat_str m = nat_str n \<longleftrightarrow> m = n"
  by (metis str_nat_nat_str)

lemma length_pad [simp]: "length (pad w n) = w"
  by (induction w arbitrary: n) auto

lemma pad_digits: "c \<in> set (pad w n) \<Longrightarrow> is_digit c"
  by (induction w arbitrary: n) auto

lemma str_nat_pad: "str_nat (pad w n) = n mod 10 ^ w"
proof (induction w arbitrary: n)
  case 0
  then show ?case by simp
next
  case (Suc w)
  have "n mod (10 * 10 ^ w) = 10 * (n div 10 mod 10 ^ w) + n mod 10"
    by (simp add: mod_mult2_eq)
  with Suc show ?case by simp
qed

lemma pad_inject: "m < 10 ^ w \<Longrightarrow> n < 10 ^ w \<Longrightarrow> pad w m = pad w n \<Longrightarrow> m = n"
  by (metis mod_less str_nat_pad)

lemma slash_not_digit [simp]: "\<not> is_digit CHR ''/''" "\<not> is_digit CHR ''.''" "\<not> is_digit CHR ''-''"
  by (simp_all add: is_digit_def)

section \<open>strings\<close>

text \<open>\<open>strings.Split(s, sep)\<close> for a separator of one byte: never an empty result.\<close>

fun strings_Split :: "char \<Rightarrow> string \<Rightarrow> string list" where
  "strings_Split c [] = [[]]"
| "strings_Split c (x # xs) =
     (if x = c then [] # strings_Split c xs
      else (case strings_Split c xs of [] \<Rightarrow> [[x]] | y # ys \<Rightarrow> (x # y) # ys))"

definition ascii_lower :: "char \<Rightarrow> char" where
  "ascii_lower c = (let n = of_char c :: nat in if 65 \<le> n \<and> n \<le> 90 then char_of (n + 32) else c)"

text \<open>
  \<open>strings.EqualFold(s, t)\<close> for an ASCII \<open>t\<close> without the letters \<open>k\<close> and \<open>s\<close> (the only
  ones with a non-ASCII fold); the code calls it with \<open>t = "true"\<close>.
\<close>

definition strings_EqualFold :: "string \<Rightarrow> string \<Rightarrow> bool" where
  "strings_EqualFold s t \<longleftrightarrow> map ascii_lower s = map ascii_lower t"

lemma strings_Split_nonempty [simp]: "strings_Split c s \<noteq> []"
  by (induction s) (auto split: list.splits)

lemma strings_Split_no_sep: "x \<in> set (strings_Split c s) \<Longrightarrow> c \<notin> set x"
  by (induction s arbitrary: x) (auto split: list.splits if_splits)

lemma strings_Split_id: "c \<notin> set s \<Longrightarrow> strings_Split c s = [s]"
  by (induction s) auto

lemma strings_Split_sep: "c \<notin> set s \<Longrightarrow> strings_Split c (s @ c # t) = s # strings_Split c t"
  by (induction s) auto

lemma hd_strings_Split: "hd (strings_Split c s) = takeWhile (\<lambda>x. x \<noteq> c) s"
  by (induction s) (auto split: list.splits simp: hd_conv_nth)

section \<open>path/filepath\<close>

text \<open>
  \<open>Clean\<close> works on the components between slashes: empty ones and \<open>"."\<close> disappear,
  \<open>".."\<close> removes the component before it (at the root it disappears, at the start of a
  relative path it stays), and an empty result is \<open>"."\<close>. A path with its components:
  \<open>(rooted, components)\<close>.
\<close>

fun clean_comps :: "bool \<Rightarrow> string list \<Rightarrow> string list \<Rightarrow> string list" where
  "clean_comps r acc [] = rev acc"
| "clean_comps r acc (c # cs) =
     (if c = [] \<or> c = ''.'' then clean_comps r acc cs
      else if c = ''..'' then
        (case acc of
           [] \<Rightarrow> clean_comps r (if r then [] else [c]) cs
         | a # as \<Rightarrow> if a = ''..'' then clean_comps r (c # acc) cs else clean_comps r as cs)
      else clean_comps r (c # acc) cs)"

fun join_with :: "string \<Rightarrow> string list \<Rightarrow> string" where
  "join_with s [] = []"
| "join_with s [x] = x"
| "join_with s (x # y # xs) = x @ s @ join_with s (y # xs)"

definition is_rooted :: "string \<Rightarrow> bool" where
  "is_rooted p \<longleftrightarrow> (\<exists>q. p = CHR ''/'' # q)"

lemma is_rooted_code [code, simp]:
  "is_rooted [] = False"
  "is_rooted (c # p) = (c = CHR ''/'')"
  by (auto simp: is_rooted_def)

definition path_comps :: "string \<Rightarrow> string list" where
  "path_comps p = clean_comps (is_rooted p) [] (strings_Split CHR ''/'' p)"

definition render_path :: "bool \<Rightarrow> string list \<Rightarrow> string" where
  "render_path r cs =
     (if r then CHR ''/'' # join_with ''/'' cs
      else if cs = [] then ''.'' else join_with ''/'' cs)"

definition filepath_Clean :: "string \<Rightarrow> string" where
  "filepath_Clean p = render_path (is_rooted p) (path_comps p)"

text \<open>\<open>Join\<close>: leading empty elements are skipped, the rest is joined and cleaned.\<close>

definition filepath_Join :: "string list \<Rightarrow> string" where
  "filepath_Join es =
     (let es' = dropWhile (\<lambda>e. e = []) es
      in if es' = [] then [] else filepath_Clean (join_with ''/'' es'))"

text \<open>\<open>Base\<close>: the last component, after trailing slashes are removed.\<close>

definition filepath_Base :: "string \<Rightarrow> string" where
  "filepath_Base p =
     (if p = [] then ''.''
      else let q = rev (dropWhile (\<lambda>c. c = CHR ''/'') (rev p))
           in if q = [] then ''/'' else last (strings_Split CHR ''/'' q))"

text \<open>A plain name: one component that \<open>Clean\<close> leaves alone.\<close>

definition plain_name :: "string \<Rightarrow> bool" where
  "plain_name s \<longleftrightarrow> s \<noteq> [] \<and> s \<noteq> ''.'' \<and> s \<noteq> ''..'' \<and> CHR ''/'' \<notin> set s"

lemma clean_comps_app:
  "clean_comps r acc (xs @ ys) = clean_comps r (rev (clean_comps r acc xs)) ys"
  by (induction r acc xs rule: clean_comps.induct) (auto split: list.splits)

lemma clean_comps_plain:
  "\<forall>c \<in> set cs. plain_name c \<Longrightarrow> clean_comps r acc cs = rev acc @ cs"
  by (induction cs arbitrary: acc) (auto simp: plain_name_def)

lemma strings_Split_app: "strings_Split c (a @ c # b) = strings_Split c a @ strings_Split c b"
proof (induction a)
  case Nil
  then show ?case by simp
next
  case (Cons z zs)
  then show ?case by (cases "strings_Split c zs") (auto split: list.splits)
qed

lemma strings_Split_join:
  "xs \<noteq> [] \<Longrightarrow> strings_Split c (join_with [c] xs) = concat (map (strings_Split c) xs)"
proof (induction xs rule: list_nonempty_induct)
  case (single x)
  then show ?case by simp
next
  case (cons x xs)
  then obtain y ys where "xs = y # ys" by (cases xs) auto
  with cons show ?case by (simp add: strings_Split_app)
qed

lemma is_rooted_join_with: "x \<noteq> [] \<Longrightarrow> is_rooted (join_with s (x # xs)) = is_rooted x"
  by (cases x; cases xs) auto

text \<open>
  What \<open>Clean\<close> leaves: plain names, after a run of \<open>".."\<close> that a rooted path does not
  have. Such components survive being rendered and split again.
\<close>

definition cleaned :: "bool \<Rightarrow> string list \<Rightarrow> bool" where
  "cleaned r cs \<longleftrightarrow> (\<exists>k ps. cs = replicate k ''..'' @ ps \<and> (\<forall>c \<in> set ps. plain_name c)
     \<and> (r \<longrightarrow> k = 0))"

lemma cleanedI: "\<forall>c \<in> set cs. plain_name c \<Longrightarrow> cleaned r cs"
  unfolding cleaned_def by (rule exI [of _ 0]) auto

lemma cleaned_Nil [simp]: "cleaned r []"
  by (rule cleanedI) simp

lemma cleaned_append: "cleaned r cs \<Longrightarrow> \<forall>c \<in> set es. plain_name c \<Longrightarrow> cleaned r (cs @ es)"
proof -
  assume c: "cleaned r cs" and es: "\<forall>c \<in> set es. plain_name c"
  from c obtain k ps where "cs = replicate k ''..'' @ ps" "\<forall>c \<in> set ps. plain_name c" "r \<longrightarrow> k = 0"
    unfolding cleaned_def by (elim exE conjE)
  with es show "cleaned r (cs @ es)"
    unfolding cleaned_def by (intro exI [of _ k] exI [of _ "ps @ es"]) auto
qed

lemma cleaned_snoc_plain: "cleaned r cs \<Longrightarrow> plain_name c \<Longrightarrow> cleaned r (cs @ [c])"
  by (rule cleaned_append) auto

lemma cleaned_snoc_cases:
  assumes "cleaned r (cs @ [c])"
  shows "cleaned r cs \<and> (plain_name c \<or> (c = ''..'' \<and> \<not> r \<and> (\<exists>k. cs = replicate k ''..'')))"
proof -
  from assms obtain k ps where e: "cs @ [c] = replicate k ''..'' @ ps"
    and p: "\<forall>c \<in> set ps. plain_name c" and r: "r \<longrightarrow> k = 0"
    unfolding cleaned_def by blast
  show ?thesis
  proof (cases ps rule: rev_cases)
    case Nil
    with e obtain j where k: "k = Suc j" by (cases k) auto
    with e Nil have "cs @ [c] = replicate j ''..'' @ [''..'']"
      by (simp add: replicate_append_same)
    then have "cs = replicate j ''..''" and c: "c = ''..''" by simp_all
    moreover from this have "cleaned r cs"
      using r k unfolding cleaned_def by (metis append_Nil2 empty_iff empty_set nat.distinct(1))
    ultimately show ?thesis using r k by auto
  next
    case (snoc qs q)
    with e have "cs = replicate k ''..'' @ qs" and "c = q" by simp_all
    then show ?thesis using p r snoc unfolding cleaned_def by auto
  qed
qed

lemma cleaned_dotdots: "\<not> r \<Longrightarrow> cleaned r (replicate k ''..'' @ [''..''])"
  unfolding cleaned_def
  by (rule exI [of _ "Suc k"], rule exI [of _ "[]"]) (simp add: replicate_append_same)

lemma clean_comps_cleaned:
  assumes "cleaned r (rev acc)" and "\<forall>c \<in> set cs. CHR ''/'' \<notin> set c"
  shows "cleaned r (clean_comps r acc cs)"
  using assms
proof (induction r acc cs rule: clean_comps.induct)
  case (1 r acc)
  then show ?case by simp
next
  case (2 r acc c cs)
  have sl: "\<forall>c \<in> set cs. CHR ''/'' \<notin> set c" using "2.prems" by simp
  consider "c = [] \<or> c = ''.''" | "c = ''..''" "acc = []" | a as where "c = ''..''" "acc = a # as"
    | "c \<noteq> []" "c \<noteq> ''.''" "c \<noteq> ''..''"
    by (cases acc) auto
  then show ?case
  proof cases
    case 1
    with 2 show ?thesis by simp
  next
    case 2
    then have "cleaned r (rev (if r then [] else [c]))"
      using cleaned_dotdots [of r 0] by simp
    with 2 "2.IH"(2) sl show ?thesis by (cases r) auto
  next
    case 3
    from "2.prems"(1) 3 have a: "cleaned r (rev as @ [a])" by simp
    show ?thesis
    proof (cases "a = ''..''")
      case True
      then obtain k where "rev as = replicate k ''..''" and "\<not> r"
        using cleaned_snoc_cases [OF a] by (auto simp: plain_name_def)
      then have "cleaned r (rev (c # acc))"
        using cleaned_dotdots [of r "Suc k"] 3 True by (simp add: replicate_append_same)
      with 3 True "2.IH"(3) sl show ?thesis by simp
    next
      case False
      with 3 "2.IH"(4) sl cleaned_snoc_cases [OF a] show ?thesis by simp
    qed
  next
    case 4
    then have "plain_name c" using "2.prems" by (simp add: plain_name_def)
    with 4 "2.IH"(5) "2.prems" sl show ?thesis by (simp add: cleaned_snoc_plain)
  qed
qed

lemma cleaned_path_comps [simp]: "cleaned (is_rooted p) (path_comps p)"
  unfolding path_comps_def
  by (rule clean_comps_cleaned) (use strings_Split_no_sep in auto)

lemma clean_comps_replicate:
  "clean_comps False (replicate j ''..'') (replicate k ''..'' @ ps) =
   clean_comps False (replicate (j + k) ''..'') ps"
proof (induction k arbitrary: j)
  case 0
  then show ?case by simp
next
  case (Suc k)
  have "clean_comps False (replicate j ''..'') (''..'' # cs) =
        clean_comps False (replicate (Suc j) ''..'') cs" for cs
    by (cases j) auto
  then show ?case using Suc [of "Suc j"] by simp
qed

lemma clean_comps_id: "cleaned r cs \<Longrightarrow> clean_comps r [] cs = cs"
  unfolding cleaned_def
proof (elim exE conjE)
  fix k ps
  assume a: "cs = replicate k ''..'' @ ps" "\<forall>c \<in> set ps. plain_name c" "r \<longrightarrow> k = 0"
  show ?thesis
  proof (cases r)
    case True
    with a show ?thesis using clean_comps_plain [of ps r "[]"] by simp
  next
    case False
    with a show ?thesis
      using clean_comps_replicate [of 0 k ps] clean_comps_plain [of ps False] by simp
  qed
qed

lemma cleaned_comp: "cleaned r cs \<Longrightarrow> c \<in> set cs \<Longrightarrow> c \<noteq> [] \<and> CHR ''/'' \<notin> set c"
proof -
  assume "cleaned r cs" and "c \<in> set cs"
  then obtain k ps where cs: "cs = replicate k ''..'' @ ps" and ps: "\<forall>c \<in> set ps. plain_name c"
    unfolding cleaned_def by (elim exE conjE)
  from \<open>c \<in> set cs\<close> cs consider "c = ''..''" | "c \<in> set ps" by (auto simp: set_replicate_conv_if split: if_split_asm)
  then show ?thesis using ps by cases (auto simp: plain_name_def)
qed

lemma concat_Split_comps:
  "\<forall>x \<in> set xs. CHR ''/'' \<notin> set x \<Longrightarrow> concat (map (strings_Split CHR ''/'') xs) = xs"
  by (induction xs) (auto simp: strings_Split_id)

lemma render_path_roundtrip:
  assumes "cleaned r cs"
  shows "is_rooted (render_path r cs) = r" and "path_comps (render_path r cs) = cs"
proof -
  have c: "\<forall>c \<in> set cs. c \<noteq> [] \<and> CHR ''/'' \<notin> set c"
    using cleaned_comp [OF assms] by blast
  show rt: "is_rooted (render_path r cs) = r"
    using c by (cases cs; cases "tl cs"; cases "hd cs") (auto simp: render_path_def)
  have s: "strings_Split CHR ''/'' (join_with ''/'' cs) = (if cs = [] then [[]] else cs)"
    using c by (cases "cs = []") (simp_all add: strings_Split_join concat_Split_comps)
  have "clean_comps r [] (strings_Split CHR ''/'' (render_path r cs)) = cs"
    using clean_comps_id [OF assms] s by (cases r) (auto simp: render_path_def)
  with rt show "path_comps (render_path r cs) = cs" by (simp add: path_comps_def)
qed

text \<open>
  The law the report-directory code relies on: joining plain names below a directory gives
  the directory's own components followed by those names.
\<close>

lemma filepath_Join_plain:
  assumes "d \<noteq> []" and "\<forall>e \<in> set es. plain_name e"
  shows "filepath_Join (d # es) = render_path (is_rooted d) (path_comps d @ es)"
proof -
  have r: "is_rooted (join_with ''/'' (d # es)) = is_rooted d"
    using assms(1) by (rule is_rooted_join_with)
  have "strings_Split CHR ''/'' (join_with ''/'' (d # es)) = strings_Split CHR ''/'' d @ es"
    using assms(2) by (simp add: strings_Split_join concat_Split_comps plain_name_def)
  then have "path_comps (join_with ''/'' (d # es)) = path_comps d @ es"
    using r assms(2) by (simp add: path_comps_def clean_comps_app clean_comps_plain)
  with r assms(1) show ?thesis
    by (simp add: filepath_Join_def filepath_Clean_def)
qed

lemma filepath_Join_comps:
  assumes "d \<noteq> []" and "\<forall>e \<in> set es. plain_name e"
  shows "is_rooted (filepath_Join (d # es)) = is_rooted d"
    and "path_comps (filepath_Join (d # es)) = path_comps d @ es"
proof -
  have "cleaned (is_rooted d) (path_comps d @ es)"
    using assms(2) by (simp add: cleaned_append)
  then show "is_rooted (filepath_Join (d # es)) = is_rooted d"
    and "path_comps (filepath_Join (d # es)) = path_comps d @ es"
    by (simp_all add: filepath_Join_plain [OF assms] render_path_roundtrip)
qed

section \<open>net\<close>

definition net_JoinHostPort :: "string \<Rightarrow> string \<Rightarrow> string" where
  "net_JoinHostPort host port =
     (if CHR '':'' \<in> set host then ''['' @ host @ '']:'' @ port else host @ '':'' @ port)"

section \<open>unicode\<close>

text \<open>
  \<open>unicode.IsUpper(rune(b))\<close> for a byte \<open>b\<close>: the code points below 256 whose category is
  upper-case letter.
\<close>

definition unicode_IsUpper_byte :: "char \<Rightarrow> bool" where
  "unicode_IsUpper_byte c =
     (let n = of_char c :: nat
      in (65 \<le> n \<and> n \<le> 90) \<or> (192 \<le> n \<and> n \<le> 214) \<or> (216 \<le> n \<and> n \<le> 222))"

section \<open>time\<close>

text \<open>
  An instant is its distance in nanoseconds from Go's zero time (1 January of year 1), so
  the zero \<open>time.Time\<close> is \<open>0\<close>. \<open>Sub\<close> saturates at the ends of \<open>int64\<close>;
  \<open>Milliseconds\<close> truncates towards zero.
\<close>

type_synonym instant = int

definition zero_time :: instant where "zero_time = 0"

definition time_Sub :: "instant \<Rightarrow> instant \<Rightarrow> int" where
  "time_Sub t u = max min_int64 (min max_int64 (t - u))"

definition duration_Milliseconds :: "int \<Rightarrow> int" where
  "duration_Milliseconds d = sgn d * (\<bar>d\<bar> div 1000000)"

definition time_Second :: int where "time_Second = 1000000000"

text \<open>The calendar fields of a local time that the layout \<open>200601021504\<close> prints.\<close>

record civil =
  c_year :: nat
  c_month :: nat
  c_day :: nat
  c_hour :: nat
  c_minute :: nat

definition valid_civil :: "civil \<Rightarrow> bool" where
  "valid_civil w \<longleftrightarrow> 1 \<le> c_year w \<and> c_year w < 10000 \<and> 1 \<le> c_month w \<and> c_month w \<le> 12
     \<and> 1 \<le> c_day w \<and> c_day w \<le> 31 \<and> c_hour w < 24 \<and> c_minute w < 60"

definition time_Format_id :: "civil \<Rightarrow> string" where
  "time_Format_id w =
     pad 4 (c_year w) @ pad 2 (c_month w) @ pad 2 (c_day w) @ pad 2 (c_hour w) @ pad 2 (c_minute w)"

lemma time_Format_id_length [simp]: "length (time_Format_id w) = 12"
  by (simp add: time_Format_id_def)

lemma time_Format_id_digits: "c \<in> set (time_Format_id w) \<Longrightarrow> is_digit c"
  by (auto simp: time_Format_id_def dest: pad_digits)

lemma time_Format_id_inject:
  assumes "valid_civil v" and "valid_civil w" and "time_Format_id v = time_Format_id w"
  shows "v = w"
proof -
  from assms(3) have "pad 4 (c_year v) = pad 4 (c_year w) \<and> pad 2 (c_month v) = pad 2 (c_month w)
    \<and> pad 2 (c_day v) = pad 2 (c_day w) \<and> pad 2 (c_hour v) = pad 2 (c_hour w)
    \<and> pad 2 (c_minute v) = pad 2 (c_minute w)"
    by (simp add: time_Format_id_def)
  moreover have "m < 100 \<Longrightarrow> n < 100 \<Longrightarrow> pad 2 m = pad 2 n \<Longrightarrow> m = n" for m n
    using pad_inject [of m 2 n] by simp
  moreover have "m < 10000 \<Longrightarrow> n < 10000 \<Longrightarrow> pad 4 m = pad 4 n \<Longrightarrow> m = n" for m n
    using pad_inject [of m 4 n] by simp
  moreover have "x < 100" if "x \<le> 12 \<or> x \<le> 31 \<or> x < 24 \<or> x < 60" for x :: nat
    using that by auto
  ultimately have "c_year v = c_year w" "c_month v = c_month w" "c_day v = c_day w"
    "c_hour v = c_hour w" "c_minute v = c_minute w"
    using assms(1,2) unfolding valid_civil_def by blast+
  then show ?thesis by simp
qed

lemma time_Format_id_plain: "plain_name (time_Format_id w)"
proof -
  have "CHR ''/'' \<notin> set (time_Format_id w)"
    using time_Format_id_digits by fastforce
  moreover have "time_Format_id w \<noteq> x" if "length x < 12" for x
    using that time_Format_id_length [of w] by auto
  ultimately show ?thesis by (auto simp: plain_name_def)
qed

end
