(* ===== verification/Files.thy ===== *)
theory Files
  imports GoStd "HOL-Library.AList"
begin

text \<open>
  The operating-system calls of the \<open>os\<close> package that the code makes, on a table of
  inodes: \<open>Stat\<close>, \<open>Lstat\<close>, \<open>MkdirAll\<close>, \<open>Remove\<close>, \<open>RemoveAll\<close>, \<open>Symlink\<close>, \<open>ReadDir\<close> and
  \<open>WriteFile\<close>. A path is the cleaned path's root flag and its components; the root and the
  working directory always exist. \<open>fs_ro\<close> lists the paths that the kernel refuses to
  create, change or remove (permissions, read-only mounts, full disks), so that every error
  branch of the callers can be taken. Symbolic links are followed by \<open>Stat\<close> at the last
  component; directories reached through a link in the middle of a path are not modelled.
\<close>

type_synonym fpath = "bool \<times> string list"

datatype fkind = Dir | File string | Link string

record inode =
  i_kind :: fkind
  i_mtime :: instant

record fs =
  fs_tab :: "(fpath \<times> inode) list"
  fs_ro :: "fpath list"

definition fpath_of :: "string \<Rightarrow> fpath" where
  "fpath_of p = (is_rooted p, path_comps p)"

definition fs_get :: "fs \<Rightarrow> fpath \<Rightarrow> inode option" where
  "fs_get s p = (if snd p = [] then Some \<lparr>i_kind = Dir, i_mtime = 0\<rparr> else map_of (fs_tab s) p)"

definition fs_put :: "fpath \<Rightarrow> inode \<Rightarrow> fs \<Rightarrow> fs" where
  "fs_put p i s = s\<lparr>fs_tab := AList.update p i (fs_tab s)\<rparr>"

definition fs_del :: "fpath \<Rightarrow> fs \<Rightarrow> fs" where
  "fs_del p s = s\<lparr>fs_tab := AList.delete p (fs_tab s)\<rparr>"

definition denied :: "fs \<Rightarrow> fpath \<Rightarrow> bool" where
  "denied s p \<longleftrightarrow> p \<in> set (fs_ro s)"

definition parent :: "fpath \<Rightarrow> fpath" where
  "parent p = (fst p, butlast (snd p))"

definition is_dir :: "fs \<Rightarrow> fpath \<Rightarrow> bool" where
  "is_dir s p \<longleftrightarrow> (case fs_get s p of Some i \<Rightarrow> i_kind i = Dir | None \<Rightarrow> False)"

text \<open>Creating or removing an entry changes the modification time of its directory.\<close>

definition touch :: "instant \<Rightarrow> fpath \<Rightarrow> fs \<Rightarrow> fs" where
  "touch now p s =
     (case map_of (fs_tab s) p of None \<Rightarrow> s | Some i \<Rightarrow> fs_put p (i\<lparr>i_mtime := now\<rparr>) s)"

text \<open>\<open>stat_at n\<close> follows at most \<open>n\<close> links; the kernel's limit is 40.\<close>

fun stat_at :: "nat \<Rightarrow> fs \<Rightarrow> fpath \<Rightarrow> os_error + inode" where
  "stat_at n s p =
     (case fs_get s p of
        None \<Rightarrow> Inl ErrNotExist
      | Some i \<Rightarrow>
          (case i_kind i of
             Link t \<Rightarrow>
               (case n of
                  0 \<Rightarrow> Inl ErrLoop
                | Suc m \<Rightarrow>
                    stat_at m s (if is_rooted t then fpath_of t
                                 else (fst p, clean_comps (fst p) (rev (butlast (snd p)))
                                                (strings_Split CHR ''/'' t))))
           | _ \<Rightarrow> Inr i))"

declare stat_at.simps [simp del]

definition os_Lstat :: "fs \<Rightarrow> string \<Rightarrow> os_error + inode" where
  "os_Lstat s p = (case fs_get s (fpath_of p) of None \<Rightarrow> Inl ErrNotExist | Some i \<Rightarrow> Inr i)"

definition os_Stat :: "fs \<Rightarrow> string \<Rightarrow> os_error + inode" where
  "os_Stat s p = stat_at 40 s (fpath_of p)"

text \<open>\<open>mkdir_each\<close> creates the missing directories \<open>done @ [c]\<close>, outermost first.\<close>

fun mkdir_each :: "instant \<Rightarrow> bool \<Rightarrow> string list \<Rightarrow> string list \<Rightarrow> fs \<Rightarrow> (os_error + unit) \<times> fs" where
  "mkdir_each now r done [] s = (Inr (), s)"
| "mkdir_each now r done (c # cs) s =
     (let q = (r, done @ [c]) in
      case stat_at 40 s q of
        Inr i \<Rightarrow> if i_kind i = Dir then mkdir_each now r (done @ [c]) cs s else (Inl ErrNotDir, s)
      | Inl _ \<Rightarrow>
          if fs_get s q \<noteq> None then (Inl ErrExist, s)
          else if denied s q then (Inl ErrPermission, s)
          else mkdir_each now r (done @ [c]) cs
                 (fs_put q \<lparr>i_kind = Dir, i_mtime = now\<rparr> (touch now (r, done) s)))"

definition os_MkdirAll :: "instant \<Rightarrow> fs \<Rightarrow> string \<Rightarrow> (os_error + unit) \<times> fs" where
  "os_MkdirAll now s p =
     (let (r, cs) = fpath_of p in
      case stat_at 40 s (r, cs) of
        Inr i \<Rightarrow> if i_kind i = Dir then (Inr (), s) else (Inl ErrNotDir, s)
      | Inl _ \<Rightarrow> mkdir_each now r [] cs s)"

definition below :: "fpath \<Rightarrow> fpath \<Rightarrow> bool" where
  "below d p \<longleftrightarrow> fst p = fst d \<and> prefix (snd d) (snd p)"

definition os_Remove :: "instant \<Rightarrow> fs \<Rightarrow> string \<Rightarrow> (os_error + unit) \<times> fs" where
  "os_Remove now s p =
     (let q = fpath_of p in
      case fs_get s q of
        None \<Rightarrow> (Inl ErrNotExist, s)
      | Some i \<Rightarrow>
          if denied s q \<or> snd q = [] then (Inl ErrPermission, s)
          else if i_kind i = Dir \<and> (\<exists>e \<in> set (fs_tab s). below q (fst e) \<and> fst e \<noteq> q)
            then (Inl ErrNotEmpty, s)
          else (Inr (), touch now (parent q) (fs_del q s)))"

definition os_RemoveAll :: "instant \<Rightarrow> fs \<Rightarrow> string \<Rightarrow> (os_error + unit) \<times> fs" where
  "os_RemoveAll now s p =
     (let q = fpath_of p in
      if denied s q \<or> snd q = [] then (Inl ErrPermission, s)
      else if fs_get s q = None then (Inr (), s)
      else (Inr (), touch now (parent q)
                      (s\<lparr>fs_tab := filter (\<lambda>e. \<not> below q (fst e)) (fs_tab s)\<rparr>)))"

definition os_Symlink :: "instant \<Rightarrow> fs \<Rightarrow> string \<Rightarrow> string \<Rightarrow> (os_error + unit) \<times> fs" where
  "os_Symlink now s target p =
     (let q = fpath_of p in
      if fs_get s q \<noteq> None then (Inl ErrExist, s)
      else if \<not> is_dir s (parent q) then (Inl ErrNotExist, s)
      else if denied s q then (Inl ErrPermission, s)
      else (Inr (), fs_put q \<lparr>i_kind = Link target, i_mtime = now\<rparr> (touch now (parent q) s)))"

definition os_WriteFile :: "instant \<Rightarrow> fs \<Rightarrow> string \<Rightarrow> string \<Rightarrow> (os_error + unit) \<times> fs" where
  "os_WriteFile now s p data =
     (let q = fpath_of p; f = \<lparr>i_kind = File data, i_mtime = now\<rparr> in
      case fs_get s q of
        None \<Rightarrow>
          if \<not> is_dir s (parent q) then (Inl ErrNotExist, s)
          else if denied s q then (Inl ErrPermission, s)
          else (Inr (), fs_put q f (touch now (parent q) s))
      | Some i \<Rightarrow>
          if i_kind i = Dir then (Inl ErrIsDir, s)
          else if denied s q then (Inl ErrPermission, s)
          else (Inr (), fs_put q f s))"

text \<open>A directory entry: its name and the file information that \<open>Info\<close> reads.\<close>

record dir_entry =
  de_name :: string
  de_info :: inode

definition entries_of :: "fs \<Rightarrow> fpath \<Rightarrow> dir_entry list" where
  "entries_of s d =
     map (\<lambda>e. \<lparr>de_name = last (snd (fst e)), de_info = snd e\<rparr>)
       (filter (\<lambda>e. snd (fst e) \<noteq> [] \<and> parent (fst e) = d) (fs_tab s))"

definition os_ReadDir :: "fs \<Rightarrow> string \<Rightarrow> os_error + dir_entry list" where
  "os_ReadDir s p =
     (if is_dir s (fpath_of p) then Inr (sort_key de_name (entries_of s (fpath_of p)))
      else Inl (if fs_get s (fpath_of p) = None then ErrNotExist else ErrNotDir))"

section \<open>Laws\<close>

text \<open>Every path has one inode.\<close>

definition fs_ok :: "fs \<Rightarrow> bool" where
  "fs_ok s \<longleftrightarrow> distinct (map fst (fs_tab s))"

lemma fs_get_put [fs_simps]:
  "fs_get (fs_put p i s) q = (if q = p \<and> snd q \<noteq> [] then Some i else fs_get s q)"
  by (auto simp: fs_get_def fs_put_def update_conv')

lemma fs_get_del [fs_simps]:
  "fs_get (fs_del p s) q = (if q = p \<and> snd q \<noteq> [] then None else fs_get s q)"
  by (auto simp: fs_get_def fs_del_def delete_conv')

lemma fs_get_touch:
  "fs_get (touch now d s) q =
     (if q = d \<and> snd q \<noteq> [] then map_option (\<lambda>i. i\<lparr>i_mtime := now\<rparr>) (fs_get s q) else fs_get s q)"
  by (cases "map_of (fs_tab s) d") (auto simp: touch_def fs_get_put fs_get_def fs_put_def update_conv')

lemma denied_frame [fs_simps]:
  "denied (fs_put p i s) = denied s" "denied (fs_del p s) = denied s" "denied (touch now d s) = denied s"
  by (auto simp: fun_eq_iff denied_def fs_put_def fs_del_def touch_def split: option.splits)

lemma is_dir_touch [fs_simps]: "is_dir (touch now d s) q = is_dir s q"
  by (cases "fs_get s q") (auto simp: is_dir_def fs_get_touch)

lemma fs_ok_put [fs_simps]: "fs_ok s \<Longrightarrow> fs_ok (fs_put p i s)"
  by (simp add: fs_ok_def fs_put_def distinct_update)

lemma fs_ok_del [fs_simps]: "fs_ok s \<Longrightarrow> fs_ok (fs_del p s)"
  by (simp add: fs_ok_def fs_del_def distinct_delete)

lemma fs_ok_touch [fs_simps]: "fs_ok s \<Longrightarrow> fs_ok (touch now d s)"
  by (auto simp: touch_def fs_ok_put split: option.splits)

lemma fs_ok_mkdir_each: "fs_ok s \<Longrightarrow> fs_ok (snd (mkdir_each now r done cs s))"
  by (induction now r "done" cs s rule: mkdir_each.induct)
    (auto simp: Let_def fs_simps split: sum.splits)

lemma fs_ok_MkdirAll: "fs_ok s \<Longrightarrow> fs_ok (snd (os_MkdirAll now s p))"
  by (auto simp: os_MkdirAll_def fs_ok_mkdir_each split: sum.splits prod.splits)

lemma fs_ok_RemoveAll: "fs_ok s \<Longrightarrow> fs_ok (snd (os_RemoveAll now s p))"
  by (auto simp: os_RemoveAll_def Let_def intro!: fs_ok_touch)
    (auto simp: fs_ok_def intro: distinct_map_filter)

lemma is_dir_stat: "is_dir s p \<Longrightarrow> \<exists>i. stat_at n s p = Inr i \<and> i_kind i = Dir"
  by (cases "fs_get s p") (auto simp: is_dir_def stat_at.simps [of n])

text \<open>
  \<open>real_dirs s p\<close>: no link stands at a non-empty prefix of \<open>p\<close>, so that \<open>Stat\<close> and the
  inode table agree on the way down to \<open>p\<close>.
\<close>

definition no_links :: "fs \<Rightarrow> fpath \<Rightarrow> bool" where
  "no_links s p \<longleftrightarrow> (\<forall>k \<le> length (snd p). \<forall>i. fs_get s (fst p, take k (snd p)) = Some i
     \<longrightarrow> (\<forall>t. i_kind i \<noteq> Link t))"

lemma stat_no_link:
  "\<forall>i. fs_get s p = Some i \<longrightarrow> (\<forall>t. i_kind i \<noteq> Link t) \<Longrightarrow>
   stat_at n s p = (case fs_get s p of None \<Rightarrow> Inl ErrNotExist | Some i \<Rightarrow> Inr i)"
  by (auto simp: stat_at.simps [of n] split: option.splits fkind.splits)

text \<open>\<open>mkdir_each\<close> changes no inode that exists, but for the times of directories.\<close>

lemma mkdir_each_frame:
  "fs_get s q = Some i \<Longrightarrow>
   \<exists>i'. fs_get (snd (mkdir_each now r done cs s)) q = Some i' \<and> i_kind i' = i_kind i"
proof (induction now r "done" cs s arbitrary: i rule: mkdir_each.induct)
  case (1 now r "done" s)
  then show ?case by simp
next
  case (2 now r "done" c cs s)
  let ?q = "(r, done @ [c])"
  let ?s = "fs_put ?q \<lparr>i_kind = Dir, i_mtime = now\<rparr> (touch now (r, done) s)"
  show ?case
  proof (cases "stat_at 40 s ?q")
    case (Inr j)
    with 2 show ?thesis by (auto simp: Let_def)
  next
    case (Inl e)
    have "\<exists>i'. fs_get ?s q = Some i' \<and> i_kind i' = i_kind i" if "fs_get s ?q = None"
      using that 2(3) by (auto simp: fs_get_put fs_get_touch)
    with Inl 2 show ?thesis by (fastforce simp: Let_def)
  qed
qed

text \<open>After a successful \<open>mkdir_each\<close> without links, the target is a directory.\<close>

lemma mkdir_each_keeps:
  "is_dir s q \<Longrightarrow> is_dir (snd (mkdir_each now r done cs s)) q"
  using mkdir_each_frame [of s q _ now r "done" cs]
  by (auto simp: is_dir_def split: option.splits)

lemma put_dir_kinds:
  "fs_get (fs_put q \<lparr>i_kind = Dir, i_mtime = now\<rparr> (touch now d s)) x = Some i \<Longrightarrow>
   i_kind i = Dir \<or> (\<exists>j. fs_get s x = Some j \<and> i_kind j = i_kind i)"
  by (auto simp: fs_get_put fs_get_touch split: if_splits)

lemma no_links_put_dir:
  "no_links s p \<Longrightarrow> no_links (fs_put q \<lparr>i_kind = Dir, i_mtime = now\<rparr> (touch now d s)) p"
  unfolding no_links_def by (metis fkind.distinct(3) put_dir_kinds)

lemma mkdir_each_dir:
  assumes "fst (mkdir_each now r done cs s) = Inr ()" and "no_links s (r, done @ cs)"
    and "is_dir s (r, done)"
  shows "is_dir (snd (mkdir_each now r done cs s)) (r, done @ cs)"
  using assms
proof (induction now r "done" cs s rule: mkdir_each.induct)
  case (1 now r "done" s)
  then show ?case by simp
next
  case (2 now r "done" c cs s)
  let ?q = "(r, done @ [c])"
  let ?s = "fs_put ?q \<lparr>i_kind = Dir, i_mtime = now\<rparr> (touch now (r, done) s)"
  have nl: "\<forall>i. fs_get s ?q = Some i \<longrightarrow> (\<forall>t. i_kind i \<noteq> Link t)"
    using "2.prems"(2) unfolding no_links_def
    by (elim allE [of _ "Suc (length done)"]) simp
  show ?case
  proof (cases "fs_get s ?q")
    case None
    then have st: "stat_at 40 s ?q = Inl ErrNotExist" using stat_no_link [OF nl] by simp
    have d: "is_dir ?s ?q" by (simp add: is_dir_def fs_get_put)
    have nl': "no_links ?s (r, (done @ [c]) @ cs)"
      using no_links_put_dir [OF "2.prems"(2)] by simp
    have nd: "\<not> denied s ?q"
      using "2.prems"(1) st None by (auto simp: Let_def split: if_splits)
    have eq: "mkdir_each now r done (c # cs) s = mkdir_each now r (done @ [c]) cs ?s"
      using st None nd by (simp add: Let_def)
    have "is_dir (snd (mkdir_each now r (done @ [c]) cs ?s)) (r, (done @ [c]) @ cs)"
    proof (rule "2.IH"(1) [OF refl st _ nd])
      show "\<not> fs_get s ?q \<noteq> None" using None by simp
      show "fst (mkdir_each now r (done @ [c]) cs ?s) = Inr ()"
        using "2.prems"(1) unfolding eq .
    qed (rule nl', rule d)
    then show ?thesis unfolding eq by simp
  next
    case (Some i)
    then have st: "stat_at 40 s ?q = Inr i" using stat_no_link [OF nl] by simp
    show ?thesis
    proof (cases "i_kind i = Dir")
      case True
      with Some have "is_dir s ?q" by (simp add: is_dir_def)
      with "2.IH"(2) [OF refl st True] "2.prems" st True show ?thesis by (simp add: Let_def)
    next
      case False
      with "2.prems"(1) st show ?thesis by (simp add: Let_def)
    qed
  qed
qed

lemma is_dir_root [simp]: "is_dir s (r, [])"
  by (simp add: is_dir_def fs_get_def)

lemma MkdirAll_dir:
  assumes "fst (os_MkdirAll now s p) = Inr ()" and "no_links s (fpath_of p)"
  shows "is_dir (snd (os_MkdirAll now s p)) (fpath_of p)"
proof -
  obtain r cs where f: "fpath_of p = (r, cs)" by (cases "fpath_of p")
  have nl: "\<forall>i. fs_get s (r, cs) = Some i \<longrightarrow> (\<forall>t. i_kind i \<noteq> Link t)"
    using assms(2) unfolding no_links_def f by (elim allE [of _ "length cs"]) simp
  show ?thesis
  proof (cases "fs_get s (r, cs)")
    case None
    then show ?thesis
      using assms f stat_no_link [OF nl, of 40] mkdir_each_dir [of now r "[]" cs s]
      by (simp add: os_MkdirAll_def)
  next
    case (Some i)
    then show ?thesis
      using assms f stat_no_link [OF nl, of 40]
      by (auto simp: os_MkdirAll_def is_dir_def split: if_splits)
  qed
qed

lemma MkdirAll_existing: "is_dir s (fpath_of p) \<Longrightarrow> os_MkdirAll now s p = (Inr (), s)"
  using is_dir_stat [of s "fpath_of p" 40]
  by (cases "fpath_of p") (auto simp: os_MkdirAll_def)

text \<open>\<open>WriteFile\<close>: what it stores, and what it leaves alone.\<close>

lemma WriteFile_get:
  assumes "fst (os_WriteFile now s p data) = Inr ()"
  shows "\<exists>i. fs_get (snd (os_WriteFile now s p data)) (fpath_of p) = Some i \<and> i_kind i = File data"
proof -
  have "snd (fpath_of p) \<noteq> []"
    using assms by (auto simp: os_WriteFile_def Let_def fs_get_def split: if_splits)
  then show ?thesis
    using assms by (auto simp: os_WriteFile_def Let_def fs_get_put split: option.splits if_splits)
qed

lemma WriteFile_frame:
  assumes "q \<noteq> fpath_of p" and "fs_get s q = Some i"
  shows "\<exists>i'. fs_get (snd (os_WriteFile now s p data)) q = Some i' \<and> i_kind i' = i_kind i"
  using assms by (auto simp: os_WriteFile_def Let_def fs_get_put fs_get_touch split: option.splits)

lemma RemoveAll_get:
  assumes "fst (os_RemoveAll now s p) = Inr ()" and "fs_get s (fpath_of p) \<noteq> None"
  shows "fs_get (snd (os_RemoveAll now s p)) q = None \<longleftrightarrow> fs_get s q = None \<or> below (fpath_of p) q"
proof -
  have ne: "snd (fpath_of p) \<noteq> []" and nd: "\<not> denied s (fpath_of p)"
    using assms(1) by (auto simp: os_RemoveAll_def Let_def split: if_splits)
  have m: "map_of (filter (\<lambda>e. \<not> below x (fst e)) t) q = (if below x q then None else map_of t q)"
    for x and t :: "(fpath \<times> inode) list"
    by (induction t) auto
  have nb: "below (fpath_of p) q \<Longrightarrow> snd q \<noteq> []" using ne by (auto simp: below_def)
  let ?t = "s\<lparr>fs_tab := filter (\<lambda>e. \<not> below (fpath_of p) (fst e)) (fs_tab s)\<rparr>"
  have g: "fs_get ?t q = (if below (fpath_of p) q then None else fs_get s q)"
    using nb m by (auto simp: fs_get_def)
  have "snd (os_RemoveAll now s p) = touch now (parent (fpath_of p)) ?t"
    using assms(2) ne nd by (auto simp: os_RemoveAll_def Let_def)
  with g show ?thesis by (auto simp: fs_get_touch)
qed

end
