(* ===== verification/Config.thy ===== *)
theory Config
  imports Files
begin

text \<open>
  \<open>pkg/config\<close>: the controller's configuration record and its accessors
  (\<open>types.go\<close>), and how it is read from the config map, completed from the environment and
  given the owner of the controller's pod (\<open>config.go\<close>). The Kubernetes reader and the YAML
  decoder are arguments. A JSON field of kind map that the code ranges over is an association
  list with distinct keys, in the order the range visits it.
\<close>

section \<open>types.go\<close>

record Metric =
  Help :: string
  Labels :: "string list"

record Metrics =
  Port :: int
  Prefix :: string
  Gauges :: "(string \<times> Metric) list"

text \<open>Values of the free-form \<open>custom\<close> section: the code tells strings from the rest.\<close>

datatype any = AnyString string | AnyOther string

text \<open>The part of a Kubernetes object that the owner search reads and keeps.\<close>

record owner_ref =
  or_APIVersion :: string
  or_Kind :: string
  or_Name :: string

record api_object =
  ob_APIVersion :: string
  ob_Kind :: string
  ob_Name :: string
  ob_OwnerReferences :: "owner_ref list"

record Config =
  cfg_Name :: string
  JobServiceAccount :: string
  JobImagePullSecrets :: "string list"
  JobNodeSelector :: "(string \<times> string) list"
  RunOnUnscheduledNodes :: bool
  CronExpression :: string
  ReportDirectory :: string
  ReportHistory :: int
  PodPoolSize :: int
  RunOnStartup :: bool
  StartupDelay :: int
  cfg_Metrics :: Metrics
  HealthProbePort :: int
  LatestMetricsLabel :: bool
  Custom :: "(string \<times> any) list"
  CallbackServiceName :: string
  CallbackServicePort :: int
  LeaderElectionResourceLock :: string
  SavePodLog :: bool
  Namespace :: string
  JobPodTemplate :: string
  Owner :: "api_object option"
  DevMode :: bool

definition zero_Config :: Config where
  "zero_Config = \<lparr>cfg_Name = [], JobServiceAccount = [], JobImagePullSecrets = [],
     JobNodeSelector = [], RunOnUnscheduledNodes = False, CronExpression = [],
     ReportDirectory = [], ReportHistory = 0, PodPoolSize = 0, RunOnStartup = False,
     StartupDelay = 0, cfg_Metrics = \<lparr>Port = 0, Prefix = [], Gauges = []\<rparr>, HealthProbePort = 0,
     LatestMetricsLabel = False, Custom = [], CallbackServiceName = [], CallbackServicePort = 0,
     LeaderElectionResourceLock = [], SavePodLog = False, Namespace = [], JobPodTemplate = [],
     Owner = None, DevMode = False\<rparr>"

definition PodName :: "Config \<Rightarrow> string \<Rightarrow> string \<Rightarrow> string" where
  "PodName cfg nodeName eid =
     (let nameParts = strings_Split CHR ''.'' nodeName
      in cfg_Name cfg @ ''-job-'' @ hd nameParts @ ''-'' @ eid)"

definition defaultHealthBindAddress :: string where
  "defaultHealthBindAddress = '':9152''"

definition defaultMetricsBindAddressAddress :: string where
  "defaultMetricsBindAddressAddress = '':9153''"

definition HealthProbeBindAddress :: "Config \<Rightarrow> string" where
  "HealthProbeBindAddress cfg =
     (if HealthProbePort cfg = 0 then defaultHealthBindAddress
      else '':'' @ strconv_Itoa (HealthProbePort cfg))"

text \<open>The health check fails for a directory that does not exist, and for nothing else.\<close>

definition ReportDirExistsChecker :: "Config \<Rightarrow> fs \<Rightarrow> err option" where
  "ReportDirExistsChecker cfg s =
     (case os_Stat s (ReportDirectory cfg) of
        Inl e \<Rightarrow> if e = ErrNotExist then Some (OsErr e) else None
      | Inr _ \<Rightarrow> None)"

definition MkReportDir :: "instant \<Rightarrow> Config \<Rightarrow> fs \<Rightarrow> string \<Rightarrow> (os_error + unit) \<times> fs" where
  "MkReportDir now cfg s executionID =
     os_MkdirAll now s (filepath_Join [ReportDirectory cfg, executionID])"

definition ReportFileName :: "Config \<Rightarrow> string \<Rightarrow> string \<Rightarrow> string" where
  "ReportFileName cfg executionID name = filepath_Join [ReportDirectory cfg, executionID, name]"

definition NameFor :: "Metrics \<Rightarrow> string \<Rightarrow> string" where
  "NameFor m name = Prefix m @ ''_'' @ name"

definition BindAddress :: "Metrics \<Rightarrow> string" where
  "BindAddress m =
     (if Port m = 0 then defaultMetricsBindAddressAddress else '':'' @ strconv_Itoa (Port m))"

section \<open>config.go\<close>

text \<open>The process environment: \<open>os.LookupEnv\<close>; \<open>os.Getenv\<close> gives \<open>""\<close> for an unset name.\<close>

type_synonym env = "string \<Rightarrow> string option"

definition os_Getenv :: "env \<Rightarrow> string \<Rightarrow> string" where
  "os_Getenv env k = (case env k of None \<Rightarrow> [] | Some v \<Rightarrow> v)"

definition EnvHostname :: string where "EnvHostname = ''HOSTNAME''"
definition EnvConfigMapName :: string where "EnvConfigMapName = ''CONFIG_MAP_NAME''"
definition EnvPodIP :: string where "EnvPodIP = ''POD_IP''"
definition EnvDevMode :: string where "EnvDevMode = ''DEV_MODE''"
definition EnvReportDirectory :: string where "EnvReportDirectory = ''REPORT_DIRECTORY''"
definition PodTemplateName :: string where "PodTemplateName = ''pod-template.yaml''"
definition ConfigFileName :: string where "ConfigFileName = ''config.yaml''"

text \<open>
  The API reader: \<open>Get\<close> of an object of an API version and kind by namespace and name, and
  of a config map's data.
\<close>

record reader =
  rd_object :: "string \<Rightarrow> string \<Rightarrow> string \<Rightarrow> string \<Rightarrow> err + api_object"
  rd_configMap :: "string \<Rightarrow> string \<Rightarrow> err + (string \<rightharpoonup> string)"

datatype config_error =
    ConfigMapError string err
  | ConfigDecodeError string
  | NoPodTemplate
  | NoConfigFile
  | NoReader err

definition IsDevMode :: "env \<Rightarrow> bool" where
  "IsDevMode env = strings_EqualFold (os_Getenv env EnvDevMode) ''true''"

definition configMap :: "env \<Rightarrow> string \<Rightarrow> reader \<Rightarrow> config_error + (string \<rightharpoonup> string)" where
  "configMap env ns cl =
     (case rd_configMap cl ns (os_Getenv env EnvConfigMapName) of
        Inl e \<Rightarrow> Inl (ConfigMapError EnvConfigMapName e)
      | Inr d \<Rightarrow> Inr d)"

text \<open>
  \<open>findOwner\<close> follows the first owner reference until an object has none. The recursion ends
  only if the references do, so not returning is \<^term>\<open>None\<close>; a failed \<open>Get\<close> ends it
  with no owner.
\<close>

partial_function (option) findOwner ::
  "reader \<Rightarrow> string \<Rightarrow> string \<Rightarrow> string \<Rightarrow> string \<Rightarrow> (string \<times> api_object option) option" where
  "findOwner cl apiVersion kind ns name =
     (case rd_object cl apiVersion kind ns name of
        Inl _ \<Rightarrow> Some (name, None)
      | Inr obj \<Rightarrow>
          (case ob_OwnerReferences obj of
             [] \<Rightarrow> Some (name, Some obj)
           | r # _ \<Rightarrow> findOwner cl (or_APIVersion r) (or_Kind r) ns (or_Name r)))"

definition findPodOwner :: "env \<Rightarrow> string \<Rightarrow> reader \<Rightarrow> api_object option option" where
  "findPodOwner env ns cl =
     (case findOwner cl ''v1'' ''Pod'' ns (os_Getenv env EnvHostname) of
        None \<Rightarrow> None
      | Some (name, owner) \<Rightarrow> Some owner)"

text \<open>\<open>decode\<close> is the YAML decoder applied to a fresh \<^typ>\<open>Config\<close>.\<close>

definition getInternal ::
  "(string \<Rightarrow> string + Config) \<Rightarrow> env \<Rightarrow> string \<Rightarrow> reader \<Rightarrow> (config_error + Config) option" where
  "getInternal decode env ns cl =
     (case configMap env ns cl of
        Inl e \<Rightarrow> Some (Inl e)
      | Inr data \<Rightarrow>
          (case data ConfigFileName of
             None \<Rightarrow> Some (Inl NoConfigFile)
           | Some c \<Rightarrow>
               (case decode c of
                  Inl e \<Rightarrow> Some (Inl (ConfigDecodeError e))
                | Inr cfg0 \<Rightarrow>
                    (case data PodTemplateName of
                       None \<Rightarrow> Some (Inl NoPodTemplate)
                     | Some t \<Rightarrow>
                         let cfg1 = cfg0\<lparr>JobPodTemplate := t, Namespace := ns\<rparr> in
                         (case findPodOwner env ns cl of
                            None \<Rightarrow> None
                          | Some owner \<Rightarrow>
                              let cfg2 = cfg1\<lparr>Owner := owner\<rparr>;
                                  cfg3 = (if StartupDelay cfg2 = 0
                                          then cfg2\<lparr>StartupDelay := 10 * time_Second\<rparr> else cfg2);
                                  cfg4 = cfg3\<lparr>DevMode := IsDevMode env\<rparr>
                              in Some (Inr (case env EnvReportDirectory of
                                              None \<Rightarrow> cfg4
                                            | Some dir \<Rightarrow> cfg4\<lparr>ReportDirectory := dir\<rparr>)))))))"

text \<open>\<open>Get\<close>: \<open>client.New\<close>, an argument here, makes the reader.\<close>

definition Get ::
  "(string \<Rightarrow> string + Config) \<Rightarrow> env \<Rightarrow> string \<Rightarrow> err + reader \<Rightarrow> (config_error + Config) option" where
  "Get decode env ns newClient =
     (case newClient of
        Inl e \<Rightarrow> Some (Inl (NoReader e))
      | Inr apiReader \<Rightarrow> getInternal decode env ns apiReader)"

section \<open>Pod names\<close>

lemma PodName_eq:
  "PodName cfg n eid = cfg_Name cfg @ ''-job-'' @ takeWhile (\<lambda>c. c \<noteq> CHR ''.'') n @ ''-'' @ eid"
  by (simp add: PodName_def hd_strings_Split)

lemma PodName_inject_same_length:
  assumes "length id1 = length id2"
  shows "PodName cfg n1 id1 = PodName cfg n2 id2 \<longleftrightarrow>
    takeWhile (\<lambda>c. c \<noteq> CHR ''.'') n1 = takeWhile (\<lambda>c. c \<noteq> CHR ''.'') n2 \<and> id1 = id2"
proof -
  have "a @ ''-'' @ id1 = b @ ''-'' @ id2 \<longleftrightarrow> a = b \<and> id1 = id2" for a b :: string
    using assms by auto
  then show ?thesis by (simp add: PodName_eq)
qed

section \<open>Report paths\<close>

text \<open>
  With a report directory that is set, the directory of an execution and the files in it are
  exactly the components below it, as long as the names are plain.
\<close>

lemma MkReportDir_path:
  assumes "ReportDirectory cfg \<noteq> []" and "plain_name e"
  shows "fpath_of (filepath_Join [ReportDirectory cfg, e])
       = (is_rooted (ReportDirectory cfg), path_comps (ReportDirectory cfg) @ [e])"
  using filepath_Join_comps [of "ReportDirectory cfg" "[e]"] assms by (simp add: fpath_of_def)

lemma ReportFileName_path:
  assumes "ReportDirectory cfg \<noteq> []" and "plain_name e" and "plain_name f"
  shows "fpath_of (ReportFileName cfg e f)
       = (is_rooted (ReportDirectory cfg), path_comps (ReportDirectory cfg) @ [e, f])"
  using filepath_Join_comps [of "ReportDirectory cfg" "[e, f]"] assms
  by (simp add: fpath_of_def ReportFileName_def)

text \<open>\<open>Clean\<close> after \<open>Join\<close> changes nothing.\<close>

lemma Clean_ReportFileName: "filepath_Clean (ReportFileName cfg e f) = ReportFileName cfg e f
    \<or> ReportFileName cfg e f = []"
proof (cases "dropWhile (\<lambda>x. x = []) [ReportDirectory cfg, e, f] = []")
  case True
  then show ?thesis by (simp only: ReportFileName_def filepath_Join_def Let_def) simp
next
  case False
  then obtain p where "ReportFileName cfg e f = filepath_Clean p"
    by (simp only: ReportFileName_def filepath_Join_def Let_def) auto
  then show ?thesis
    by (simp add: filepath_Clean_def render_path_roundtrip)
qed

section \<open>The owner search\<close>

text \<open>The references \<open>findOwner\<close> follows: one step, from an object that \<open>Get\<close> finds.\<close>

definition next_owner :: "reader \<Rightarrow> string \<Rightarrow> string \<times> string \<times> string \<Rightarrow> (string \<times> string \<times> string) option" where
  "next_owner cl ns k =
     (case k of (a, kd, n) \<Rightarrow>
        case rd_object cl a kd ns n of
          Inl _ \<Rightarrow> None
        | Inr obj \<Rightarrow> (case ob_OwnerReferences obj of [] \<Rightarrow> None
            | r # _ \<Rightarrow> Some (or_APIVersion r, or_Kind r, or_Name r)))"

lemma findOwner_next:
  "next_owner cl ns (a, k, n) = Some (a', k', n') \<Longrightarrow>
   findOwner cl a k ns n = findOwner cl a' k' ns n'"
  by (auto simp: findOwner.simps [of cl a] next_owner_def split: sum.splits list.splits)

lemma findOwner_stop:
  "next_owner cl ns (a, k, n) = None \<Longrightarrow>
   findOwner cl a k ns n = Some (n, case rd_object cl a k ns n of Inl _ \<Rightarrow> None | Inr obj \<Rightarrow> Some obj)"
  by (auto simp: findOwner.simps [of cl a] next_owner_def split: sum.splits list.splits)

lemma findOwner_returns:
  assumes "\<And>k k'. next_owner cl ns k = Some k' \<Longrightarrow> m k' < (m k :: nat)"
  shows "\<exists>r. findOwner cl a kd ns n = Some r"
proof (induction "m (a, kd, n)" arbitrary: a kd n rule: less_induct)
  case less
  show ?case
  proof (cases "next_owner cl ns (a, kd, n)")
    case None
    then show ?thesis using findOwner_stop by blast
  next
    case (Some k')
    obtain a' kd' n' where k': "k' = (a', kd', n')" by (cases k')
    with Some assms have "m (a', kd', n') < m (a, kd, n)" by blast
    with less k' Some findOwner_next show ?thesis by metis
  qed
qed

text \<open>A set of objects whose first owners stay in the set is never left.\<close>

lemma findOwner_cycle:
  assumes "\<And>k. k \<in> S \<Longrightarrow> \<exists>k' \<in> S. next_owner cl ns k = Some k'"
  shows "(a, kd, n) \<in> S \<Longrightarrow> findOwner cl a kd ns n = None"
proof (rule ccontr)
  assume S: "(a, kd, n) \<in> S" and "findOwner cl a kd ns n \<noteq> None"
  then obtain r where ret: "findOwner cl a kd ns n = Some r" by blast
  have "cl' = cl \<longrightarrow> ns' = ns \<longrightarrow> (a', kd', n') \<notin> S"
    if "findOwner cl' a' kd' ns' n' = Some r'" for cl' a' kd' ns' n' r'
  proof (rule findOwner.raw_induct [where P = "\<lambda>cl' a' kd' ns' n' r'.
      cl' = cl \<longrightarrow> ns' = ns \<longrightarrow> (a', kd', n') \<notin> S", OF _ that])
    fix f cl' a' kd' ns' n' r'
    assume IH: "\<And>cl' a' kd' ns' n' r'. f cl' a' kd' ns' n' = Some r' \<Longrightarrow>
        cl' = cl \<longrightarrow> ns' = ns \<longrightarrow> (a', kd', n') \<notin> S"
      and eq: "(case rd_object cl' a' kd' ns' n' of Inl x \<Rightarrow> Some (n', None)
        | Inr obj \<Rightarrow> (case ob_OwnerReferences obj of [] \<Rightarrow> Some (n', Some obj)
          | r # x \<Rightarrow> f cl' (or_APIVersion r) (or_Kind r) ns' (or_Name r))) = Some r'"
    show "cl' = cl \<longrightarrow> ns' = ns \<longrightarrow> (a', kd', n') \<notin> S"
    proof (intro impI notI)
      assume c: "cl' = cl" "ns' = ns" and "(a', kd', n') \<in> S"
      then obtain k' where "k' \<in> S" and "next_owner cl ns (a', kd', n') = Some k'"
        using assms by blast
      with eq c obtain x :: owner_ref where "f cl (or_APIVersion x) (or_Kind x) ns (or_Name x) = Some r'"
        and "(or_APIVersion x, or_Kind x, or_Name x) \<in> S"
        by (auto simp: next_owner_def split: sum.splits list.splits)
      with IH show False by blast
    qed
  qed
  with ret S show False by blast
qed

text \<open>What is found is an object without owner references, as the reader returned it.\<close>

lemma findOwner_root:
  assumes "findOwner cl a kd ns n = Some (nm, Some obj)"
  shows "ob_OwnerReferences obj = [] \<and> (\<exists>a' kd'. rd_object cl a' kd' ns nm = Inr obj)"
proof -
  have "\<forall>nm obj. r = (nm, Some obj) \<longrightarrow>
      ob_OwnerReferences obj = [] \<and> (\<exists>a' kd'. rd_object cl a' kd' ns nm = Inr obj)"
    if "findOwner cl a kd ns n = Some r" for cl a kd ns n r
  proof (rule findOwner.raw_induct [where P = "\<lambda>cl a kd ns n r. \<forall>nm obj. r = (nm, Some obj) \<longrightarrow>
      ob_OwnerReferences obj = [] \<and> (\<exists>a' kd'. rd_object cl a' kd' ns nm = Inr obj)", OF _ that])
    fix f cl a kd ns n r
    assume "\<And>cl a kd ns n r. f cl a kd ns n = Some r \<Longrightarrow> \<forall>nm obj. r = (nm, Some obj) \<longrightarrow>
        ob_OwnerReferences obj = [] \<and> (\<exists>a' kd'. rd_object cl a' kd' ns nm = Inr obj)"
      and "(case rd_object cl a kd ns n of Inl x \<Rightarrow> Some (n, None)
        | Inr obj \<Rightarrow> (case ob_OwnerReferences obj of [] \<Rightarrow> Some (n, Some obj)
          | r # x \<Rightarrow> f cl (or_APIVersion r) (or_Kind r) ns (or_Name r))) = Some r"
    then show "\<forall>nm obj. r = (nm, Some obj) \<longrightarrow>
        ob_OwnerReferences obj = [] \<and> (\<exists>a' kd'. rd_object cl a' kd' ns nm = Inr obj)"
      by (auto split: sum.splits list.splits)
  qed
  with assms show ?thesis by blast
qed

end
