(* ===== verification/GoFloat.thy ===== *)
theory GoFloat
  imports GoStd "HOL-Library.Log_Nat"
begin

text \<open>
  Go's \<open>float64\<close>: IEEE 754 binary64 with round to nearest even, on rational values. A
  finite value carries the rational it stands for; the two zeros are not told apart.
  The code divides, multiplies, converts integers and prints with the verb \<open>%.f\<close>;
  these are defined here, with the relative-error bound that their users need.
\<close>

datatype float64 = Fin rat | PosInf | NegInf | NaN

definition pow2 :: "int \<Rightarrow> rat" where
  "pow2 d = (if 0 \<le> d then 2 ^ nat d else 1 / 2 ^ nat (- d))"

text \<open>\<open>ilog2 a\<close>: the exponent of a positive rational, \<open>pow2 e \<le> a < pow2 (e + 1)\<close>.\<close>

definition ilog2 :: "rat \<Rightarrow> int" where
  "ilog2 a = (let (p, q) = quotient_of a; d = bitlen p - bitlen q
              in if pow2 d \<le> a then d else d - 1)"

definition round_half_even :: "rat \<Rightarrow> int" where
  "round_half_even x =
     (let f = \<lfloor>x\<rfloor>; d = x - of_int f
      in if d < 1 / 2 then f else if 1 / 2 < d then f + 1 else if even f then f else f + 1)"

text \<open>The unit in the last place: 53 significant bits, no finer than the least subnormal.\<close>

definition ulp :: "rat \<Rightarrow> rat" where
  "ulp x = pow2 (max (ilog2 \<bar>x\<bar> - 52) (-1074))"

definition rnd64 :: "rat \<Rightarrow> rat" where
  "rnd64 x = (if x = 0 then 0 else of_int (round_half_even (x / ulp x)) * ulp x)"

definition f_round :: "rat \<Rightarrow> float64" where
  "f_round x = (let y = rnd64 x in
     if 2 ^ 1024 \<le> y then PosInf else if y \<le> - (2 ^ 1024) then NegInf else Fin y)"

definition f_of_int :: "int \<Rightarrow> float64" where
  "f_of_int i = f_round (of_int i)"

definition f_inf :: "rat \<Rightarrow> float64" where
  "f_inf s = (if 0 < s then PosInf else if s < 0 then NegInf else NaN)"

fun f_mul :: "float64 \<Rightarrow> float64 \<Rightarrow> float64" where
  "f_mul (Fin a) (Fin b) = f_round (a * b)"
| "f_mul NaN _ = NaN"
| "f_mul _ NaN = NaN"
| "f_mul PosInf (Fin b) = f_inf b"
| "f_mul NegInf (Fin b) = f_inf (- b)"
| "f_mul (Fin a) PosInf = f_inf a"
| "f_mul (Fin a) NegInf = f_inf (- a)"
| "f_mul PosInf PosInf = PosInf"
| "f_mul NegInf NegInf = PosInf"
| "f_mul PosInf NegInf = NegInf"
| "f_mul NegInf PosInf = NegInf"

fun f_div :: "float64 \<Rightarrow> float64 \<Rightarrow> float64" where
  "f_div (Fin a) (Fin b) = (if b = 0 then f_inf a else f_round (a / b))"
| "f_div NaN _ = NaN"
| "f_div _ NaN = NaN"
| "f_div (Fin a) _ = Fin 0"
| "f_div PosInf (Fin b) = (if b < 0 then NegInf else PosInf)"
| "f_div NegInf (Fin b) = (if b < 0 then PosInf else NegInf)"
| "f_div _ _ = NaN"

text \<open>\<open>fmt.Sprintf("%.f", x)\<close>: the nearest integer, ties to even, or the special name.\<close>

fun fmt_f0 :: "float64 \<Rightarrow> string" where
  "fmt_f0 (Fin x) = (if x < 0 then ''-'' else []) @ nat_str (nat \<bar>round_half_even x\<bar>)"
| "fmt_f0 PosInf = ''+Inf''"
| "fmt_f0 NegInf = ''-Inf''"
| "fmt_f0 NaN = ''NaN''"

text \<open>\<open>strconv.ParseFloat(s, 64)\<close> on a string of decimal digits; anything else is an error,
  for which the code sees the value 0.\<close>

definition strconv_ParseFloat :: "string \<Rightarrow> float64 option" where
  "strconv_ParseFloat s =
     (if s \<noteq> [] \<and> list_all is_digit s then Some (f_of_int (int (str_nat s))) else None)"

section \<open>Rounding error\<close>

lemma pow2_pos [simp]: "0 < pow2 d"
  by (simp add: pow2_def)

lemma pow2_Suc: "pow2 (d + 1) = 2 * pow2 d"
proof (cases "0 \<le> d")
  case True
  then show ?thesis by (simp add: pow2_def nat_add_distrib)
next
  case False
  then obtain n where d: "d = - int (Suc n)"
    by (metis int_cases not_less of_nat_0_le_iff)
  then have "nat (- d) = Suc n" and "nat (- (d + 1)) = n" by simp_all
  then show ?thesis using d by (cases n) (simp_all add: pow2_def)
qed

lemma pow2_add_nat: "pow2 (d + int n) = 2 ^ n * pow2 d"
proof (induction n)
  case 0
  then show ?case by simp
next
  case (Suc n)
  have "pow2 (d + int (Suc n)) = pow2 ((d + int n) + 1)" by (simp add: algebra_simps)
  with Suc show ?case by (simp only: pow2_Suc) simp
qed

lemma pow2_diff_bitlen:
  assumes "0 < p" and "0 < q"
  shows "pow2 (bitlen p - bitlen q - 1) < of_int p / of_int q"
    and "of_int p / of_int q < pow2 (bitlen p - bitlen q + 1)"
proof -
  obtain m where m: "bitlen p = int (Suc m)"
    using bitlen_bounds [OF assms(1)] assms(1) bitlen_nonneg [of p]
    by (metis bitlen_eq_zero_iff int_ops(1) linorder_not_le nat_0_le not0_implies_Suc order_refl)
  obtain n where n: "bitlen q = int (Suc n)"
    using bitlen_bounds [OF assms(2)] assms(2) bitlen_nonneg [of q]
    by (metis bitlen_eq_zero_iff int_ops(1) linorder_not_le nat_0_le not0_implies_Suc order_refl)
  have p: "2 ^ m \<le> p" "p < 2 ^ Suc m" and q: "2 ^ n \<le> q" "q < 2 ^ Suc n"
    using bitlen_bounds [OF assms(1)] bitlen_bounds [OF assms(2)] m n
    by (simp_all only: nat_int diff_Suc_1 of_nat_Suc) (simp_all add: nat_add_distrib)
  have pr: "(2 :: rat) ^ m \<le> of_int p" "of_int p < (2 :: rat) ^ Suc m"
    using p by (metis of_int_le_iff of_int_numeral of_int_power, metis of_int_less_iff of_int_numeral of_int_power)
  have qr: "(2 :: rat) ^ n \<le> of_int q" "of_int q < (2 :: rat) ^ Suc n"
    using q by (metis of_int_le_iff of_int_numeral of_int_power, metis of_int_less_iff of_int_numeral of_int_power)
  have q0: "(0 :: rat) < of_int q" using assms(2) by simp
  have e: "2 ^ Suc n * pow2 (int m - int n - 1) = 2 ^ m" "2 ^ n * pow2 (int m - int n + 1) = 2 ^ Suc m"
    using pow2_add_nat [of "int m - int n - 1" "Suc n"] pow2_add_nat [of "int m - int n + 1" n]
    by (simp_all add: pow2_def nat_add_distrib)
  have "of_int q * pow2 (int m - int n - 1) < 2 ^ Suc n * pow2 (int m - int n - 1)"
    using qr(2) by (intro mult_strict_right_mono) simp_all
  also have "\<dots> \<le> of_int p" unfolding e(1) by (rule pr(1))
  finally have "pow2 (int m - int n - 1) < of_int p / of_int q"
    by (simp only: pos_less_divide_eq [OF q0] mult.commute)
  then show "pow2 (bitlen p - bitlen q - 1) < of_int p / of_int q"
    using m n by simp
  have "of_int p < 2 ^ n * pow2 (int m - int n + 1)"
    unfolding e(2) by (rule pr(2))
  also have "\<dots> \<le> of_int q * pow2 (int m - int n + 1)"
    by (rule mult_right_mono [OF qr(1)]) (simp add: less_imp_le)
  finally have "of_int p / of_int q < pow2 (int m - int n + 1)"
    by (simp only: pos_divide_less_eq [OF q0] mult.commute)
  then show "of_int p / of_int q < pow2 (bitlen p - bitlen q + 1)"
    using m n by simp
qed

lemma pow2_ilog2:
  assumes "0 < a"
  shows "pow2 (ilog2 a) \<le> a" and "a < pow2 (ilog2 a + 1)"
proof -
  obtain p q where pq: "quotient_of a = (p, q)" by (cases "quotient_of a") auto
  have q: "0 < q" using pq by (rule quotient_of_denom_pos)
  have a: "a = of_int p / of_int q" using pq by (rule quotient_of_div)
  with assms q have p: "0 < p"
    by (metis of_int_0_less_iff zero_less_divide_iff order_less_asym)
  note b = pow2_diff_bitlen [OF p q]
  show "pow2 (ilog2 a) \<le> a"
    using b by (auto simp: ilog2_def pq Let_def simp flip: a)
  show "a < pow2 (ilog2 a + 1)"
    using b by (auto simp: ilog2_def pq Let_def simp flip: a)
qed

lemma round_half_even_bound: "\<bar>of_int (round_half_even x) - x\<bar> \<le> 1 / 2"
proof -
  have f: "of_int \<lfloor>x\<rfloor> \<le> x" "x < of_int \<lfloor>x\<rfloor> + 1" by linarith+
  show ?thesis using f unfolding round_half_even_def Let_def by (auto simp: abs_le_iff)
qed

lemma pow2_mono: "d \<le> e \<Longrightarrow> pow2 d \<le> pow2 e"
proof -
  assume "d \<le> e"
  then obtain n where "e = d + int n" by (metis zle_iff_zadd)
  then show ?thesis using pow2_add_nat [of d n] by simp
qed

lemma ulp_normal:
  assumes "pow2 (-1022) \<le> \<bar>x\<bar>"
  shows "ulp x * 2 ^ 52 \<le> \<bar>x\<bar>" and "0 < ulp x"
proof -
  have x: "0 < \<bar>x\<bar>" using assms pow2_pos [of "-1022"] by linarith
  have "pow2 (-1022) < pow2 (ilog2 \<bar>x\<bar> + 1)"
    using assms pow2_ilog2(2) [OF x] by linarith
  then have "-1022 < ilog2 \<bar>x\<bar> + 1"
    using pow2_mono [of "ilog2 \<bar>x\<bar> + 1" "-1022"] by linarith
  then have "-1074 \<le> ilog2 \<bar>x\<bar> - 52" by linarith
  then have u: "ulp x = pow2 (ilog2 \<bar>x\<bar> - 52)"
    by (simp only: ulp_def max_absorb1)
  then have "ulp x * 2 ^ 52 = pow2 (ilog2 \<bar>x\<bar>)"
    using pow2_add_nat [of "ilog2 \<bar>x\<bar> - 52" 52] by simp
  then show "ulp x * 2 ^ 52 \<le> \<bar>x\<bar>" using pow2_ilog2(1) [OF x] by simp
  show "0 < ulp x" using u by simp
qed

lemma rnd64_error:
  assumes "pow2 (-1022) \<le> \<bar>x\<bar>"
  shows "\<bar>rnd64 x - x\<bar> \<le> \<bar>x\<bar> / 2 ^ 53"
proof -
  note u = ulp_normal [OF assms]
  have "0 < \<bar>x\<bar>" using assms pow2_pos [of "-1022"] by linarith
  then have "x \<noteq> 0" by simp
  then have "rnd64 x - x = (of_int (round_half_even (x / ulp x)) - x / ulp x) * ulp x"
    using u(2) by (simp add: rnd64_def left_diff_distrib)
  then have "\<bar>rnd64 x - x\<bar> \<le> 1 / 2 * ulp x"
    using mult_right_mono [OF round_half_even_bound [of "x / ulp x"], of "ulp x"] u(2)
    by (simp add: abs_mult)
  also have "\<dots> \<le> \<bar>x\<bar> / 2 ^ 53" using u(1) by simp
  finally show ?thesis .
qed

text \<open>The form the users apply: within one part in ten thousand, for values well inside the range.\<close>

definition mid_range :: "rat \<Rightarrow> bool" where
  "mid_range x \<longleftrightarrow> 1 / 2 ^ 100 \<le> x \<and> x \<le> 2 ^ 100"

lemma f_round_mid:
  assumes "mid_range x"
  obtains y where "f_round x = Fin y" and "x * (9999 / 10000) \<le> y" and "y \<le> x * (10001 / 10000)"
proof -
  have x: "1 / 2 ^ 100 \<le> x" "x \<le> 2 ^ 100" using assms by (simp_all add: mid_range_def)
  have x0: "0 < x" using x(1) by (rule less_le_trans [rotated]) simp
  have "pow2 (-1022) \<le> 1 / 2 ^ 100" by (simp add: pow2_def)
  then have "\<bar>rnd64 x - x\<bar> \<le> \<bar>x\<bar> / 2 ^ 53" using x x0 by (intro rnd64_error) simp
  moreover have "\<bar>x\<bar> / 2 ^ 53 \<le> x / 10000" using x0 by (simp add: field_simps)
  ultimately have e: "\<bar>rnd64 x - x\<bar> \<le> x / 10000" by linarith
  then have b: "x * (9999 / 10000) \<le> rnd64 x" "rnd64 x \<le> x * (10001 / 10000)" by linarith+
  have "rnd64 x < 2 ^ 1024"
  proof -
    have "rnd64 x \<le> 2 ^ 100 * (10001 / 10000)" using b(2) x(2) by linarith
    also have "\<dots> < 2 ^ 1024" by simp
    finally show ?thesis .
  qed
  moreover have "\<not> rnd64 x \<le> - (2 ^ 1024)"
  proof -
    have "0 \<le> x * (9999 / 10000)" using x0 by simp
    moreover have "- (2 ^ 1024 :: rat) < 0" by simp
    ultimately show ?thesis using b(1) by linarith
  qed
  ultimately have "f_round x = Fin (rnd64 x)" by (simp add: f_round_def Let_def)
  then show thesis using b that by blast
qed

lemma round_half_even_near:
  assumes "\<bar>x - of_int n\<bar> < 1 / 2"
  shows "round_half_even x = n"
proof -
  have "\<bar>of_int (round_half_even x) - x\<bar> \<le> 1 / 2" by (rule round_half_even_bound)
  with assms have "\<bar>of_int (round_half_even x) - of_int n :: rat\<bar> < 1" by linarith
  then have "\<bar>round_half_even x - n\<bar> < 1"
    by (metis of_int_abs of_int_diff of_int_less_1_iff)
  then show ?thesis by simp
qed

end
