(* ===== verification/Metrics_Model.thy ===== *)
theory Metrics_Model
  imports Config GoFloat
begin

text \<open>
  \<open>pkg/metrics\<close>: the collector and the per-execution gauges. Prometheus' \<open>GaugeVec\<close> and
  registry are arguments; \<open>gauge_laws\<close> states the documented behaviour of a gauge vector.
  Go slices that are stored and written again later are addresses into the collector's
  heap \<open>slices\<close>: \<open>executionIDMetric.labels\<close> keeps the slice it is given, not a copy.
\<close>

section \<open>The gauge vector interface\<close>

text \<open>
  \<open>gv_new name help labels\<close> is \<open>prom.NewGaugeVec\<close>; \<open>gv_set g lvs v\<close> is
  \<open>WithLabelValues(lvs...).Set(v)\<close>, \<^term>\<open>None\<close> where it panics; \<open>gv_delete\<close> is
  \<open>DeleteLabelValues\<close>; \<open>gv_get\<close> is the series that \<open>Collect\<close> exposes and \<open>gv_desc\<close> what
  \<open>Describe\<close> sends; \<open>gv_utf8\<close> is the check of a label value.
\<close>

record 'g gauge_vec =
  gv_new :: "string \<Rightarrow> string \<Rightarrow> string list \<Rightarrow> 'g"
  gv_set :: "'g \<Rightarrow> string list \<Rightarrow> float64 \<Rightarrow> 'g option"
  gv_delete :: "'g \<Rightarrow> string list \<Rightarrow> 'g"
  gv_get :: "'g \<Rightarrow> string list \<Rightarrow> float64 option"
  gv_desc :: "'g \<Rightarrow> string \<times> string \<times> string list"
  gv_utf8 :: "string \<Rightarrow> bool"

definition gauge_laws :: "'g gauge_vec \<Rightarrow> bool" where
  "gauge_laws gv \<longleftrightarrow>
     (\<forall>n h ls. gv_desc gv (gv_new gv n h ls) = (n, h, ls) \<and> gv_get gv (gv_new gv n h ls) = (\<lambda>_. None))
   \<and> (\<forall>g lvs v. gv_set gv g lvs v \<noteq> None \<longleftrightarrow>
        length lvs = length (snd (snd (gv_desc gv g))) \<and> list_all (gv_utf8 gv) lvs)
   \<and> (\<forall>g lvs v g'. gv_set gv g lvs v = Some g' \<longrightarrow>
        gv_desc gv g' = gv_desc gv g \<and> gv_get gv g' = (gv_get gv g)(lvs \<mapsto> v))
   \<and> (\<forall>g lvs. gv_desc gv (gv_delete gv g lvs) = gv_desc gv g
        \<and> gv_get gv (gv_delete gv g lvs) = (gv_get gv g)(lvs := None))"

lemma gauge_lawsD:
  assumes "gauge_laws gv"
  shows "gv_get gv (gv_new gv n h ls) = (\<lambda>_. None)" "gv_desc gv (gv_new gv n h ls) = (n, h, ls)"
    and "gv_set gv g lvs v = Some g' \<Longrightarrow> gv_get gv g' = (gv_get gv g)(lvs \<mapsto> v)"
    and "gv_set gv g lvs v = Some g' \<Longrightarrow> gv_desc gv g' = gv_desc gv g"
    and "gv_get gv (gv_delete gv g lvs) = (gv_get gv g)(lvs := None)"
    and "gv_desc gv (gv_delete gv g lvs) = gv_desc gv g"
    and "gv_set gv g lvs v \<noteq> None \<longleftrightarrow>
      length lvs = length (snd (snd (gv_desc gv g))) \<and> list_all (gv_utf8 gv) lvs"
  using assms unfolding gauge_laws_def by blast+

text \<open>A concrete vector that satisfies the laws: a description and a finite map.\<close>

definition map_gauge_vec :: "((string \<times> string \<times> string list) \<times> (string list \<rightharpoonup> float64)) gauge_vec" where
  "map_gauge_vec =
     \<lparr>gv_new = (\<lambda>n h ls. ((n, h, ls), \<lambda>_. None)),
      gv_set = (\<lambda>g lvs v. if length lvs = length (snd (snd (fst g))) then Some (fst g, (snd g)(lvs \<mapsto> v))
                          else None),
      gv_delete = (\<lambda>g lvs. (fst g, (snd g)(lvs := None))),
      gv_get = snd, gv_desc = fst, gv_utf8 = (\<lambda>_. True)\<rparr>"

lemma gauge_laws_map_gauge_vec: "gauge_laws map_gauge_vec"
  by (auto simp: gauge_laws_def map_gauge_vec_def list_all_iff split: if_splits)

section \<open>types.go\<close>

record Result =
  Value :: float64
  res_Labels :: "(string \<times> string) list"

type_synonym Results = "(string \<times> Result list) list"

datatype results_error = EmptyResults | InvalidMetricName string

text \<open>
  \<open>isValidMetricName\<close> is \<open>model.UTF8Validation.IsValidMetricName\<close>. The first invalid name in
  range order is reported.
\<close>

fun invalid_name :: "(string \<Rightarrow> bool) \<Rightarrow> Config \<Rightarrow> Results \<Rightarrow> results_error option" where
  "invalid_name valid cfg [] = None"
| "invalid_name valid cfg ((name, _) # r) =
     (if valid (NameFor (cfg_Metrics cfg) name) then invalid_name valid cfg r
      else Some (InvalidMetricName name))"

definition Validate :: "(string \<Rightarrow> bool) \<Rightarrow> Results \<Rightarrow> Config \<Rightarrow> results_error option" where
  "Validate isValidMetricName r cfg =
     (if length r = 0 then Some EmptyResults else invalid_name isValidMetricName cfg r)"

type_synonym slice_heap = "string list list"

definition deref :: "slice_heap \<Rightarrow> nat \<Rightarrow> string list" where
  "deref h a = (if a < length h then h ! a else [])"

record 'g executionIDMetric =
  em_gauge :: 'g
  em_labels :: "string \<rightharpoonup> nat list"

record 'g customMetric =
  cm_gauge :: "'g executionIDMetric"
  cm_labels :: "string list"

definition newMetric :: "'g gauge_vec \<Rightarrow> string \<Rightarrow> string \<Rightarrow> string list \<Rightarrow> 'g executionIDMetric" where
  "newMetric gv name help labelNames =
     \<lparr>em_gauge = gv_new gv name help labelNames, em_labels = Map.empty\<rparr>"

definition cacheLabels :: "'g executionIDMetric \<Rightarrow> string \<Rightarrow> nat \<Rightarrow> 'g executionIDMetric" where
  "cacheLabels m exID a =
     m\<lparr>em_labels := (em_labels m)(exID \<mapsto> (case em_labels m exID of None \<Rightarrow> [] | Some l \<Rightarrow> l) @ [a])\<rparr>"

text \<open>\<open>withLabelValues(labels...).Set(v)\<close> for the slice at address \<open>a\<close>.\<close>

definition withLabelValues ::
  "'g gauge_vec \<Rightarrow> slice_heap \<Rightarrow> 'g executionIDMetric \<Rightarrow> nat \<Rightarrow> float64 \<Rightarrow> 'g executionIDMetric go" where
  "withLabelValues gv h m a v =
     (let labels = deref h a in
      if labels = [] then Panic ''index out of range [-1]''
      else let exID = labels ! (length labels - 1); m' = cacheLabels m exID a in
        (case gv_set gv (em_gauge m') labels v of
           None \<Rightarrow> Panic ''inconsistent label cardinality''
         | Some g \<Rightarrow> Ret (m'\<lparr>em_gauge := g\<rparr>)))"

definition prune :: "'g gauge_vec \<Rightarrow> slice_heap \<Rightarrow> 'g executionIDMetric \<Rightarrow> string \<Rightarrow> 'g executionIDMetric" where
  "prune gv h m executionID =
     (case em_labels m executionID of
        None \<Rightarrow> m
      | Some labelSets \<Rightarrow>
          m\<lparr>em_gauge := fold (\<lambda>a g. gv_delete gv g (deref h a)) labelSets (em_gauge m)\<rparr>)"

section \<open>metrics.go\<close>

definition labelNode :: string where "labelNode = ''node''"
definition labelValueLatest :: string where "labelValueLatest = ''latest''"
definition labelExecutionID :: string where "labelExecutionID = ''executionID''"
definition currentExecutionMetric :: string where "currentExecutionMetric = ''current_execution_id''"
definition procErrorMetric :: string where "procErrorMetric = ''processing''"
definition durationMetric :: string where "durationMetric = ''duration''"
definition podsMetric :: string where "podsMetric = ''pods''"
definition versionMetric :: string where "versionMetric = ''com_github_bakito_batch_job_controller''"
definition Version :: string where "Version = ''v1.0.0''"

record 'g Collector =
  gauges :: "(string \<times> 'g customMetric) list"
  executionIDGauge :: 'g
  procErrorGauge :: "'g executionIDMetric"
  durationGauge :: "'g executionIDMetric"
  podsGauge :: 'g
  versionGauge :: 'g
  col_namespace :: string
  latestMetric :: bool
  slices :: slice_heap

text \<open>What \<open>Describe\<close> and \<open>Collect\<close> send to their channel, in this order.\<close>

definition em_describe :: "'g gauge_vec \<Rightarrow> 'g executionIDMetric \<Rightarrow> string \<times> string \<times> string list" where
  "em_describe gv m = gv_desc gv (em_gauge m)"

definition em_collect :: "'g gauge_vec \<Rightarrow> 'g executionIDMetric \<Rightarrow> string list \<rightharpoonup> float64" where
  "em_collect gv m = gv_get gv (em_gauge m)"

definition Describe :: "'g gauge_vec \<Rightarrow> 'g Collector \<Rightarrow> (string \<times> string \<times> string list) list" where
  "Describe gv c = [gv_desc gv (executionIDGauge c), gv_desc gv (podsGauge c), gv_desc gv (versionGauge c),
     em_describe gv (procErrorGauge c), em_describe gv (durationGauge c)]
     @ map (\<lambda>(k, m). em_describe gv (cm_gauge m)) (gauges c)"

definition Collect :: "'g gauge_vec \<Rightarrow> 'g Collector \<Rightarrow> (string list \<rightharpoonup> float64) list" where
  "Collect gv c = [gv_get gv (executionIDGauge c), gv_get gv (podsGauge c), gv_get gv (versionGauge c),
     em_collect gv (procErrorGauge c), em_collect gv (durationGauge c)]
     @ map (\<lambda>(k, m). em_collect gv (cm_gauge m)) (gauges c)"

definition ExecutionStarted :: "'g gauge_vec \<Rightarrow> 'g Collector \<Rightarrow> float64 \<Rightarrow> 'g Collector go" where
  "ExecutionStarted gv c executionID =
     (case gv_set gv (executionIDGauge c) [] executionID of
        None \<Rightarrow> Panic ''inconsistent label cardinality''
      | Some g \<Rightarrow> Ret (c\<lparr>executionIDGauge := g\<rparr>))"

definition Prune :: "'g gauge_vec \<Rightarrow> 'g Collector \<Rightarrow> string \<Rightarrow> 'g Collector" where
  "Prune gv c executionID =
     c\<lparr>procErrorGauge := prune gv (slices c) (procErrorGauge c) executionID,
       durationGauge := prune gv (slices c) (durationGauge c) executionID,
       gauges := map (\<lambda>(k, g). (k, g\<lparr>cm_gauge := prune gv (slices c) (cm_gauge g) executionID\<rparr>)) (gauges c)\<rparr>"

fun set_gauge :: "string \<Rightarrow> 'g executionIDMetric \<Rightarrow> (string \<times> 'g customMetric) list \<Rightarrow>
    (string \<times> 'g customMetric) list" where
  "set_gauge k m [] = []"
| "set_gauge k m ((k', g) # gs) =
     (if k' = k then (k', g\<lparr>cm_gauge := m\<rparr>) # gs else (k', g) # set_gauge k m gs)"

text \<open>
  \<open>MetricFor\<close>: the label values of the gauge in its label order, a missing label giving
  \<open>""\<close>. The slice \<open>values\<close> is passed on with \<open>values...\<close>, so the metric caches the slice
  itself; with \<open>latestMetric\<close> its last element is then overwritten in place.
\<close>

definition label_values :: "string \<Rightarrow> string \<Rightarrow> Result \<Rightarrow> string list \<Rightarrow> string list" where
  "label_values executionID node result ls =
     (let m = (map_of (res_Labels result))(labelNode \<mapsto> node, labelExecutionID \<mapsto> executionID)
      in map (\<lambda>l. case m l of None \<Rightarrow> [] | Some v \<Rightarrow> v) ls)"

definition MetricFor ::
  "'g gauge_vec \<Rightarrow> 'g Collector \<Rightarrow> string \<Rightarrow> string \<Rightarrow> string \<Rightarrow> Result \<Rightarrow> 'g Collector go" where
  "MetricFor gv c executionID node name result =
     (case map_of (gauges c) name of
        None \<Rightarrow> Ret c
      | Some g \<Rightarrow>
          let values = label_values executionID node result (cm_labels g);
              a = length (slices c); h = slices c @ [values] in
          go_bind (withLabelValues gv h (cm_gauge g) a (Value result)) (\<lambda>m1.
            if latestMetric c then
              let h' = (if 0 < length values
                        then h[a := values[length values - 1 := labelValueLatest]] else h) in
              go_bind (withLabelValues gv h' m1 a (Value result)) (\<lambda>m2.
                Ret (c\<lparr>gauges := set_gauge name m2 (gauges c), slices := h'\<rparr>))
            else Ret (c\<lparr>gauges := set_gauge name m1 (gauges c), slices := h\<rparr>)))"

text \<open>
  The two metrics labelled by node and execution: each call passes a fresh slice, and with
  \<open>latestMetric\<close> a second one whose execution is \<open>latest\<close>.
\<close>

definition set_fresh ::
  "'g gauge_vec \<Rightarrow> slice_heap \<times> 'g executionIDMetric \<Rightarrow> string list \<Rightarrow> float64 \<Rightarrow>
   (slice_heap \<times> 'g executionIDMetric) go" where
  "set_fresh gv hm lvs v =
     (let h = fst hm @ [lvs]
      in go_bind (withLabelValues gv h (snd hm) (length (fst hm)) v) (\<lambda>m. Ret (h, m)))"

definition set_node_metric ::
  "'g gauge_vec \<Rightarrow> bool \<Rightarrow> slice_heap \<times> 'g executionIDMetric \<Rightarrow> string \<Rightarrow> string \<Rightarrow> float64 \<Rightarrow>
   (slice_heap \<times> 'g executionIDMetric) go" where
  "set_node_metric gv latest hm node executionID v =
     go_bind (set_fresh gv hm [node, executionID] v) (\<lambda>hm1.
       if latest then set_fresh gv hm1 [node, labelValueLatest] v else Ret hm1)"

definition ProcessingFinished ::
  "'g gauge_vec \<Rightarrow> 'g Collector \<Rightarrow> string \<Rightarrow> string \<Rightarrow> bool \<Rightarrow> 'g Collector go" where
  "ProcessingFinished gv c node executionID err =
     go_bind (set_node_metric gv (latestMetric c) (slices c, procErrorGauge c) node executionID
                (if err then Fin 1 else Fin 0))
       (\<lambda>(h, m). Ret (c\<lparr>procErrorGauge := m, slices := h\<rparr>))"

definition Duration ::
  "'g gauge_vec \<Rightarrow> 'g Collector \<Rightarrow> string \<Rightarrow> string \<Rightarrow> float64 \<Rightarrow> 'g Collector go" where
  "Duration gv c node executionID d =
     go_bind (set_node_metric gv (latestMetric c) (slices c, durationGauge c) node executionID d)
       (\<lambda>(h, m). Ret (c\<lparr>durationGauge := m, slices := h\<rparr>))"

definition Pods :: "'g gauge_vec \<Rightarrow> 'g Collector \<Rightarrow> float64 \<Rightarrow> 'g Collector" where
  "Pods gv c cnt =
     (case gv_set gv (podsGauge c) [] cnt of None \<Rightarrow> c | Some g \<Rightarrow> c\<lparr>podsGauge := g\<rparr>)"

definition enrichLabels :: "string list \<Rightarrow> string list" where
  "enrichLabels labels =
     (let out1 = (if labelNode \<in> set labels then labels else labels @ [labelNode])
      in if labelExecutionID \<in> set labels then out1 else out1 @ [labelExecutionID])"

definition reserved_metric :: "string \<Rightarrow> bool" where
  "reserved_metric name \<longleftrightarrow> name = procErrorMetric \<or> name = durationMetric \<or> name = podsMetric"

fun new_gauges :: "'g gauge_vec \<Rightarrow> Metrics \<Rightarrow> (string \<times> Metric) list \<Rightarrow>
    string + (string \<times> 'g customMetric) list" where
  "new_gauges gv ms [] = Inr []"
| "new_gauges gv ms ((name, metric) # rest) =
     (if reserved_metric name then Inl name
      else let labels = enrichLabels (Labels metric) in
        (case new_gauges gv ms rest of
           Inl e \<Rightarrow> Inl e
         | Inr gs \<Rightarrow> Inr ((name, \<lparr>cm_gauge = newMetric gv (NameFor ms name) (Help metric) labels,
                                  cm_labels = labels\<rparr>) # gs)))"

text \<open>
  \<open>NewPromCollector\<close>; \<open>register_ok\<close> tells whether the registry takes a collector with these
  descriptions (\<open>MustRegister\<close> panics where it does not).
\<close>

definition NewPromCollector ::
  "'g gauge_vec \<Rightarrow> ((string \<times> string \<times> string list) list \<Rightarrow> bool) \<Rightarrow> Config \<Rightarrow> (string + 'g Collector) go" where
  "NewPromCollector gv register_ok cfg =
     (let ms = cfg_Metrics cfg; name = (\<lambda>n. Prefix ms @ ''_'' @ n) in
      case new_gauges gv ms (Gauges ms) of
        Inl e \<Rightarrow> Ret (Inl e)
      | Inr gs \<Rightarrow>
          let c = \<lparr>gauges = gs,
              executionIDGauge = gv_new gv (name currentExecutionMetric) ''The current execution ID'' [],
              procErrorGauge = newMetric gv (name procErrorMetric)
                ''Node with processing error, 1: has error / 0: no error'' [labelNode, labelExecutionID],
              durationGauge = newMetric gv (name durationMetric)
                ''Execution Duration in milliseconds'' [labelNode, labelExecutionID],
              podsGauge = gv_new gv (name podsMetric)
                ''The number of pods started for the last execution'' [],
              versionGauge = gv_new gv versionMetric
                ''information about github.com/bakito/batch-job-controller''
                [''version'', ''name'', ''prefix'', ''poolSize'', ''reportHistory'', ''cron''],
              col_namespace = Namespace cfg, latestMetric = LatestMetricsLabel cfg, slices = []\<rparr> in
          if register_ok (Describe gv c) then
            (case gv_set gv (versionGauge c) [Version, cfg_Name cfg, Prefix ms,
                strconv_Itoa (PodPoolSize cfg), strconv_Itoa (ReportHistory cfg), CronExpression cfg]
                (Fin 1) of
               None \<Rightarrow> Panic ''inconsistent label cardinality''
             | Some g \<Rightarrow> Ret (Inr (c\<lparr>versionGauge := g\<rparr>)))
          else Panic ''duplicate metrics collector registration attempted'')"

end
