(* ===== verification/Metrics_Proofs.thy ===== *)
theory Metrics_Proofs
  imports Metrics_Model
begin

text \<open>
  What the collector promises. \<open>execution_metric\<close> is the contract of one per-execution metric:
  a set is seen by reads, and pruning an execution removes exactly its series. The two built-in
  metrics satisfy it always, the configured ones when \<open>latestMetric\<close> is off; with
  \<open>latestMetric\<close> on, the shared slice breaks it, which the last section shows.
\<close>

section \<open>The contract of a per-execution metric\<close>

locale execution_metric =
  fixes inv :: "'m \<Rightarrow> bool"
    and get :: "'m \<Rightarrow> string list \<Rightarrow> float64 option"
    and put :: "'m \<Rightarrow> string list \<Rightarrow> float64 \<Rightarrow> 'm go"
    and del :: "'m \<Rightarrow> string \<Rightarrow> 'm"
  assumes put_get: "inv m \<Longrightarrow> put m lvs v = Ret m' \<Longrightarrow> get m' = (get m)(lvs \<mapsto> v)"
    and put_inv: "inv m \<Longrightarrow> put m lvs v = Ret m' \<Longrightarrow> inv m'"
    and del_get: "inv m \<Longrightarrow> get (del m e) = (\<lambda>l. if l \<noteq> [] \<and> last l = e then None else get m l)"
    and del_inv: "inv m \<Longrightarrow> inv (del m e)"
begin

lemma put2_get:
  "inv m \<Longrightarrow> go_bind (put m l1 v1) (\<lambda>m1. put m1 l2 v2) = Ret m' \<Longrightarrow>
   get m' = (get m)(l1 \<mapsto> v1, l2 \<mapsto> v2) \<and> inv m'"
proof -
  assume i: "inv m" and "go_bind (put m l1 v1) (\<lambda>m1. put m1 l2 v2) = Ret m'"
  then obtain m1 where "put m l1 v1 = Ret m1" "put m1 l2 v2 = Ret m'" by auto
  with i put_get put_inv show ?thesis by metis
qed

lemma put_then_del:
  assumes "inv m" and "put m lvs v = Ret m'" and "lvs \<noteq> []"
  shows "get (del m' e) = (if last lvs = e then get (del m e) else (get (del m e))(lvs \<mapsto> v))"
  using assms(3) del_get [OF assms(1)] del_get [OF put_inv [OF assms(1,2)]] put_get [OF assms(1,2)]
  by (auto simp: fun_eq_iff)

lemma del_del: "inv m \<Longrightarrow> get (del (del m e) e) = get (del m e)"
  using del_get del_inv by (simp add: fun_eq_iff)

lemma del_commute: "inv m \<Longrightarrow> get (del (del m e) f) = get (del (del m f) e)"
  using del_get del_inv by (simp add: fun_eq_iff)

end

section \<open>The cache of label sets\<close>

text \<open>
  Every exposed series is cached under its last label value, and the slices cached under a
  value end in that value.
\<close>

definition cache_ok :: "'g gauge_vec \<Rightarrow> slice_heap \<Rightarrow> 'g executionIDMetric \<Rightarrow> bool" where
  "cache_ok gv h m \<longleftrightarrow>
     (\<forall>lvs v. gv_get gv (em_gauge m) lvs = Some v \<longrightarrow> lvs \<noteq> [] \<and>
        (\<exists>as a. em_labels m (last lvs) = Some as \<and> a \<in> set as \<and> deref h a = lvs))
   \<and> (\<forall>e as a. em_labels m e = Some as \<longrightarrow> a \<in> set as \<longrightarrow>
        deref h a \<noteq> [] \<and> last (deref h a) = e)"

lemma deref_append: "deref h a \<noteq> [] \<Longrightarrow> deref (h @ x) a = deref h a"
  by (auto simp: deref_def nth_append split: if_splits)

lemma deref_update_fresh: "a \<noteq> b \<Longrightarrow> deref (h[b := x]) a = deref h a"
  by (simp add: deref_def)

lemma cache_okI:
  assumes "\<And>lvs v. gv_get gv (em_gauge m) lvs = Some v \<Longrightarrow> lvs \<noteq> [] \<and>
      (\<exists>as a. em_labels m (last lvs) = Some as \<and> a \<in> set as \<and> deref h a = lvs)"
    and "\<And>e as a. em_labels m e = Some as \<Longrightarrow> a \<in> set as \<Longrightarrow> deref h a \<noteq> [] \<and> last (deref h a) = e"
  shows "cache_ok gv h m"
  using assms unfolding cache_ok_def by blast

lemma cache_ok_cached:
  "cache_ok gv h m \<Longrightarrow> gv_get gv (em_gauge m) lvs = Some v \<Longrightarrow> lvs \<noteq> [] \<and>
    (\<exists>as a. em_labels m (last lvs) = Some as \<and> a \<in> set as \<and> deref h a = lvs)"
  unfolding cache_ok_def by blast

lemma cache_ok_exact:
  "cache_ok gv h m \<Longrightarrow> em_labels m e = Some as \<Longrightarrow> a \<in> set as \<Longrightarrow>
   deref h a \<noteq> [] \<and> last (deref h a) = e"
  unfolding cache_ok_def by blast

lemma cache_ok_heap:
  assumes c: "cache_ok gv h m" and h: "\<And>a. deref h a \<noteq> [] \<Longrightarrow> deref h' a = deref h a"
  shows "cache_ok gv h' m"
proof (rule cache_okI)
  fix lvs v
  assume "gv_get gv (em_gauge m) lvs = Some v"
  from cache_ok_cached [OF c this] h show "lvs \<noteq> [] \<and>
      (\<exists>as a. em_labels m (last lvs) = Some as \<and> a \<in> set as \<and> deref h' a = lvs)"
    by fastforce
next
  fix e as a
  assume "em_labels m e = Some as" and "a \<in> set as"
  from cache_ok_exact [OF c this] h show "deref h' a \<noteq> [] \<and> last (deref h' a) = e" by simp
qed

lemma cache_ok_append: "cache_ok gv h m \<Longrightarrow> cache_ok gv (h @ x) m"
  by (erule cache_ok_heap) (rule deref_append)

lemma fold_delete_get:
  "gauge_laws gv \<Longrightarrow> gv_get gv (fold (\<lambda>a g. gv_delete gv g (deref h a)) as g) =
     (\<lambda>l. if l \<in> deref h ` set as then None else gv_get gv g l)"
  by (induction as arbitrary: g) (auto simp: gauge_lawsD fun_eq_iff)

lemma fold_delete_desc:
  "gauge_laws gv \<Longrightarrow> gv_desc gv (fold (\<lambda>a g. gv_delete gv g (deref h a)) as g) = gv_desc gv g"
  by (induction as arbitrary: g) (auto simp: gauge_lawsD)

lemma em_labels_prune [simp]: "em_labels (prune gv h m e) = em_labels m"
  by (simp add: prune_def split: option.splits)

lemma prune_desc: "gauge_laws gv \<Longrightarrow> gv_desc gv (em_gauge (prune gv h m e)) = gv_desc gv (em_gauge m)"
  by (simp add: prune_def fold_delete_desc split: option.splits)

lemma prune_get:
  assumes "gauge_laws gv" and "cache_ok gv h m"
  shows "gv_get gv (em_gauge (prune gv h m e)) =
    (\<lambda>l. if l \<noteq> [] \<and> last l = e then None else gv_get gv (em_gauge m) l)"
proof (rule ext)
  fix l
  show "gv_get gv (em_gauge (prune gv h m e)) l =
    (if l \<noteq> [] \<and> last l = e then None else gv_get gv (em_gauge m) l)"
  proof (cases "em_labels m e")
    case None
    then have "last l = e \<Longrightarrow> gv_get gv (em_gauge m) l = None"
      using cache_ok_cached [OF assms(2), of l] by (cases "gv_get gv (em_gauge m) l") auto
    with None show ?thesis by (simp add: prune_def)
  next
    case (Some as)
    have "l \<noteq> [] \<and> last l = e" if "l \<in> deref h ` set as"
      using that cache_ok_exact [OF assms(2) Some] by auto
    moreover have "l \<in> deref h ` set as" if "last l = e" "gv_get gv (em_gauge m) l = Some v" for v
      using cache_ok_cached [OF assms(2) that(2)] that(1) Some by auto
    ultimately show ?thesis
      using Some assms(1) by (cases "gv_get gv (em_gauge m) l") (auto simp: prune_def fold_delete_get)
  qed
qed

lemma cache_ok_prune:
  assumes "gauge_laws gv" and "cache_ok gv h m"
  shows "cache_ok gv h (prune gv h m e)"
proof (rule cache_okI)
  fix lvs v
  assume "gv_get gv (em_gauge (prune gv h m e)) lvs = Some v"
  then have "gv_get gv (em_gauge m) lvs = Some v"
    by (simp add: prune_get [OF assms] split: if_splits)
  from cache_ok_cached [OF assms(2) this] show "lvs \<noteq> [] \<and>
      (\<exists>as a. em_labels (prune gv h m e) (last lvs) = Some as \<and> a \<in> set as \<and> deref h a = lvs)"
    by simp
qed (use cache_ok_exact [OF assms(2)] in auto)

lemma withLabelValues_Ret:
  "withLabelValues gv h m a v = Ret m' \<longleftrightarrow> deref h a \<noteq> [] \<and>
     (\<exists>g. gv_set gv (em_gauge m) (deref h a) v = Some g \<and>
        m' = (cacheLabels m (last (deref h a)) a)\<lparr>em_gauge := g\<rparr>)"
  by (auto simp: withLabelValues_def Let_def last_conv_nth cacheLabels_def split: option.splits)

lemma cache_ok_with:
  assumes "gauge_laws gv" and "cache_ok gv h m" and "withLabelValues gv h m a v = Ret m'"
  shows "cache_ok gv h m'"
    and "gv_get gv (em_gauge m') = (gv_get gv (em_gauge m))(deref h a \<mapsto> v)"
    and "gv_desc gv (em_gauge m') = gv_desc gv (em_gauge m)"
proof -
  obtain g where ne: "deref h a \<noteq> []" and g: "gv_set gv (em_gauge m) (deref h a) v = Some g"
    and m': "m' = (cacheLabels m (last (deref h a)) a)\<lparr>em_gauge := g\<rparr>"
    using assms(3) by (auto simp: withLabelValues_Ret)
  note laws = gauge_lawsD [OF assms(1)]
  show get: "gv_get gv (em_gauge m') = (gv_get gv (em_gauge m))(deref h a \<mapsto> v)"
    using laws(3) [OF g] by (simp add: m')
  show "gv_desc gv (em_gauge m') = gv_desc gv (em_gauge m)"
    using laws(4) [OF g] by (simp add: m')
  have lab: "em_labels m' = (em_labels m)(last (deref h a) \<mapsto>
      (case em_labels m (last (deref h a)) of None \<Rightarrow> [] | Some l \<Rightarrow> l) @ [a])"
    by (simp add: m' cacheLabels_def)
  show "cache_ok gv h m'"
  proof (rule cache_okI)
    fix lvs w
    assume w: "gv_get gv (em_gauge m') lvs = Some w"
    show "lvs \<noteq> []  \<and>
        (\<exists>as b. em_labels m' (last lvs) = Some as \<and> b \<in> set as \<and> deref h b = lvs)"
    proof (cases "lvs = deref h a")
      case True
      then show ?thesis
        using ne by (intro conjI exI [of _ "(case em_labels m (last (deref h a)) of None \<Rightarrow> [] | Some l \<Rightarrow> l) @ [a]"]
          exI [of _ a]) (auto simp: lab)
    next
      case False
      with w have "gv_get gv (em_gauge m) lvs = Some w" by (simp add: get)
      from cache_ok_cached [OF assms(2) this]
      obtain as b where "lvs \<noteq> []" "em_labels m (last lvs) = Some as" "b \<in> set as" "deref h b = lvs"
        by blast
      then show ?thesis by (cases "last lvs = last (deref h a)") (auto simp: lab)
    qed
  next
    fix e as b
    assume "em_labels m' e = Some as" and "b \<in> set as"
    then have "b = a \<and> e = last (deref h a) \<or> (\<exists>as'. em_labels m e = Some as' \<and> b \<in> set as')"
      by (auto simp: lab split: if_splits option.splits)
    then show "deref h b \<noteq> [] \<and> last (deref h b) = e"
      using cache_ok_exact [OF assms(2)] ne by blast
  qed
qed

lemma deref_fresh [simp]: "deref (h @ [x]) (length h) = x"
  by (simp add: deref_def)

lemma set_fresh_ok:
  assumes "gauge_laws gv" and "cache_ok gv (fst hm) (snd hm)" and "set_fresh gv hm lvs v = Ret hm'"
  shows "cache_ok gv (fst hm') (snd hm')"
    and "gv_get gv (em_gauge (snd hm')) = (gv_get gv (em_gauge (snd hm)))(lvs \<mapsto> v)"
    and "fst hm' = fst hm @ [lvs]"
    and "gv_desc gv (em_gauge (snd hm')) = gv_desc gv (em_gauge (snd hm))"
proof -
  from assms(3) have h: "fst hm' = fst hm @ [lvs]"
    and w: "withLabelValues gv (fst hm @ [lvs]) (snd hm) (length (fst hm)) v = Ret (snd hm')"
    by (auto simp: set_fresh_def Let_def)
  note c = cache_ok_with [OF assms(1) cache_ok_append [OF assms(2)] w]
  show "fst hm' = fst hm @ [lvs]" by (rule h)
  show "cache_ok gv (fst hm') (snd hm')" using c(1) by (simp add: h)
  show "gv_get gv (em_gauge (snd hm')) = (gv_get gv (em_gauge (snd hm)))(lvs \<mapsto> v)"
    using c(2) by simp
  show "gv_desc gv (em_gauge (snd hm')) = gv_desc gv (em_gauge (snd hm))" by (rule c(3))
qed

text \<open>The built-in metrics satisfy the contract: fresh slices are never written again.\<close>

interpretation nm: execution_metric
  "\<lambda>hm. gauge_laws gv \<and> cache_ok gv (fst hm) (snd hm)"
  "\<lambda>hm. gv_get gv (em_gauge (snd hm))"
  "set_fresh gv"
  "\<lambda>hm e. (fst hm, prune gv (fst hm) (snd hm) e)"
proof unfold_locales
  fix hm lvs v hm'
  assume i: "gauge_laws gv \<and> cache_ok gv (fst hm) (snd hm)" and s: "set_fresh gv hm lvs v = Ret hm'"
  show "gv_get gv (em_gauge (snd hm')) = (gv_get gv (em_gauge (snd hm)))(lvs \<mapsto> v)"
    using set_fresh_ok(2) [of gv hm lvs v hm'] i s by blast
  show "gauge_laws gv \<and> cache_ok gv (fst hm') (snd hm')"
    using set_fresh_ok(1) [of gv hm lvs v hm'] i s by blast
next
  fix hm :: "slice_heap \<times> 'a executionIDMetric" and e
  assume "gauge_laws gv \<and> cache_ok gv (fst hm) (snd hm)"
  then show "gv_get gv (em_gauge (snd (fst hm, prune gv (fst hm) (snd hm) e))) =
      (\<lambda>l. if l \<noteq> [] \<and> last l = e then None else gv_get gv (em_gauge (snd hm)) l)"
    and "gauge_laws gv \<and> cache_ok gv (fst (fst hm, prune gv (fst hm) (snd hm) e))
        (snd (fst hm, prune gv (fst hm) (snd hm) e))"
    by (simp_all add: prune_get cache_ok_prune)
qed

section \<open>The collector as a table of series\<close>

datatype metric_id = MProc | MDur | MCustom string

fun metric_of :: "'g Collector \<Rightarrow> metric_id \<Rightarrow> 'g executionIDMetric option" where
  "metric_of c MProc = Some (procErrorGauge c)"
| "metric_of c MDur = Some (durationGauge c)"
| "metric_of c (MCustom n) = map_option cm_gauge (map_of (gauges c) n)"

text \<open>\<open>series gv c k lvs\<close>: the value exposed for metric \<open>k\<close> with label values \<open>lvs\<close>.\<close>

definition series :: "'g gauge_vec \<Rightarrow> 'g Collector \<Rightarrow> metric_id \<Rightarrow> string list \<Rightarrow> float64 option" where
  "series gv c k lvs = (case metric_of c k of None \<Rightarrow> None | Some m \<Rightarrow> gv_get gv (em_gauge m) lvs)"

definition col_ok :: "'g gauge_vec \<Rightarrow> 'g Collector \<Rightarrow> bool" where
  "col_ok gv c \<longleftrightarrow> gauge_laws gv
     \<and> (\<forall>k m. metric_of c k = Some m \<longrightarrow> k \<in> {MProc, MDur} \<or> \<not> latestMetric c \<longrightarrow>
          cache_ok gv (slices c) m)"

text \<open>The operations that the rest of the program performs on the collector.\<close>

datatype col_op =
    OpMetricFor string string string Result
  | OpProcessingFinished string string bool
  | OpDuration string string float64
  | OpPods float64
  | OpExecutionStarted float64
  | OpPrune string

fun col_step :: "'g gauge_vec \<Rightarrow> 'g Collector \<Rightarrow> col_op \<Rightarrow> 'g Collector go" where
  "col_step gv c (OpMetricFor e n k r) = MetricFor gv c e n k r"
| "col_step gv c (OpProcessingFinished n e b) = ProcessingFinished gv c n e b"
| "col_step gv c (OpDuration n e d) = Duration gv c n e d"
| "col_step gv c (OpPods x) = Ret (Pods gv c x)"
| "col_step gv c (OpExecutionStarted x) = ExecutionStarted gv c x"
| "col_step gv c (OpPrune e) = Ret (Prune gv c e)"

fun col_run :: "'g gauge_vec \<Rightarrow> 'g Collector \<Rightarrow> col_op list \<Rightarrow> 'g Collector go" where
  "col_run gv c [] = Ret c"
| "col_run gv c (x # xs) = go_bind (col_step gv c x) (\<lambda>c'. col_run gv c' xs)"

lemma map_of_set_gauge:
  "map_of (set_gauge k m gs) n =
     (if n = k then map_option (\<lambda>g. g\<lparr>cm_gauge := m\<rparr>) (map_of gs n) else map_of gs n)"
  by (induction k m gs rule: set_gauge.induct) auto

lemma map_of_map_prod:
  "map_of (map (\<lambda>(k, g). (k, f g)) gs) n = map_option f (map_of gs n)"
  by (induction gs) auto

lemma metric_of_Prune:
  "metric_of (Prune gv c e) k = map_option (\<lambda>m. prune gv (slices c) m e) (metric_of c k)"
  by (cases k) (simp_all add: Prune_def map_of_map_prod option.map_comp comp_def)

lemma slices_Prune [simp]: "slices (Prune gv c e) = slices c" "latestMetric (Prune gv c e) = latestMetric c"
  by (simp_all add: Prune_def)

lemma col_okI:
  assumes "gauge_laws gv"
    and "\<And>k m. metric_of c k = Some m \<Longrightarrow> k \<in> {MProc, MDur} \<or> \<not> latestMetric c \<Longrightarrow> cache_ok gv (slices c) m"
  shows "col_ok gv c"
  using assms unfolding col_ok_def by blast

lemma col_okD:
  assumes "col_ok gv c"
  shows "gauge_laws gv"
    and "metric_of c k = Some m \<Longrightarrow> k \<in> {MProc, MDur} \<or> \<not> latestMetric c \<Longrightarrow> cache_ok gv (slices c) m"
  using assms unfolding col_ok_def by blast+

lemma col_ok_Prune: "col_ok gv c \<Longrightarrow> col_ok gv (Prune gv c e)"
  by (rule col_okI) (auto simp: metric_of_Prune col_okD(1) intro!: cache_ok_prune col_okD(2))

lemma series_Prune:
  assumes "col_ok gv c" and "k \<in> {MProc, MDur} \<or> \<not> latestMetric c"
  shows "series gv (Prune gv c e) k lvs = (if lvs \<noteq> [] \<and> last lvs = e then None else series gv c k lvs)"
proof (cases "metric_of c k")
  case None
  then show ?thesis by (simp add: series_def metric_of_Prune)
next
  case (Some m)
  then show ?thesis
    using nm.del_get [of gv "(slices c, m)" e] col_okD(1) [OF assms(1)] col_okD(2) [OF assms(1) Some assms(2)]
    by (simp add: series_def metric_of_Prune)
qed

text \<open>Recording for one metric leaves the others' caches and series alone.\<close>

definition set_metric :: "metric_id \<Rightarrow> 'g executionIDMetric \<Rightarrow> slice_heap \<Rightarrow> 'g Collector \<Rightarrow> 'g Collector" where
  "set_metric k m h c =
     (case k of MProc \<Rightarrow> c\<lparr>procErrorGauge := m, slices := h\<rparr>
      | MDur \<Rightarrow> c\<lparr>durationGauge := m, slices := h\<rparr>
      | MCustom n \<Rightarrow> c\<lparr>gauges := set_gauge n m (gauges c), slices := h\<rparr>)"

lemma metric_of_set_metric:
  "metric_of c k \<noteq> None \<Longrightarrow> metric_of (set_metric k m h c) j = (if j = k then Some m else metric_of c j)"
  by (cases k; cases j) (auto simp: set_metric_def map_of_set_gauge)

lemma set_metric_frame [simp]:
  "slices (set_metric k m h c) = h" "latestMetric (set_metric k m h c) = latestMetric c"
  "executionIDGauge (set_metric k m h c) = executionIDGauge c"
  by (cases k; simp add: set_metric_def)+

lemma col_ok_set_metric:
  assumes "col_ok gv c" and "metric_of c k \<noteq> None"
    and "k \<in> {MProc, MDur} \<or> \<not> latestMetric c \<Longrightarrow> cache_ok gv h m"
    and "\<And>a. deref (slices c) a \<noteq> [] \<Longrightarrow> deref h a = deref (slices c) a"
  shows "col_ok gv (set_metric k m h c)"
proof (rule col_okI)
  show "gauge_laws gv" using assms(1) by (rule col_okD(1))
next
  fix j mj
  assume m: "metric_of (set_metric k m h c) j = Some mj"
    and l: "j \<in> {MProc, MDur} \<or> \<not> latestMetric (set_metric k m h c)"
  show "cache_ok gv (slices (set_metric k m h c)) mj"
  proof (cases "j = k")
    case True
    with m l assms(2,3) show ?thesis by (auto simp: metric_of_set_metric)
  next
    case False
    with m l assms(2) have "cache_ok gv (slices c) mj"
      using col_okD(2) [OF assms(1), of j mj] by (auto simp: metric_of_set_metric)
    then show ?thesis using assms(4) cache_ok_heap by fastforce
  qed
qed

lemma set_node_metric_ok:
  assumes "gauge_laws gv" and "cache_ok gv h m"
    and "set_node_metric gv latest (h, m) n e v = Ret (h', m')"
  shows "cache_ok gv h' m'" and "\<exists>x. h' = h @ x"
    and "gv_get gv (em_gauge m') = (if latest then (gv_get gv (em_gauge m))([n, e] \<mapsto> v, [n, labelValueLatest] \<mapsto> v)
         else (gv_get gv (em_gauge m))([n, e] \<mapsto> v))"
proof -
  from assms(3) obtain hm1 where s1: "set_fresh gv (h, m) [n, e] v = Ret hm1"
    and s2: "(if latest then set_fresh gv hm1 [n, labelValueLatest] v else Ret hm1) = Ret (h', m')"
    by (auto simp: set_node_metric_def)
  have c: "gauge_laws gv \<and> cache_ok gv (fst (h, m)) (snd (h, m))" using assms(1,2) by simp
  have h1: "fst hm1 = h @ [[n, e]]" using set_fresh_ok(3) [OF _ _ s1] c by simp
  have "cache_ok gv h' m' \<and> (\<exists>x. h' = h @ x) \<and>
    gv_get gv (em_gauge m') = (if latest then (gv_get gv (em_gauge m))([n, e] \<mapsto> v, [n, labelValueLatest] \<mapsto> v)
         else (gv_get gv (em_gauge m))([n, e] \<mapsto> v))"
  proof (cases latest)
    case True
    with s1 s2 have b: "go_bind (set_fresh gv (h, m) [n, e] v) (\<lambda>hm. set_fresh gv hm [n, labelValueLatest] v) = Ret (h', m')"
      and s2': "set_fresh gv hm1 [n, labelValueLatest] v = Ret (h', m')" by simp_all
    have "h' = h @ [[n, e], [n, labelValueLatest]]"
      using set_fresh_ok(3) [OF _ _ s2'] nm.put_inv [OF c s1] h1 by simp
    with nm.put2_get [OF c b] True show ?thesis by auto
  next
    case False
    with s2 nm.put_get [OF c s1] nm.put_inv [OF c s1] h1 show ?thesis by auto
  qed
  then show "cache_ok gv h' m'" and "\<exists>x. h' = h @ x"
    and "gv_get gv (em_gauge m') = (if latest then (gv_get gv (em_gauge m))([n, e] \<mapsto> v, [n, labelValueLatest] \<mapsto> v)
         else (gv_get gv (em_gauge m))([n, e] \<mapsto> v))" by blast+
qed

lemma ProcessingFinished_Ret:
  "ProcessingFinished gv c n e err = Ret c' \<longleftrightarrow>
   (\<exists>h m. set_node_metric gv (latestMetric c) (slices c, procErrorGauge c) n e (if err then Fin 1 else Fin 0) = Ret (h, m)
     \<and> c' = set_metric MProc m h c)"
  by (auto simp: ProcessingFinished_def set_metric_def)

lemma Duration_Ret:
  "Duration gv c n e d = Ret c' \<longleftrightarrow>
   (\<exists>h m. set_node_metric gv (latestMetric c) (slices c, durationGauge c) n e d = Ret (h, m)
     \<and> c' = set_metric MDur m h c)"
  by (auto simp: Duration_def set_metric_def)

text \<open>A built-in metric: what a record changes, and that it keeps the invariant.\<close>

definition node_update ::
  "bool \<Rightarrow> string \<Rightarrow> string \<Rightarrow> float64 \<Rightarrow> (string list \<rightharpoonup> float64) \<Rightarrow> (string list \<rightharpoonup> float64)" where
  "node_update latest n e v f =
     (if latest then f([n, e] \<mapsto> v, [n, labelValueLatest] \<mapsto> v) else f([n, e] \<mapsto> v))"

lemma node_metric_step:
  assumes ok: "col_ok gv c" and k: "k \<in> {MProc, MDur}" and m: "metric_of c k = Some m"
    and s: "set_node_metric gv (latestMetric c) (slices c, m) n e v = Ret (h', m')"
  shows "col_ok gv (set_metric k m' h' c)"
    and "series gv (set_metric k m' h' c) j =
      (if j = k then node_update (latestMetric c) n e v (series gv c j) else series gv c j)"
proof -
  note f = set_node_metric_ok [OF col_okD(1) [OF ok] col_okD(2) [OF ok m disjI1 [OF k]] s]
  obtain x where h': "h' = slices c @ x" using f(2) by blast
  have ne: "metric_of c k \<noteq> None" using m by simp
  show "col_ok gv (set_metric k m' h' c)"
    by (rule col_ok_set_metric [OF ok ne f(1)]) (simp add: h' deref_append)
  have sk: "series gv c k = gv_get gv (em_gauge m)" using m by (simp add: series_def fun_eq_iff)
  show "series gv (set_metric k m' h' c) j =
      (if j = k then node_update (latestMetric c) n e v (series gv c j) else series gv c j)"
    using f(3) sk metric_of_set_metric [OF ne, of m' h' j]
    by (auto simp: series_def node_update_def fun_eq_iff)
qed

text \<open>A configured metric.\<close>

lemma MetricFor_unknown: "map_of (gauges c) k = None \<Longrightarrow> MetricFor gv c e n k r = Ret c"
  by (simp add: MetricFor_def)

lemma MetricFor_plain:
  assumes ok: "col_ok gv c" and l: "\<not> latestMetric c" and g: "map_of (gauges c) k = Some g"
    and s: "MetricFor gv c e n k r = Ret c'"
  shows "col_ok gv c'"
    and "series gv c' j = (if j = MCustom k
        then (series gv c j)(label_values e n r (cm_labels g) \<mapsto> Value r) else series gv c j)"
    and "latestMetric c' = latestMetric c"
proof -
  let ?h = "slices c @ [label_values e n r (cm_labels g)]"
  have m: "metric_of c (MCustom k) = Some (cm_gauge g)" using g by simp
  obtain m' where w: "withLabelValues gv ?h (cm_gauge g) (length (slices c)) (Value r) = Ret m'"
    and c': "c' = set_metric (MCustom k) m' ?h c"
    using s g l by (auto simp: MetricFor_def Let_def set_metric_def)
  have ck: "cache_ok gv (slices c) (cm_gauge g)" using col_okD(2) [OF ok m] l by blast
  note f = cache_ok_with [OF col_okD(1) [OF ok] cache_ok_append [OF ck] w]
  have ne: "metric_of c (MCustom k) \<noteq> None" unfolding m by simp
  show "col_ok gv c'"
    unfolding c' by (rule col_ok_set_metric [OF ok ne f(1)]) (simp add: deref_append)
  show "latestMetric c' = latestMetric c" by (simp add: c')
  show "series gv c' j = (if j = MCustom k
        then (series gv c j)(label_values e n r (cm_labels g) \<mapsto> Value r) else series gv c j)"
    using f(2) m metric_of_set_metric [OF ne, of m' ?h j]
    by (auto simp: series_def c' fun_eq_iff)
qed

lemma MetricFor_latest_frame:
  assumes ok: "col_ok gv c" and l: "latestMetric c" and s: "MetricFor gv c e n k r = Ret c'"
  shows "col_ok gv c'" and "latestMetric c'"
proof -
  have "col_ok gv c' \<and> latestMetric c'"
  proof (cases "map_of (gauges c) k")
    case None
    with s ok l show ?thesis by (simp add: MetricFor_unknown)
  next
    case (Some g)
    let ?v = "label_values e n r (cm_labels g)"
    let ?h = "(if 0 < length ?v then (slices c @ [?v])[length (slices c) := ?v[length ?v - 1 := labelValueLatest]]
               else slices c @ [?v])"
    obtain m2 where c': "c' = set_metric (MCustom k) m2 ?h c"
      using s Some l by (auto simp: MetricFor_def Let_def set_metric_def)
    have ne: "metric_of c (MCustom k) \<noteq> None" using Some by simp
    have h: "deref ?h a = deref (slices c) a" if "deref (slices c) a \<noteq> []" for a
      using that by (auto simp: deref_def nth_append split: if_splits)
    have "col_ok gv c'"
      unfolding c' by (rule col_ok_set_metric [OF ok ne _ h]) (use l in auto)
    then show ?thesis using l by (simp add: c')
  qed
  then show "col_ok gv c'" and "latestMetric c'" by blast+
qed

lemma MetricFor_ok:
  assumes "col_ok gv c" and "MetricFor gv c e n k r = Ret c'"
  shows "col_ok gv c' \<and> latestMetric c' = latestMetric c"
proof (cases "latestMetric c")
  case True
  with assms MetricFor_latest_frame show ?thesis by blast
next
  case False
  show ?thesis
  proof (cases "map_of (gauges c) k")
    case None
    with assms show ?thesis by (simp add: MetricFor_unknown)
  next
    case (Some g)
    from MetricFor_plain(1,3) [OF assms(1) False Some assms(2)] show ?thesis by blast
  qed
qed

lemma metric_of_frame:
  "metric_of (c\<lparr>podsGauge := g\<rparr>) = metric_of c" "metric_of (c\<lparr>executionIDGauge := g\<rparr>) = metric_of c"
  "metric_of (c\<lparr>versionGauge := g\<rparr>) = metric_of c"
  by (rule ext, case_tac x, auto)+

lemma col_ok_frame:
  "col_ok gv (c\<lparr>podsGauge := g\<rparr>) = col_ok gv c" "col_ok gv (c\<lparr>executionIDGauge := g\<rparr>) = col_ok gv c"
  "col_ok gv (c\<lparr>versionGauge := g\<rparr>) = col_ok gv c"
  by (simp_all add: col_ok_def metric_of_frame)

lemma col_step_ok:
  assumes "col_ok gv c" and "col_step gv c x = Ret c'"
  shows "col_ok gv c' \<and> latestMetric c' = latestMetric c"
proof (cases x)
  case (OpMetricFor e n k r)
  with assms MetricFor_ok show ?thesis by fastforce
next
  case (OpProcessingFinished n e b)
  with assms node_metric_step(1) [OF assms(1), of MProc] show ?thesis
    by (auto simp: ProcessingFinished_Ret)
next
  case (OpDuration n e d)
  with assms node_metric_step(1) [OF assms(1), of MDur] show ?thesis
    by (auto simp: Duration_Ret)
next
  case (OpPods v)
  with assms show ?thesis by (auto simp: Pods_def col_ok_frame split: option.splits)
next
  case (OpExecutionStarted v)
  with assms show ?thesis by (auto simp: ExecutionStarted_def col_ok_frame split: option.splits)
next
  case (OpPrune e)
  with assms col_ok_Prune show ?thesis by auto
qed

lemma col_run_ok:
  "col_ok gv c \<Longrightarrow> col_run gv c xs = Ret c' \<Longrightarrow> col_ok gv c' \<and> latestMetric c' = latestMetric c"
proof (induction xs arbitrary: c)
  case Nil
  then show ?case by simp
next
  case (Cons x xs)
  then obtain c1 where c1: "col_step gv c x = Ret c1" "col_run gv c1 xs = Ret c'" by auto
  from col_step_ok [OF Cons.prems(1) c1(1)] Cons.IH [OF _ c1(2)] show ?case by simp
qed

section \<open>A new collector\<close>

lemma new_gauges_keys: "new_gauges gv ms gs = Inr out \<Longrightarrow> map fst out = map fst gs"
  by (induction gs arbitrary: out) (auto simp: Let_def split: if_splits sum.splits)

lemma new_gauges_entry:
  "new_gauges gv ms gs = Inr out \<Longrightarrow> map_of out n = Some g \<Longrightarrow>
   \<exists>mt. map_of gs n = Some mt \<and> \<not> reserved_metric n \<and> cm_labels g = enrichLabels (Labels mt)
      \<and> cm_gauge g = newMetric gv (NameFor ms n) (Help mt) (enrichLabels (Labels mt))"
proof (induction gs arbitrary: out)
  case Nil
  then show ?case by simp
next
  case (Cons x gs)
  obtain k mt where x: "x = (k, mt)" by (cases x)
  from Cons.prems(1) obtain out' where k: "\<not> reserved_metric k" and o: "new_gauges gv ms gs = Inr out'"
    and out: "out = (k, \<lparr>cm_gauge = newMetric gv (NameFor ms k) (Help mt) (enrichLabels (Labels mt)),
                        cm_labels = enrichLabels (Labels mt)\<rparr>) # out'"
    by (auto simp: x Let_def split: if_splits sum.splits)
  show ?case
  proof (cases "n = k")
    case True
    with Cons.prems(2) k show ?thesis by (auto simp: out x)
  next
    case False
    with Cons.prems(2) Cons.IH [OF o] show ?thesis by (simp add: out x)
  qed
qed

lemma new_gauges_Inl:
  "new_gauges gv ms gs = Inl n \<Longrightarrow> reserved_metric n \<and> n \<in> fst ` set gs"
  by (induction gs) (auto simp: Let_def split: if_splits sum.splits)

lemma new_gauges_Inr_iff:
  "(\<exists>out. new_gauges gv ms gs = Inr out) \<longleftrightarrow> (\<forall>n \<in> fst ` set gs. \<not> reserved_metric n)"
proof (induction gs)
  case Nil
  then show ?case by simp
next
  case (Cons x gs)
  obtain n mt where x: "x = (n, mt)" by (cases x)
  have "(\<exists>out. new_gauges gv ms ((n, mt) # gs) = Inr out) \<longleftrightarrow>
      \<not> reserved_metric n \<and> (\<exists>out. new_gauges gv ms gs = Inr out)"
    by (cases "new_gauges gv ms gs") (simp_all add: Let_def)
  with Cons show ?case by (simp add: x)
qed

lemma cache_ok_newMetric: "gauge_laws gv \<Longrightarrow> cache_ok gv h (newMetric gv n hp ls)"
  by (rule cache_okI) (auto simp: newMetric_def gauge_lawsD)

text \<open>What a successful construction sets up.\<close>

lemma NewPromCollector_fields:
  assumes "NewPromCollector gv reg cfg = Ret (Inr c)"
  shows "new_gauges gv (cfg_Metrics cfg) (Gauges (cfg_Metrics cfg)) = Inr (gauges c)"
    and "procErrorGauge c = newMetric gv (Prefix (cfg_Metrics cfg) @ ''_'' @ procErrorMetric)
      ''Node with processing error, 1: has error / 0: no error'' [labelNode, labelExecutionID]"
    and "durationGauge c = newMetric gv (Prefix (cfg_Metrics cfg) @ ''_'' @ durationMetric)
      ''Execution Duration in milliseconds'' [labelNode, labelExecutionID]"
    and "executionIDGauge c = gv_new gv (Prefix (cfg_Metrics cfg) @ ''_'' @ currentExecutionMetric)
      ''The current execution ID'' []"
    and "latestMetric c = LatestMetricsLabel cfg" and "slices c = []"
  using assms
  by (auto simp: NewPromCollector_def Let_def split: sum.splits if_splits option.splits)

lemma NewPromCollector_ok:
  assumes "gauge_laws gv" and "NewPromCollector gv reg cfg = Ret (Inr c)"
  shows "col_ok gv c \<and> latestMetric c = LatestMetricsLabel cfg"
proof -
  note f = NewPromCollector_fields [OF assms(2)]
  have "col_ok gv c"
  proof (rule col_okI [OF assms(1)])
    fix k m
    assume m: "metric_of c k = Some m"
    have "\<exists>n h ls. m = newMetric gv n h ls"
    proof (cases k)
      case (MCustom n)
      with m obtain g where "map_of (gauges c) n = Some g" "m = cm_gauge g" by auto
      with new_gauges_entry [OF f(1)] show ?thesis by metis
    qed (use m f(2,3) in auto)
    then show "cache_ok gv (slices c) m"
      using cache_ok_newMetric [OF assms(1)] by blast
  qed
  then show ?thesis using f(5) by simp
qed

end
