(* ===== verification/Metrics_Properties.thy ===== *)
theory Metrics_Properties
  imports Metrics_Proofs
begin

text \<open>
  The properties of \<open>pkg/metrics\<close>: recording, pruning, labels, construction, and the absence
  of panics for a collector built by \<open>NewPromCollector\<close>.
\<close>

section \<open>Well-formed collectors never panic\<close>

text \<open>Each vector takes as many values as its metric passes.\<close>

definition vec_arity :: "'g gauge_vec \<Rightarrow> 'g \<Rightarrow> nat" where
  "vec_arity gv g = length (snd (snd (gv_desc gv g)))"

fun metric_arity :: "'g Collector \<Rightarrow> metric_id \<Rightarrow> nat" where
  "metric_arity c MProc = 2"
| "metric_arity c MDur = 2"
| "metric_arity c (MCustom n) = (case map_of (gauges c) n of None \<Rightarrow> 0 | Some g \<Rightarrow> length (cm_labels g))"

definition col_wf :: "'g gauge_vec \<Rightarrow> 'g Collector \<Rightarrow> bool" where
  "col_wf gv c \<longleftrightarrow> gauge_laws gv \<and> vec_arity gv (executionIDGauge c) = 0
     \<and> (\<forall>k m. metric_of c k = Some m \<longrightarrow>
          vec_arity gv (em_gauge m) = metric_arity c k \<and> metric_arity c k \<noteq> 0)"

fun op_utf8 :: "'g gauge_vec \<Rightarrow> col_op \<Rightarrow> bool" where
  "op_utf8 gv (OpMetricFor e n k r) = (list_all (gv_utf8 gv) [e, n] \<and> list_all (gv_utf8 gv \<circ> snd) (res_Labels r))"
| "op_utf8 gv (OpProcessingFinished n e b) = list_all (gv_utf8 gv) [e, n]"
| "op_utf8 gv (OpDuration n e d) = list_all (gv_utf8 gv) [e, n]"
| "op_utf8 gv _ = True"

lemma withLabelValues_returns:
  assumes "gauge_laws gv" and "vec_arity gv (em_gauge m) = length (deref h a)"
    and "deref h a \<noteq> []" and "list_all (gv_utf8 gv) (deref h a)"
  shows "\<exists>m'. withLabelValues gv h m a v = Ret m' \<and> vec_arity gv (em_gauge m') = vec_arity gv (em_gauge m)"
proof -
  obtain g where g: "gv_set gv (em_gauge m) (deref h a) v = Some g"
    using gauge_lawsD(7) [OF assms(1)] assms(2,4) by (fastforce simp: vec_arity_def)
  then show ?thesis
    using assms(3) gauge_lawsD(4) [OF assms(1) g]
    by (auto simp: withLabelValues_Ret vec_arity_def)
qed

lemma set_fresh_returns:
  assumes "gauge_laws gv" and "vec_arity gv (em_gauge (snd hm)) = length lvs"
    and "lvs \<noteq> []" and "list_all (gv_utf8 gv) lvs"
  shows "\<exists>hm'. set_fresh gv hm lvs v = Ret hm' \<and> vec_arity gv (em_gauge (snd hm')) = length lvs"
  using withLabelValues_returns [OF assms(1), of "snd hm" "fst hm @ [lvs]" "length (fst hm)" v] assms(2-4)
  by (auto simp: set_fresh_def Let_def)

lemma set_node_metric_returns:
  assumes g: "gauge_laws gv" and a: "vec_arity gv (em_gauge m) = 2"
    and u: "list_all (gv_utf8 gv) [n, e, labelValueLatest]"
  shows "\<exists>h' m'. set_node_metric gv latest (h, m) n e v = Ret (h', m') \<and> vec_arity gv (em_gauge m') = 2"
proof -
  obtain hm1 where s1: "set_fresh gv (h, m) [n, e] v = Ret hm1" "vec_arity gv (em_gauge (snd hm1)) = 2"
    using set_fresh_returns [OF g, of "(h, m)" "[n, e]" v] a u by auto
  show ?thesis
  proof (cases latest)
    case True
    obtain hm2 where "set_fresh gv hm1 [n, labelValueLatest] v = Ret hm2" "vec_arity gv (em_gauge (snd hm2)) = 2"
      using set_fresh_returns [OF g, of hm1 "[n, labelValueLatest]" v] s1 u by auto
    with s1 True show ?thesis by (cases hm2) (auto simp: set_node_metric_def)
  next
    case False
    with s1 show ?thesis by (cases hm1) (auto simp: set_node_metric_def)
  qed
qed

lemma metric_arity_set_metric [simp]: "metric_arity (set_metric k m h c) j = metric_arity c j"
  by (cases k; cases j) (auto simp: set_metric_def map_of_set_gauge split: option.splits)

lemma col_wf_set_metric:
  assumes "col_wf gv c" and "metric_of c k \<noteq> None" and "vec_arity gv (em_gauge m) = metric_arity c k"
  shows "col_wf gv (set_metric k m h c)"
  using assms by (auto simp: col_wf_def metric_of_set_metric)

lemma label_values_utf8:
  assumes "list_all (gv_utf8 gv) [e, n, []]" and "list_all (gv_utf8 gv \<circ> snd) (res_Labels r)"
  shows "list_all (gv_utf8 gv) (label_values e n r ls)"
  using assms by (fastforce simp: label_values_def list_all_iff Let_def split: option.splits dest: map_of_SomeD)

lemma MetricFor_returns:
  assumes wf: "col_wf gv c" and u: "list_all (gv_utf8 gv) [[], labelValueLatest, e, n]"
    and ur: "list_all (gv_utf8 gv \<circ> snd) (res_Labels r)"
  shows "\<exists>c'. MetricFor gv c e n k r = Ret c' \<and> col_wf gv c'"
proof (cases "map_of (gauges c) k")
  case None
  with wf show ?thesis by (simp add: MetricFor_unknown)
next
  case (Some g)
  let ?vs = "label_values e n r (cm_labels g)"
  let ?vs' = "?vs[length ?vs - 1 := labelValueLatest]"
  let ?h = "slices c @ [?vs]" and ?a = "length (slices c)"
  have laws: "gauge_laws gv" and ar: "vec_arity gv (em_gauge (cm_gauge g)) = length (cm_labels g)"
    and ne: "cm_labels g \<noteq> []"
    using wf Some unfolding col_wf_def by (force dest!: spec [of _ "MCustom k"])+
  have l: "length ?vs = length (cm_labels g)" by (simp add: label_values_def Let_def)
  then have vne: "?vs \<noteq> []" using ne by (metis length_0_conv)
  have u1: "list_all (gv_utf8 gv) ?vs" using label_values_utf8 [of gv e n r] u ur by simp
  then have u2: "list_all (gv_utf8 gv) ?vs'"
    using u by (auto simp: list_all_iff dest: set_update_subset_insert [THEN subsetD])
  have mk: "metric_of c (MCustom k) \<noteq> None" using Some by simp
  have mc: "metric_arity c (MCustom k) = length (cm_labels g)" using Some by simp
  obtain m1 where w1: "withLabelValues gv ?h (cm_gauge g) ?a (Value r) = Ret m1"
    and a1: "vec_arity gv (em_gauge m1) = length (cm_labels g)"
    using withLabelValues_returns [OF laws, of "cm_gauge g" ?h ?a "Value r"] u1 l vne ar by auto
  show ?thesis
  proof (cases "latestMetric c")
    case False
    have "MetricFor gv c e n k r = Ret (set_metric (MCustom k) m1 ?h c)"
      using False Some w1 by (simp add: MetricFor_def Let_def set_metric_def)
    with col_wf_set_metric [OF wf mk, of m1 ?h] a1 mc show ?thesis by auto
  next
    case True
    let ?h' = "?h[?a := ?vs']"
    have d: "deref ?h' ?a = ?vs'" by (simp add: deref_def)
    obtain m2 where w2: "withLabelValues gv ?h' m1 ?a (Value r) = Ret m2"
      and a2: "vec_arity gv (em_gauge m2) = length (cm_labels g)"
      using withLabelValues_returns [OF laws, of m1 ?h' ?a "Value r"] u2 l vne a1 unfolding d by auto
    have "0 < length ?vs" using vne by simp
    then have "MetricFor gv c e n k r = Ret (set_metric (MCustom k) m2 ?h' c)"
      using True Some w1 w2 by (simp add: MetricFor_def Let_def set_metric_def)
    with col_wf_set_metric [OF wf mk, of m2 ?h'] a2 mc show ?thesis by auto
  qed
qed

lemma node_metric_returns:
  assumes wf: "col_wf gv c" and k: "k \<in> {MProc, MDur}" and m: "metric_of c k = Some m"
    and u: "list_all (gv_utf8 gv) [n, e, labelValueLatest]"
  shows "\<exists>h' m'. set_node_metric gv (latestMetric c) (slices c, m) n e v = Ret (h', m')
    \<and> col_wf gv (set_metric k m' h' c)"
proof -
  have a: "metric_arity c k = 2" using k by auto
  moreover have "gauge_laws gv" "vec_arity gv (em_gauge m) = metric_arity c k"
    using wf m by (auto simp: col_wf_def)
  ultimately obtain h' m' where s: "set_node_metric gv (latestMetric c) (slices c, m) n e v = Ret (h', m')"
      "vec_arity gv (em_gauge m') = 2"
    using set_node_metric_returns [OF _ _ u, of m "latestMetric c" "slices c" v] by auto
  with col_wf_set_metric [OF wf, of k m' h'] m a show ?thesis by auto
qed

lemma metric_arity_frame [simp]:
  "metric_arity (c\<lparr>podsGauge := g\<rparr>) k = metric_arity c k"
  "metric_arity (c\<lparr>executionIDGauge := g\<rparr>) k = metric_arity c k"
  "metric_arity (Prune gv c e) k = metric_arity c k"
  by (cases k; auto simp: Prune_def map_of_map_prod split: option.splits)+

lemma col_step_returns:
  assumes wf: "col_wf gv c" and u: "list_all (gv_utf8 gv) [[], labelValueLatest]" and x: "op_utf8 gv x"
  shows "\<exists>c'. col_step gv c x = Ret c' \<and> col_wf gv c'"
proof (cases x)
  case (OpMetricFor e n k r)
  with x u MetricFor_returns [OF wf, of e n r k] show ?thesis by simp
next
  case (OpProcessingFinished n e b)
  with x u node_metric_returns [OF wf, of MProc _ n e] show ?thesis
    by (fastforce simp: ProcessingFinished_Ret)
next
  case (OpDuration n e d)
  with x u node_metric_returns [OF wf, of MDur _ n e d] show ?thesis
    by (fastforce simp: Duration_Ret)
next
  case (OpPods v)
  with wf show ?thesis
    by (auto simp: Pods_def col_wf_def metric_of_frame split: option.splits)
next
  case (OpExecutionStarted v)
  have laws: "gauge_laws gv" and a: "vec_arity gv (executionIDGauge c) = 0"
    using wf by (simp_all add: col_wf_def)
  obtain g where g: "gv_set gv (executionIDGauge c) [] v = Some g"
    using gauge_lawsD(7) [OF laws, of "executionIDGauge c" "[]" v] a by (auto simp: vec_arity_def)
  then show ?thesis
    using OpExecutionStarted wf gauge_lawsD(4) [OF laws g]
    by (auto simp: ExecutionStarted_def col_wf_def metric_of_frame vec_arity_def)
next
  case (OpPrune e)
  with wf show ?thesis
    by (auto simp: col_wf_def metric_of_Prune vec_arity_def prune_desc) (auto simp: Prune_def)
qed

lemma enrichLabels_nonempty [simp]: "enrichLabels ls \<noteq> []" "[] \<noteq> enrichLabels ls"
  by (auto simp: enrichLabels_def Let_def)

lemma col_wf_new:
  assumes laws: "gauge_laws gv" and n: "NewPromCollector gv reg cfg = Ret (Inr c)"
  shows "col_wf gv c"
proof -
  note f = NewPromCollector_fields [OF n]
  have "vec_arity gv (em_gauge m) = metric_arity c k \<and> metric_arity c k \<noteq> 0"
    if m: "metric_of c k = Some m" for k m
  proof (cases k)
    case (MCustom nm)
    with m obtain g where g: "map_of (gauges c) nm = Some g" "m = cm_gauge g" by auto
    with new_gauges_entry [OF f(1) g(1)] MCustom laws show ?thesis
      by (auto simp: vec_arity_def newMetric_def gauge_lawsD)
  qed (use m f laws in \<open>auto simp: vec_arity_def newMetric_def gauge_lawsD\<close>)
  moreover have "vec_arity gv (executionIDGauge c) = 0"
    using f(4) laws by (simp add: vec_arity_def gauge_lawsD)
  ultimately show ?thesis using laws by (simp add: col_wf_def)
qed

section \<open>Properties\<close>

text \<open>
  A configuration for the witnesses: one configured gauge with one label of its own.
\<close>

definition sample_cfg :: Config where
  "sample_cfg = zero_Config\<lparr>cfg_Name := ''ctl'', ReportDirectory := ''/var/www'', ReportHistory := 2,
     PodPoolSize := 2, cfg_Metrics := \<lparr>Port = 0, Prefix = ''foo'',
       Gauges = [(''test'', \<lparr>Help = ''h'', Labels = [''a'']\<rparr>)]\<rparr>, Namespace := ''ns'', CallbackServicePort := 8090\<rparr>"

definition sample_result :: Result where
  "sample_result = \<lparr>Value = Fin 5, res_Labels = [(''a'', ''x'')]\<rparr>"

definition sample_collector :: "Config \<Rightarrow> ((string \<times> string \<times> string list) \<times> (string list \<rightharpoonup> float64)) Collector" where
  "sample_collector cfg =
     (case NewPromCollector map_gauge_vec (\<lambda>_. True) cfg of Ret (Inr c) \<Rightarrow> c)"

lemma sample_new:
  "NewPromCollector map_gauge_vec (\<lambda>_. True) sample_cfg = Ret (Inr (sample_collector sample_cfg))"
  "NewPromCollector map_gauge_vec (\<lambda>_. True) (sample_cfg\<lparr>LatestMetricsLabel := True\<rparr>)
     = Ret (Inr (sample_collector (sample_cfg\<lparr>LatestMetricsLabel := True\<rparr>)))"
  by (simp_all add: sample_collector_def NewPromCollector_def sample_cfg_def Let_def reserved_metric_def
      procErrorMetric_def durationMetric_def podsMetric_def map_gauge_vec_def)

lemma col_run_returns:
  assumes "col_wf gv c" and "list_all (gv_utf8 gv) [[], labelValueLatest]" and "list_all (op_utf8 gv) xs"
  shows "\<exists>c'. col_run gv c xs = Ret c'"
  using assms
proof (induction xs arbitrary: c)
  case Nil
  then show ?case by simp
next
  case (Cons x xs)
  from Cons.prems(3) have x: "op_utf8 gv x" and xs: "list_all (op_utf8 gv) xs" by simp_all
  obtain c1 where c1: "col_step gv c x = Ret c1" "col_wf gv c1"
    using col_step_returns [OF Cons.prems(1,2) x] by blast
  then show ?case using Cons.IH [OF c1(2) Cons.prems(2) xs] by simp
qed

lemma sample_utf8 [simp]: "gv_utf8 map_gauge_vec s"
  by (simp add: map_gauge_vec_def)

lemma sample_op_utf8 [simp]: "op_utf8 map_gauge_vec x"
  by (cases x) (auto simp: list_all_iff)

lemma sample_run_returns:
  "\<exists>c'. col_run map_gauge_vec (sample_collector sample_cfg) xs = Ret c'"
  by (rule col_run_returns [OF col_wf_new [OF gauge_laws_map_gauge_vec sample_new(1)]])
    (auto simp: list_all_iff)



text \<open>
  C28. No operation of the program panics in the metrics library: after any sequence of
  operations on a new collector whose strings are valid label values (UTF-8), the next one
  returns. The number of label values passed always matches the vector, and the execution
  label is never missing.
\<close>

theorem collector_never_panics:
  assumes "gauge_laws gv" and "NewPromCollector gv register_ok cfg = Ret (Inr c0)"
    and "list_all (gv_utf8 gv) [[], labelValueLatest]" and "list_all (op_utf8 gv) ops"
  shows "returns (col_run gv c0 ops)"
  using col_run_returns [OF col_wf_new [OF assms(1,2)] assms(3,4)] by (auto simp: returns_iff)

theorem collector_never_panics_witness:
  "returns (col_run map_gauge_vec (sample_collector (sample_cfg\<lparr>LatestMetricsLabel := True\<rparr>))
     [OpMetricFor ''e1'' ''n1'' ''test'' sample_result, OpMetricFor ''e1'' ''n1'' ''other'' sample_result,
      OpDuration ''n1'' ''e1'' (Fin 7), OpPrune ''e1''])"
  by (rule collector_never_panics [OF gauge_laws_map_gauge_vec sample_new(2)]) (auto simp: list_all_iff)

text \<open>
  C27. What recording a result exposes. For a configured gauge the series with exactly the
  label values of the result (missing labels empty, node and execution filled in by the
  controller) gets the value; with \<open>latestMetric\<close> so does the series whose last label value is
  \<open>latest\<close>. No other series of the collector changes.
\<close>

theorem metricFor_series:
  assumes laws: "gauge_laws gv" and g: "map_of (gauges c) name = Some g"
    and r: "MetricFor gv c executionID node name result = Ret c'"
  shows "series gv c' k =
    (if k = MCustom name then
       (let vs = label_values executionID node result (cm_labels g) in
        if latestMetric c
        then (series gv c k)(vs \<mapsto> Value result, vs[length vs - 1 := labelValueLatest] \<mapsto> Value result)
        else (series gv c k)(vs \<mapsto> Value result))
     else series gv c k)"
proof -
  let ?vs = "label_values executionID node result (cm_labels g)"
  let ?h = "slices c @ [?vs]" and ?a = "length (slices c)"
  let ?vs' = "?vs[length ?vs - 1 := labelValueLatest]"
  obtain m1 where w1: "withLabelValues gv ?h (cm_gauge g) ?a (Value result) = Ret m1"
    using g r by (auto simp: MetricFor_def Let_def)
  have vne: "?vs \<noteq> []" using w1 by (simp add: withLabelValues_Ret)
  have e1: "gv_get gv (em_gauge m1) = (gv_get gv (em_gauge (cm_gauge g)))(?vs \<mapsto> Value result)"
    using w1 gauge_lawsD(3) [OF laws] by (auto simp: withLabelValues_Ret)
  have mk: "metric_of c (MCustom name) \<noteq> None" using g by simp
  show ?thesis
  proof (cases "latestMetric c")
    case False
    then have c': "c' = set_metric (MCustom name) m1 ?h c"
      using g r w1 by (auto simp: MetricFor_def Let_def set_metric_def)
    show ?thesis
      using e1 g False metric_of_set_metric [OF mk, of m1 ?h k]
      by (auto simp: c' series_def fun_eq_iff Let_def)
  next
    case True
    let ?h' = "?h[?a := ?vs']"
    obtain m2 where w2: "withLabelValues gv ?h' m1 ?a (Value result) = Ret m2"
      and c': "c' = set_metric (MCustom name) m2 ?h' c"
      using g r w1 vne True by (auto simp: MetricFor_def Let_def set_metric_def)
    have d: "deref ?h' ?a = ?vs'" by (simp add: deref_def)
    have e2: "gv_get gv (em_gauge m2) = (gv_get gv (em_gauge m1))(?vs' \<mapsto> Value result)"
      using w2 d gauge_lawsD(3) [OF laws] by (auto simp: withLabelValues_Ret)
    show ?thesis
      using e1 e2 g True metric_of_set_metric [OF mk, of m2 ?h' k]
      by (auto simp: c' series_def fun_eq_iff Let_def)
  qed
qed

theorem metricFor_series_witness:
  "\<exists>c'. MetricFor map_gauge_vec (sample_collector sample_cfg) ''e1'' ''n1'' ''test'' sample_result = Ret c'
     \<and> series map_gauge_vec c' (MCustom ''test'') [''x'', ''n1'', ''e1''] = Some (Fin 5)"
proof -
  let ?c = "sample_collector sample_cfg"
  obtain c' where c': "MetricFor map_gauge_vec ?c ''e1'' ''n1'' ''test'' sample_result = Ret c'"
    using sample_run_returns [of "[OpMetricFor ''e1'' ''n1'' ''test'' sample_result]"] by auto
  obtain g where g: "map_of (gauges ?c) ''test'' = Some g" and l: "cm_labels g = [''a'', ''node'', ''executionID'']"
    by (simp add: sample_collector_def NewPromCollector_def sample_cfg_def Let_def reserved_metric_def
      procErrorMetric_def durationMetric_def podsMetric_def map_gauge_vec_def enrichLabels_def
      labelNode_def labelExecutionID_def)
  have "latestMetric ?c = False"
    by (simp add: sample_collector_def NewPromCollector_def sample_cfg_def Let_def reserved_metric_def
      procErrorMetric_def durationMetric_def podsMetric_def map_gauge_vec_def zero_Config_def)
  then show ?thesis
    using c' metricFor_series [OF gauge_laws_map_gauge_vec g c', of "MCustom ''test''"] l
    by (simp add: Let_def label_values_def sample_result_def labelNode_def labelExecutionID_def)
qed

text \<open>
  C40. With \<open>latestMetricsLabel\<close> on, pruning a configured gauge does the wrong thing. The
  slice of label values that \<open>withLabelValues\<close> caches for the execution is the slice whose
  last element \<open>MetricFor\<close> then overwrites with \<open>latest\<close>. So after recording the first
  result and pruning its execution, the execution's series is still exposed and the \<open>latest\<close>
  series is gone.
\<close>

theorem latest_prune_stale:
  assumes laws: "gauge_laws gv" and l: "latestMetric c" and g: "map_of (gauges c) name = Some g"
    and fresh: "em_labels (cm_gauge g) = Map.empty"
    and vs: "vs = label_values executionID node result (cm_labels g)"
    and last: "last vs = executionID" "executionID \<noteq> labelValueLatest"
    and r: "MetricFor gv c executionID node name result = Ret c'"
  shows "series gv (Prune gv c' executionID) (MCustom name) vs = Some (Value result)
    \<and> series gv (Prune gv c' executionID) (MCustom name) (vs[length vs - 1 := labelValueLatest]) = None"
proof -
  let ?h = "slices c @ [vs]" and ?a = "length (slices c)"
  let ?vs' = "vs[length vs - 1 := labelValueLatest]"
  let ?h' = "?h[?a := ?vs']"
  obtain m1 where w1: "withLabelValues gv ?h (cm_gauge g) ?a (Value result) = Ret m1"
    using g r by (auto simp: MetricFor_def Let_def vs)
  have vne: "vs \<noteq> []" using w1 by (simp add: withLabelValues_Ret)
  obtain m2 where w2: "withLabelValues gv ?h' m1 ?a (Value result) = Ret m2"
    and c': "c' = set_metric (MCustom name) m2 ?h' c"
    using g r w1 vne l by (auto simp: MetricFor_def Let_def vs set_metric_def)
  have d: "deref ?h' ?a = ?vs'" by (simp add: deref_def)
  have lv: "last ?vs' = labelValueLatest" using vne by (simp add: last_list_update)
  have ne: "?vs' \<noteq> vs" using lv last by auto
  have get: "gv_get gv (em_gauge m2) vs = Some (Value result)"
    using w1 w2 d ne gauge_lawsD(3) [OF laws] by (fastforce simp: withLabelValues_Ret)
  have lab: "em_labels m2 executionID = Some [?a]"
    using w1 w2 d lv last fresh by (auto simp: withLabelValues_Ret cacheLabels_def)
  have "metric_of c (MCustom name) \<noteq> None" using g by simp
  then have "metric_of (Prune gv c' executionID) (MCustom name) = Some (prune gv ?h' m2 executionID)"
    unfolding metric_of_Prune c' by (simp add: metric_of_set_metric del: metric_of.simps)
  then show ?thesis
    using lab d get ne by (simp add: series_def prune_def gauge_lawsD(5) [OF laws] del: metric_of.simps)
qed

theorem latest_prune_stale_witness:
  "\<exists>c'. MetricFor map_gauge_vec (sample_collector (sample_cfg\<lparr>LatestMetricsLabel := True\<rparr>))
        ''e1'' ''n1'' ''test'' sample_result = Ret c'
     \<and> series map_gauge_vec (Prune map_gauge_vec c' ''e1'') (MCustom ''test'') [''x'', ''n1'', ''e1''] = Some (Fin 5)
     \<and> series map_gauge_vec (Prune map_gauge_vec c' ''e1'') (MCustom ''test'') [''x'', ''n1'', ''latest''] = None"
proof -
  let ?c = "sample_collector (sample_cfg\<lparr>LatestMetricsLabel := True\<rparr>)"
  obtain c' where c': "MetricFor map_gauge_vec ?c ''e1'' ''n1'' ''test'' sample_result = Ret c'"
    using MetricFor_returns [OF col_wf_new [OF gauge_laws_map_gauge_vec sample_new(2)],
        of "''e1''" "''n1''" sample_result "''test''"] by (auto simp: list_all_iff)
  have g: "\<exists>g. map_of (gauges ?c) ''test'' = Some g \<and> cm_labels g = [''a'', ''node'', ''executionID'']
      \<and> em_labels (cm_gauge g) = Map.empty" and l: "latestMetric ?c"
    by (simp_all add: sample_collector_def NewPromCollector_def sample_cfg_def Let_def reserved_metric_def
      procErrorMetric_def durationMetric_def podsMetric_def map_gauge_vec_def enrichLabels_def
      labelNode_def labelExecutionID_def newMetric_def)
  then obtain g where g: "map_of (gauges ?c) ''test'' = Some g" "cm_labels g = [''a'', ''node'', ''executionID'']"
    "em_labels (cm_gauge g) = Map.empty" by blast
  have vs: "[''x'', ''n1'', ''e1''] = label_values ''e1'' ''n1'' sample_result (cm_labels g)"
    by (simp add: g(2) label_values_def sample_result_def labelNode_def labelExecutionID_def)
  show ?thesis
    using c' latest_prune_stale [OF gauge_laws_map_gauge_vec l g(1,3) vs _ _ c']
    by (simp add: labelValueLatest_def sample_result_def)
qed

text \<open>
  \<open>enrichLabels\<close> keeps the configured labels in front and adds the node and execution
  labels where they are missing, without duplicates; the execution label is the last one,
  as pruning and the \<open>latest\<close> series assume, exactly if the configuration does not list it
  or lists it last together with the node label.
\<close>

theorem enrichLabels_spec:
  "take (length ls) (enrichLabels ls) = ls
   \<and> set (enrichLabels ls) = set ls \<union> {labelNode, labelExecutionID}
   \<and> (distinct (enrichLabels ls) \<longleftrightarrow> distinct ls)
   \<and> (last (enrichLabels ls) = labelExecutionID \<longleftrightarrow>
        (if labelExecutionID \<in> set ls then labelNode \<in> set ls \<and> last ls = labelExecutionID else True))"
proof -
  have "labelNode \<noteq> labelExecutionID" by (simp add: labelNode_def labelExecutionID_def)
  then show ?thesis by (auto simp: enrichLabels_def Let_def)
qed

text \<open>
  \<open>NewPromCollector\<close> returns an error exactly for a configuration with a gauge named
  \<open>processing\<close>, \<open>duration\<close> or \<open>pods\<close>, whatever the registry does, and the error names one of
  them.
\<close>

theorem newPromCollector_reserved:
  "(\<exists>n. NewPromCollector gv register_ok cfg = Ret (Inl n)) \<longleftrightarrow>
     (\<exists>n \<in> fst ` set (Gauges (cfg_Metrics cfg)). reserved_metric n)
   \<and> (\<forall>n. NewPromCollector gv register_ok cfg = Ret (Inl n) \<longrightarrow>
        n \<in> fst ` set (Gauges (cfg_Metrics cfg)) \<and> n \<in> {''processing'', ''duration'', ''pods''})"
proof -
  let ?ms = "cfg_Metrics cfg"
  have eq: "NewPromCollector gv register_ok cfg = Ret (Inl n) \<longleftrightarrow> new_gauges gv ?ms (Gauges ?ms) = Inl n" for n
    by (auto simp: NewPromCollector_def Let_def split: sum.splits option.splits)
  have "(\<exists>n. new_gauges gv ?ms (Gauges ?ms) = Inl n) \<longleftrightarrow> (\<exists>n \<in> fst ` set (Gauges ?ms). reserved_metric n)"
    using new_gauges_Inr_iff [of gv ?ms "Gauges ?ms"] by (cases "new_gauges gv ?ms (Gauges ?ms)") auto
  then show ?thesis
    using new_gauges_Inl [of gv ?ms "Gauges ?ms"] unfolding eq
    by (auto simp: reserved_metric_def procErrorMetric_def durationMetric_def podsMetric_def)
qed

theorem newPromCollector_reserved_witness:
  "\<exists>n. NewPromCollector map_gauge_vec (\<lambda>_. True)
      (sample_cfg\<lparr>cfg_Metrics := \<lparr>Port = 0, Prefix = ''foo'', Gauges = [(''pods'', \<lparr>Help = [], Labels = []\<rparr>)]\<rparr>\<rparr>)
    = Ret (Inl n)"
  by (subst newPromCollector_reserved) (auto simp: reserved_metric_def procErrorMetric_def
      durationMetric_def podsMetric_def NewPromCollector_def)

text \<open>
  The reserved names miss \<open>current_execution_id\<close>, which the collector uses itself. A
  configured gauge of that name passes the check, and a registry that refuses two
  descriptions of one name with different labels then makes the construction panic instead
  of returning the error.
\<close>

theorem current_execution_id_panics:
  assumes laws: "gauge_laws gv"
    and reg: "\<And>ds n h1 l1 h2 l2. (n, h1, l1) \<in> set ds \<Longrightarrow> (n, h2, l2) \<in> set ds \<Longrightarrow> l1 \<noteq> l2
      \<Longrightarrow> \<not> register_ok ds"
    and ok: "\<forall>n \<in> fst ` set (Gauges (cfg_Metrics cfg)). \<not> reserved_metric n"
    and cur: "currentExecutionMetric \<in> fst ` set (Gauges (cfg_Metrics cfg))"
  shows "\<not> returns (NewPromCollector gv register_ok cfg)"
proof
  let ?ms = "cfg_Metrics cfg"
  assume "returns (NewPromCollector gv register_ok cfg)"
  moreover obtain gs where gs: "new_gauges gv ?ms (Gauges ?ms) = Inr gs"
    using ok new_gauges_Inr_iff by blast
  ultimately obtain c where n: "NewPromCollector gv register_ok cfg = Ret (Inr c)"
    by (auto simp: returns_iff NewPromCollector_def Let_def split: if_splits option.splits)
  note f = NewPromCollector_fields [OF n]
  obtain c0 g where c0: "register_ok (Describe gv c0)" "c = c0\<lparr>versionGauge := g\<rparr>"
    using n by (auto simp: NewPromCollector_def Let_def split: if_splits option.splits sum.splits)
  let ?nm = "Prefix ?ms @ ''_'' @ currentExecutionMetric"
  have a: "(?nm, ''The current execution ID'', []) \<in> set (Describe gv c0)"
    using f(4) c0(2) laws by (auto simp: Describe_def em_describe_def gauge_lawsD)
  have "currentExecutionMetric \<in> set (map fst (gauges c))"
    using new_gauges_keys [OF f(1)] cur by simp
  then obtain g' where g': "map_of (gauges c) currentExecutionMetric = Some g'"
    by (metis list.set_map map_of_eq_None_iff option.exhaust)
  from new_gauges_entry [OF f(1) g'] obtain mt :: Metric
    where "em_gauge (cm_gauge g') = gv_new gv ?nm (Help mt) (enrichLabels (Labels mt))"
    by (auto simp: newMetric_def NameFor_def)
  then have "(?nm, Help mt, enrichLabels (Labels mt)) \<in> set (Describe gv c0)"
    using map_of_SomeD [OF g'] c0(2) laws
    by (force simp: Describe_def em_describe_def gauge_lawsD)
  with reg [OF a this] c0(1) show False by simp
qed

definition strict_registry :: "(string \<times> string \<times> string list) list \<Rightarrow> bool" where
  "strict_registry ds \<longleftrightarrow> (\<forall>a \<in> set ds. \<forall>b \<in> set ds. fst a = fst b \<longrightarrow> snd (snd a) = snd (snd b))"

theorem current_execution_id_panics_witness:
  "\<not> returns (NewPromCollector map_gauge_vec strict_registry
      (sample_cfg\<lparr>cfg_Metrics := \<lparr>Port = 0, Prefix = ''foo'',
         Gauges = [(''current_execution_id'', \<lparr>Help = [], Labels = []\<rparr>)]\<rparr>\<rparr>))"
proof (rule current_execution_id_panics [OF gauge_laws_map_gauge_vec])
  show "\<not> strict_registry ds"
    if "(n, h1, l1) \<in> set ds" "(n, h2, l2) \<in> set ds" "l1 \<noteq> l2" for ds n h1 l1 h2 l2
    using that unfolding strict_registry_def by force
qed (simp_all add: reserved_metric_def procErrorMetric_def durationMetric_def podsMetric_def
    currentExecutionMetric_def)

lemma invalid_name_None: "invalid_name valid cfg r = None \<longleftrightarrow> (\<forall>n \<in> fst ` set r. valid (NameFor (cfg_Metrics cfg) n))"
  by (induction valid cfg r rule: invalid_name.induct) auto

lemma invalid_name_Some: "invalid_name valid cfg r = Some e \<Longrightarrow>
    \<exists>n \<in> fst ` set r. e = InvalidMetricName n \<and> \<not> valid (NameFor (cfg_Metrics cfg) n)"
  by (induction valid cfg r rule: invalid_name.induct) (auto split: if_splits)

text \<open>
  \<open>Results.Validate\<close> accepts exactly the non-empty results all of whose metric names,
  prefixed, are valid; the error of a non-empty one names an invalid name of it.
\<close>

theorem validate_spec:
  "(Validate valid r cfg = None \<longleftrightarrow>
      r \<noteq> [] \<and> (\<forall>n \<in> fst ` set r. valid (Prefix (cfg_Metrics cfg) @ ''_'' @ n)))
   \<and> (Validate valid r cfg = Some EmptyResults \<longleftrightarrow> r = [])
   \<and> (\<forall>n. Validate valid r cfg = Some (InvalidMetricName n) \<longrightarrow>
        n \<in> fst ` set r \<and> \<not> valid (Prefix (cfg_Metrics cfg) @ ''_'' @ n))"
proof -
  have "invalid_name valid cfg r \<noteq> Some EmptyResults"
    using invalid_name_Some [of valid cfg r EmptyResults] by auto
  then show ?thesis
    using invalid_name_None [of valid cfg r] invalid_name_Some [of valid cfg r]
    by (auto simp: Validate_def NameFor_def)
qed

theorem validate_spec_witness:
  "Validate (\<lambda>n. n = ''foo_a'') [(''a'', [sample_result])] sample_cfg = None"
  using validate_spec [of "\<lambda>n. n = ''foo_a''" "[(''a'', [sample_result])]" sample_cfg]
  by (simp add: sample_cfg_def)

end
