(* ===== verification/Lifecycle.thy ===== *)
theory Lifecycle
  imports Metrics_Proofs
begin

text \<open>
  \<open>pkg/lifecycle\<close>: the controller that owns the executions, their job channels and worker
  goroutines, and the pods' states. Pointers are addresses: an \<open>*execution\<close> indexes
  \<open>heap_ex\<close> and a \<open>*pod\<close> indexes \<open>heap_pod\<close>, so a worker keeps its execution after
  \<open>AllAdded\<close> has removed it from the map. Time and the calendar are read from the argument
  \<open>clock\<close>; logging is left out. This theory has the operations and their basic laws; the
  goroutines' interleavings are in \<open>Pool\<close>.
\<close>

section \<open>State\<close>

text \<open>The \<open>Job\<close> interface: its \<open>ID\<close> and \<open>Node\<close>; \<open>CreatePod\<close> is an effect on the cluster.\<close>

record Job =
  job_ID :: string
  job_Node :: string

record pod =
  pod_node :: string
  started :: instant
  terminated :: "instant option"
  reportReceived :: "instant option"
  status :: string

text \<open>
  Where a worker goroutine stands in its loop: waiting at \<open>range e.jobChan\<close>, about to call
  \<open>CreatePod\<close>, back from it, polling the pod it looked up, or returned.
\<close>

datatype worker = WIdle | WCreate Job | WStart Job | WWait Job nat | WExit

text \<open>The channel \<open>jobChan\<close> is its buffered jobs, its capacity and whether it is closed.\<close>

record execution =
  ex_id :: string
  ex_pods :: "string \<rightharpoonup> nat"
  chan_buf :: "Job list"
  chan_cap :: nat
  chan_closed :: bool
  ex_workers :: "worker list"

record 'g controller =
  prom :: "'g Collector"
  executions :: "string \<rightharpoonup> nat"
  nodes :: "string \<rightharpoonup> bool"
  reportDir :: string
  reportHistory :: int
  podPoolSize :: int
  ctl_config :: Config
  progress :: "64 word"
  progressStep :: float64
  heap_ex :: "execution list"
  heap_pod :: "pod list"

record clock =
  now :: instant
  wall :: civil

section \<open>Operations\<close>

definition NewController :: "Config \<Rightarrow> 'g Collector \<Rightarrow> 'g controller" where
  "NewController cfg prm =
     \<lparr>prom = prm, executions = Map.empty, nodes = Map.empty, reportDir = ReportDirectory cfg,
      reportHistory = wrap64 (ReportHistory cfg + 1), podPoolSize = PodPoolSize cfg,
      ctl_config = cfg, progress = 0, progressStep = Fin 0, heap_ex = [], heap_pod = []\<rparr>"

definition controller_Config :: "'g controller \<Rightarrow> Config" where
  "controller_Config c = ctl_config c"

definition getProgress :: "'g controller \<Rightarrow> string" where
  "getProgress c = fmt_f0 (f_mul (progressStep c) (f_of_int (uint (progress c)))) @ ''%''"

definition addProgress :: "64 word \<Rightarrow> 'g controller \<Rightarrow> 'g controller" where
  "addProgress p c = c\<lparr>progress := progress c + p\<rparr>"

definition forID :: "'g controller \<Rightarrow> string \<Rightarrow> err + nat" where
  "forID c eid =
     (case executions c eid of
        None \<Rightarrow> Inl (ExecutionIDNotFound (NoExecution eid))
      | Some e \<Rightarrow> Inr e)"

definition ex_pod :: "'g controller \<Rightarrow> nat \<Rightarrow> string \<Rightarrow> err + nat" where
  "ex_pod c e node =
     (case ex_pods (heap_ex c ! e) node of
        None \<Rightarrow> Inl (ExecutionIDNotFound (NoPod node))
      | Some p \<Rightarrow> Inr p)"

definition podForID :: "'g controller \<Rightarrow> string \<Rightarrow> string \<Rightarrow> err + nat" where
  "podForID c eid node = (case forID c eid of Inl x \<Rightarrow> Inl x | Inr e \<Rightarrow> ex_pod c e node)"

definition Has :: "'g controller \<Rightarrow> string \<Rightarrow> string \<Rightarrow> bool" where
  "Has c node executionID \<longleftrightarrow> nodes c node \<noteq> None \<and> executions c executionID \<noteq> None"

text \<open>
  \<open>NewExecution\<close>: the new execution replaces one of the same minute in the map; the report
  directory and the \<open>latest\<close> link are made with errors logged only. A negative pool size
  makes \<open>make(chan Job, n)\<close> panic.
\<close>

definition latest_link :: "string \<Rightarrow> string" where
  "latest_link dir = filepath_Join [dir, ''latest'']"

definition prepare_dirs :: "bool \<Rightarrow> instant \<Rightarrow> string \<Rightarrow> string \<Rightarrow> fs \<Rightarrow> fs" where
  "prepare_dirs windows t dir eid s =
     (let rep = filepath_Join [dir, eid];
          s1 = (case os_Stat s rep of
                  Inl e \<Rightarrow> if e = ErrNotExist then snd (os_MkdirAll t s rep) else s
                | Inr _ \<Rightarrow> s)
      in if windows then s1
         else
           let link = latest_link dir;
               s2 = (case os_Lstat s1 link of Inr _ \<Rightarrow> snd (os_Remove t s1 link) | Inl _ \<Rightarrow> s1)
           in snd (os_Symlink t s2 rep link))"

definition new_execution :: "int \<Rightarrow> string \<Rightarrow> execution" where
  "new_execution n eid =
     \<lparr>ex_id = eid, ex_pods = Map.empty, chan_buf = [], chan_cap = nat n, chan_closed = False,
      ex_workers = replicate (nat n) WIdle\<rparr>"

definition NewExecution ::
  "'g gauge_vec \<Rightarrow> bool \<Rightarrow> clock \<Rightarrow> 'g controller \<Rightarrow> fs \<Rightarrow> int \<Rightarrow> (string \<times> 'g controller \<times> fs) go" where
  "NewExecution gv windows clk c s jobs =
     (let eid = time_Format_id (wall clk) in
      if podPoolSize c < 0 then Panic ''makechan: size out of range''
      else
        let fj = f_of_int jobs;
            c1 = c\<lparr>executions := (executions c)(eid \<mapsto> length (heap_ex c)),
                   heap_ex := heap_ex c @ [new_execution (podPoolSize c) eid],
                   progressStep := f_div (Fin 100) (f_mul fj (Fin 3)),
                   progress := 0,
                   prom := Pods gv (prom c) fj\<rparr>;
            s' = prepare_dirs windows (now clk) (reportDir c) eid s;
            f = (case strconv_ParseFloat eid of None \<Rightarrow> Fin 0 | Some f \<Rightarrow> f)
        in go_bind (ExecutionStarted gv (prom c1) f) (\<lambda>p. Ret (eid, c1\<lparr>prom := p\<rparr>, s')))"

text \<open>
  \<open>AllAdded\<close>: \<open>sortf\<close> is \<open>slices.SortFunc\<close> by modification time. The loop deletes the
  first \<open>n\<close> entries from the map, the metrics and the disk; indexing past the list panics.
\<close>

fun prune_files ::
  "'g gauge_vec \<Rightarrow> instant \<Rightarrow> nat \<Rightarrow> dir_entry list \<Rightarrow> 'g controller \<Rightarrow> fs \<Rightarrow> ('g controller \<times> fs) go" where
  "prune_files gv t 0 files c s = Ret (c, s)"
| "prune_files gv t (Suc n) [] c s = Panic ''index out of range''"
| "prune_files gv t (Suc n) (f # files) c s =
     (let name = de_name f;
          c' = c\<lparr>executions := (executions c)(name := None), prom := Prune gv (prom c) name\<rparr>;
          s' = snd (os_RemoveAll t s (filepath_Join [reportDir c, name]))
      in prune_files gv t n files c' s')"

definition upd_ex :: "nat \<Rightarrow> (execution \<Rightarrow> execution) \<Rightarrow> 'g controller \<Rightarrow> 'g controller" where
  "upd_ex e f c = c\<lparr>heap_ex := (heap_ex c)[e := f (heap_ex c ! e)]\<rparr>"

definition upd_pod :: "nat \<Rightarrow> (pod \<Rightarrow> pod) \<Rightarrow> 'g controller \<Rightarrow> 'g controller" where
  "upd_pod p f c = c\<lparr>heap_pod := (heap_pod c)[p := f (heap_pod c ! p)]\<rparr>"

definition close_chan :: "nat \<Rightarrow> 'g controller \<Rightarrow> 'g controller go" where
  "close_chan e c =
     (if chan_closed (heap_ex c ! e) then Panic ''close of closed channel''
      else Ret (upd_ex e (\<lambda>x. x\<lparr>chan_closed := True\<rparr>) c))"

definition AllAdded ::
  "'g gauge_vec \<Rightarrow> (dir_entry list \<Rightarrow> dir_entry list) \<Rightarrow> instant \<Rightarrow> 'g controller \<Rightarrow> fs \<Rightarrow> string \<Rightarrow>
   ('g controller \<times> fs \<times> err option) go" where
  "AllAdded gv sortf t c s executionID =
     (case forID c executionID of
        Inl x \<Rightarrow> Ret (c, s, Some x)
      | Inr e \<Rightarrow>
          (case os_ReadDir s (reportDir c) of
             Inl x \<Rightarrow> Ret (c, s, Some (OsErr x))
           | Inr files0 \<Rightarrow>
               let files = sortf files0 in
               go_bind (if reportHistory c < int (length files)
                        then let pruneCnt = wrap64 (int (length files) - reportHistory c)
                             in prune_files gv t (nat pruneCnt) files c s
                        else Ret (c, s))
                 (\<lambda>(c', s'). go_bind (close_chan e c') (\<lambda>c''. Ret (c'', s', None)))))"

text \<open>
  \<open>AddPod\<close> registers the pod and sends the job. A send on a closed channel panics, a send on
  a full buffer blocks: the caller stays in \<open>AddPod\<close> with the pod already registered.
\<close>

datatype 'c added = AddErr err | AddDone 'c | AddBlocked nat 'c | AddPanic string

definition register_pod :: "nat \<Rightarrow> Job \<Rightarrow> 'g controller \<Rightarrow> 'g controller" where
  "register_pod e j c =
     (upd_ex e (\<lambda>x. x\<lparr>ex_pods := (ex_pods x)(job_Node j \<mapsto> length (heap_pod c))\<rparr>) c)
       \<lparr>nodes := (nodes c)(job_Node j \<mapsto> True),
        heap_pod := heap_pod c @ [\<lparr>pod_node = job_Node j, started = zero_time, terminated = None,
                                   reportReceived = None, status = []\<rparr>]\<rparr>"

definition chan_send :: "nat \<Rightarrow> Job \<Rightarrow> 'g controller \<Rightarrow> 'g controller added" where
  "chan_send e j c =
     (let x = heap_ex c ! e in
      if chan_closed x then AddPanic ''send on closed channel''
      else if length (chan_buf x) < chan_cap x
        then AddDone (upd_ex e (\<lambda>x. x\<lparr>chan_buf := chan_buf x @ [j]\<rparr>) c)
      else AddBlocked e c)"

definition AddPod :: "'g controller \<Rightarrow> Job \<Rightarrow> 'g controller added" where
  "AddPod c job =
     (case forID c (job_ID job) of
        Inl x \<Rightarrow> AddErr x
      | Inr e \<Rightarrow> chan_send e job (register_pod e job c))"

definition PodSucceeded :: string where "PodSucceeded = ''Succeeded''"
definition PodFailed :: string where "PodFailed = ''Failed''"

definition PodTerminated ::
  "'g gauge_vec \<Rightarrow> instant \<Rightarrow> 'g controller \<Rightarrow> string \<Rightarrow> string \<Rightarrow> string \<Rightarrow>
   ('g controller \<times> err option) go" where
  "PodTerminated gv t c executionID node phase =
     (case podForID c executionID node of
        Inl x \<Rightarrow> Ret (c, Some x)
      | Inr pa \<Rightarrow>
          let p = heap_pod c ! pa in
          if terminated p \<noteq> None then Ret (c, None)
          else
            let c1 = upd_pod pa (\<lambda>p. p\<lparr>terminated := Some t, status := phase\<rparr>) (addProgress 1 c)
            in go_bind (Duration gv (prom c1) node executionID
                          (f_of_int (duration_Milliseconds (time_Sub t (started p))))) (\<lambda>pr.
                 if phase \<noteq> PodSucceeded \<or> reportReceived p = None
                 then go_bind (ProcessingFinished gv pr node executionID True)
                        (\<lambda>pr'. Ret (c1\<lparr>prom := pr'\<rparr>, None))
                 else Ret (c1\<lparr>prom := pr\<rparr>, None)))"

fun record_results ::
  "'g gauge_vec \<Rightarrow> string \<Rightarrow> string \<Rightarrow> Results \<Rightarrow> 'g Collector \<Rightarrow> 'g Collector go" where
  "record_results gv executionID node [] pr = Ret pr"
| "record_results gv executionID node ((k, []) # rs) pr = record_results gv executionID node rs pr"
| "record_results gv executionID node ((k, r # rr) # rs) pr =
     go_bind (MetricFor gv pr executionID node k r)
       (\<lambda>pr'. record_results gv executionID node ((k, rr) # rs) pr')"

definition ReportReceived ::
  "'g gauge_vec \<Rightarrow> instant \<Rightarrow> 'g controller \<Rightarrow> string \<Rightarrow> string \<Rightarrow> bool \<Rightarrow> Results \<Rightarrow> 'g controller go" where
  "ReportReceived gv t c executionID node processingError results =
     go_bind (record_results gv executionID node results (prom c)) (\<lambda>pr.
     go_bind (ProcessingFinished gv pr node executionID processingError) (\<lambda>pr'.
       let c1 = c\<lparr>prom := pr'\<rparr> in
       case forID c1 executionID of
         Inl _ \<Rightarrow> Ret c1
       | Inr e \<Rightarrow>
           (case ex_pod c1 e node of
              Inl _ \<Rightarrow> Ret c1
            | Inr pa \<Rightarrow>
                Ret (upd_pod pa (\<lambda>p. p\<lparr>reportReceived := Some t, status := ''ReportReceived''\<rparr>) c1))))"

text \<open>
  One turn of worker \<open>w\<close> of the execution at \<open>e\<close>: the new state and the job whose \<open>CreatePod\<close>
  it calls; \<^term>\<open>None\<close> while it can do nothing but wait (an open, empty channel; a pod that
  is not terminated) or has returned.
\<close>

definition set_worker :: "nat \<Rightarrow> nat \<Rightarrow> worker \<Rightarrow> 'g controller \<Rightarrow> 'g controller" where
  "set_worker e w x c = upd_ex e (\<lambda>ex. ex\<lparr>ex_workers := (ex_workers ex)[w := x]\<rparr>) c"

definition worker_turn ::
  "instant \<Rightarrow> nat \<Rightarrow> nat \<Rightarrow> 'g controller \<Rightarrow> ('g controller \<times> Job option) option" where
  "worker_turn t e w c =
     (case ex_workers (heap_ex c ! e) ! w of
        WIdle \<Rightarrow>
          (case chan_buf (heap_ex c ! e) of
             j # js \<Rightarrow>
               Some (set_worker e w (WCreate j) (upd_ex e (\<lambda>x. x\<lparr>chan_buf := js\<rparr>) c), None)
           | [] \<Rightarrow>
               if chan_closed (heap_ex c ! e) then Some (set_worker e w WExit c, None) else None)
      | WCreate j \<Rightarrow> Some (set_worker e w (WStart j) c, Some j)
      | WStart j \<Rightarrow>
          (case ex_pod c e (job_Node j) of
             Inl _ \<Rightarrow> Some (set_worker e w WExit c, None)
           | Inr pa \<Rightarrow>
               Some (addProgress 1 (set_worker e w (WWait j pa)
                       (upd_pod pa (\<lambda>p. p\<lparr>started := t, status := ''Started''\<rparr>) c)), None))
      | WWait j pa \<Rightarrow>
          if terminated (heap_pod c ! pa) = None then None
          else Some (addProgress 1 (set_worker e w WIdle c), None)
      | WExit \<Rightarrow> None)"

end
