(* ===== verification/Lifecycle_Laws.thy ===== *)
theory Lifecycle_Laws
  imports Lifecycle
begin

text \<open>
  What each operation of the controller does to the shared state (\<open>ctl_simps\<close> and the
  \<open>_effect\<close> lemmas), and \<open>lifecycle_controller\<close>: the Go interface \<open>Controller\<close> with the laws
  its clients (the pod reconciler, the callback server) rely on, interpreted on the
  controller of \<open>Lifecycle\<close>.
\<close>

section \<open>Field laws\<close>

lemma upd_ex_simps [simp, ctl_simps]:
  "length (heap_ex (upd_ex e f c)) = length (heap_ex c)"
  "heap_pod (upd_ex e f c) = heap_pod c" "executions (upd_ex e f c) = executions c"
  "nodes (upd_ex e f c) = nodes c" "progress (upd_ex e f c) = progress c" "prom (upd_ex e f c) = prom c"
  "reportDir (upd_ex e f c) = reportDir c" "podPoolSize (upd_ex e f c) = podPoolSize c"
  "progressStep (upd_ex e f c) = progressStep c" "reportHistory (upd_ex e f c) = reportHistory c"
  "ctl_config (upd_ex e f c) = ctl_config c"
  by (simp_all add: upd_ex_def)

lemma upd_pod_simps [simp, ctl_simps]:
  "length (heap_pod (upd_pod p f c)) = length (heap_pod c)"
  "heap_ex (upd_pod p f c) = heap_ex c" "executions (upd_pod p f c) = executions c"
  "nodes (upd_pod p f c) = nodes c" "progress (upd_pod p f c) = progress c" "prom (upd_pod p f c) = prom c"
  "reportDir (upd_pod p f c) = reportDir c" "podPoolSize (upd_pod p f c) = podPoolSize c"
  "progressStep (upd_pod p f c) = progressStep c" "reportHistory (upd_pod p f c) = reportHistory c"
  "ctl_config (upd_pod p f c) = ctl_config c"
  by (simp_all add: upd_pod_def)

lemma addProgress_simps [simp, ctl_simps]:
  "heap_ex (addProgress n c) = heap_ex c" "heap_pod (addProgress n c) = heap_pod c"
  "executions (addProgress n c) = executions c" "nodes (addProgress n c) = nodes c"
  "progress (addProgress n c) = progress c + n" "prom (addProgress n c) = prom c"
  "reportDir (addProgress n c) = reportDir c" "podPoolSize (addProgress n c) = podPoolSize c"
  "progressStep (addProgress n c) = progressStep c" "reportHistory (addProgress n c) = reportHistory c"
  "ctl_config (addProgress n c) = ctl_config c"
  by (simp_all add: addProgress_def)

lemma heap_ex_upd [simp, ctl_simps]:
  "e < length (heap_ex c) \<Longrightarrow>
   heap_ex (upd_ex e f c) ! e' = (if e' = e then f (heap_ex c ! e) else heap_ex c ! e')"
  by (auto simp: upd_ex_def nth_list_update)

lemma heap_pod_upd [simp, ctl_simps]:
  "p < length (heap_pod c) \<Longrightarrow>
   heap_pod (upd_pod p f c) ! p' = (if p' = p then f (heap_pod c ! p) else heap_pod c ! p')"
  by (auto simp: upd_pod_def nth_list_update)

section \<open>Well-formed heaps\<close>

text \<open>
  Every execution in the map is allocated and carries the identifier it is filed under; every
  registered pod is allocated, belongs to its node, and to one execution only.
\<close>

definition heap_ok :: "'g controller \<Rightarrow> bool" where
  "heap_ok c \<longleftrightarrow>
     (\<forall>eid e. executions c eid = Some e \<longrightarrow> e < length (heap_ex c) \<and> ex_id (heap_ex c ! e) = eid)
   \<and> (\<forall>e < length (heap_ex c). \<forall>n p. ex_pods (heap_ex c ! e) n = Some p \<longrightarrow>
        p < length (heap_pod c) \<and> pod_node (heap_pod c ! p) = n)
   \<and> (\<forall>e1 < length (heap_ex c). \<forall>e2 < length (heap_ex c). \<forall>n1 n2 p.
        ex_pods (heap_ex c ! e1) n1 = Some p \<longrightarrow> ex_pods (heap_ex c ! e2) n2 = Some p \<longrightarrow> e1 = e2)"

lemma heap_ok_execution: "heap_ok c \<Longrightarrow> executions c eid = Some e \<Longrightarrow>
    e < length (heap_ex c) \<and> ex_id (heap_ex c ! e) = eid"
  unfolding heap_ok_def by blast

lemma heap_ok_pod: "heap_ok c \<Longrightarrow> e < length (heap_ex c) \<Longrightarrow> ex_pods (heap_ex c ! e) n = Some p \<Longrightarrow>
    p < length (heap_pod c) \<and> pod_node (heap_pod c ! p) = n"
  unfolding heap_ok_def by blast

lemma heap_ok_unique: "heap_ok c \<Longrightarrow> e1 < length (heap_ex c) \<Longrightarrow> e2 < length (heap_ex c) \<Longrightarrow>
    ex_pods (heap_ex c ! e1) n1 = Some p \<Longrightarrow> ex_pods (heap_ex c ! e2) n2 = Some p \<Longrightarrow> e1 = e2 \<and> n1 = n2"
  unfolding heap_ok_def by metis

lemma podForID_Inr:
  "podForID c eid n = Inr p \<longleftrightarrow> (\<exists>e. executions c eid = Some e \<and> ex_pods (heap_ex c ! e) n = Some p)"
  by (auto simp: podForID_def forID_def ex_pod_def split: option.splits)

lemma podForID_Inl:
  "podForID c eid n = Inl x \<Longrightarrow> \<exists>nf. x = ExecutionIDNotFound nf"
  by (auto simp: podForID_def forID_def ex_pod_def split: option.splits)

text \<open>Changes that keep the maps and the pods' nodes keep the heap well formed.\<close>

lemma heap_ok_cong:
  assumes "heap_ok c" and "executions c' \<subseteq>\<^sub>m executions c" and "length (heap_ex c') = length (heap_ex c)"
    and "\<And>e. e < length (heap_ex c) \<Longrightarrow> ex_id (heap_ex c' ! e) = ex_id (heap_ex c ! e)
      \<and> ex_pods (heap_ex c' ! e) = ex_pods (heap_ex c ! e)"
    and "length (heap_pod c') = length (heap_pod c)"
    and "\<And>p. p < length (heap_pod c) \<Longrightarrow> pod_node (heap_pod c' ! p) = pod_node (heap_pod c ! p)"
  shows "heap_ok c'"
  unfolding heap_ok_def
proof (intro conjI allI impI)
  fix eid e
  assume "executions c' eid = Some e"
  with assms(2) have "executions c eid = Some e" by (auto simp: map_le_def dom_def)
  from heap_ok_execution [OF assms(1) this] assms(3,4)
  show "e < length (heap_ex c')" and "ex_id (heap_ex c' ! e) = eid" by simp_all
next
  fix e n p
  assume "e < length (heap_ex c')" and "ex_pods (heap_ex c' ! e) n = Some p"
  then have "e < length (heap_ex c)" and "ex_pods (heap_ex c ! e) n = Some p"
    using assms(3,4) by simp_all
  from heap_ok_pod [OF assms(1) this] assms(5,6)
  show "p < length (heap_pod c')" and "pod_node (heap_pod c' ! p) = n" by simp_all
next
  fix e1 e2 n1 n2 p
  assume "e1 < length (heap_ex c')" "e2 < length (heap_ex c')"
    "ex_pods (heap_ex c' ! e1) n1 = Some p" "ex_pods (heap_ex c' ! e2) n2 = Some p"
  then show "e1 = e2"
    using heap_ok_unique [OF assms(1), of e1 e2 n1 p n2] assms(3,4) by simp
qed

lemma heap_ok_NewController: "heap_ok (NewController cfg prm)"
  by (simp add: heap_ok_def NewController_def)

section \<open>Effects\<close>

text \<open>The metrics are the only part of the controller some operations touch.\<close>

lemma PodTerminated_cases:
  assumes "PodTerminated gv t c eid n ph = Ret (c', r)"
  obtains (unknown) nf where "podForID c eid n = Inl (ExecutionIDNotFound nf)" "c' = c"
      "r = Some (ExecutionIDNotFound nf)"
    | (again) pa where "podForID c eid n = Inr pa" "terminated (heap_pod c ! pa) \<noteq> None" "c' = c" "r = None"
    | (first) pa pr where "podForID c eid n = Inr pa" "terminated (heap_pod c ! pa) = None" "r = None"
      "c' = (upd_pod pa (\<lambda>p. p\<lparr>terminated := Some t, status := ph\<rparr>) (addProgress 1 c))\<lparr>prom := pr\<rparr>"
proof (cases "podForID c eid n")
  case (Inl x)
  then obtain nf where nf: "x = ExecutionIDNotFound nf" using podForID_Inl by blast
  with Inl assms have "c' = c" "r = Some (ExecutionIDNotFound nf)" by (simp_all add: PodTerminated_def)
  with Inl nf show thesis by (intro unknown) simp_all
next
  case (Inr pa)
  show thesis
  proof (cases "terminated (heap_pod c ! pa)")
    case None
    from Inr None assms obtain pr where "r = None"
      "c' = (upd_pod pa (\<lambda>p. p\<lparr>terminated := Some t, status := ph\<rparr>) (addProgress 1 c))\<lparr>prom := pr\<rparr>"
      by (auto simp: PodTerminated_def Let_def split: if_splits)
    with Inr None show thesis by (intro first)
  next
    case (Some t')
    with Inr assms have "c' = c" "r = None" by (simp_all add: PodTerminated_def Let_def)
    with Inr Some show thesis by (intro again) auto
  qed
qed

lemma PodTerminated_effect:
  assumes "PodTerminated gv t c eid n ph = Ret (c', r)"
  shows "heap_ex c' = heap_ex c" "executions c' = executions c" "nodes c' = nodes c"
    "length (heap_pod c') = length (heap_pod c)" "ctl_config c' = ctl_config c"
    "p < length (heap_pod c) \<Longrightarrow> pod_node (heap_pod c' ! p) = pod_node (heap_pod c ! p)"
    "p < length (heap_pod c) \<Longrightarrow> terminated (heap_pod c ! p) \<noteq> None \<Longrightarrow> heap_pod c' ! p = heap_pod c ! p"
proof -
  have "heap_ex c' = heap_ex c \<and> executions c' = executions c \<and> nodes c' = nodes c
    \<and> length (heap_pod c') = length (heap_pod c) \<and> ctl_config c' = ctl_config c
    \<and> (p < length (heap_pod c) \<longrightarrow> pod_node (heap_pod c' ! p) = pod_node (heap_pod c ! p))
    \<and> (p < length (heap_pod c) \<longrightarrow> terminated (heap_pod c ! p) \<noteq> None \<longrightarrow> heap_pod c' ! p = heap_pod c ! p)"
    using assms
  proof (cases rule: PodTerminated_cases)
    case (first pa pr)
    then show ?thesis by (auto simp: upd_pod_def nth_upd)
  qed auto
  then show "heap_ex c' = heap_ex c" "executions c' = executions c" "nodes c' = nodes c"
    "length (heap_pod c') = length (heap_pod c)" "ctl_config c' = ctl_config c"
    "p < length (heap_pod c) \<Longrightarrow> pod_node (heap_pod c' ! p) = pod_node (heap_pod c ! p)"
    "p < length (heap_pod c) \<Longrightarrow> terminated (heap_pod c ! p) \<noteq> None \<Longrightarrow> heap_pod c' ! p = heap_pod c ! p"
    by blast+
qed

lemma ReportReceived_cases:
  assumes "ReportReceived gv t c eid n b rs = Ret c'"
  obtains (unknown) nf pr where "podForID c eid n = Inl (ExecutionIDNotFound nf)" "c' = c\<lparr>prom := pr\<rparr>"
    | (known) pa pr where "podForID c eid n = Inr pa"
      "c' = upd_pod pa (\<lambda>p. p\<lparr>reportReceived := Some t, status := ''ReportReceived''\<rparr>) (c\<lparr>prom := pr\<rparr>)"
  using assms
  by (auto simp: ReportReceived_def podForID_def forID_def ex_pod_def Let_def split: option.splits sum.splits)

lemma ReportReceived_effect:
  assumes "ReportReceived gv t c eid n b rs = Ret c'"
  shows "heap_ex c' = heap_ex c" "executions c' = executions c" "nodes c' = nodes c"
    "length (heap_pod c') = length (heap_pod c)" "progress c' = progress c"
    "p < length (heap_pod c) \<Longrightarrow> pod_node (heap_pod c' ! p) = pod_node (heap_pod c ! p)
      \<and> terminated (heap_pod c' ! p) = terminated (heap_pod c ! p)"
proof -
  have "heap_ex c' = heap_ex c \<and> executions c' = executions c \<and> nodes c' = nodes c
    \<and> length (heap_pod c') = length (heap_pod c) \<and> progress c' = progress c
    \<and> (p < length (heap_pod c) \<longrightarrow> pod_node (heap_pod c' ! p) = pod_node (heap_pod c ! p)
        \<and> terminated (heap_pod c' ! p) = terminated (heap_pod c ! p))"
    using assms by (cases rule: ReportReceived_cases) (auto simp: upd_pod_def nth_upd)
  then show "heap_ex c' = heap_ex c" "executions c' = executions c" "nodes c' = nodes c"
    "length (heap_pod c') = length (heap_pod c)" "progress c' = progress c"
    "p < length (heap_pod c) \<Longrightarrow> pod_node (heap_pod c' ! p) = pod_node (heap_pod c ! p)
      \<and> terminated (heap_pod c' ! p) = terminated (heap_pod c ! p)"
    by blast+
qed

lemma prune_files_effect:
  "prune_files gv t n files c s = Ret (c', s') \<Longrightarrow>
   n \<le> length files \<and> heap_ex c' = heap_ex c \<and> heap_pod c' = heap_pod c \<and> nodes c' = nodes c
   \<and> progress c' = progress c \<and> reportDir c' = reportDir c \<and> reportHistory c' = reportHistory c
   \<and> podPoolSize c' = podPoolSize c \<and> progressStep c' = progressStep c \<and> ctl_config c' = ctl_config c
   \<and> executions c' = (\<lambda>x. if x \<in> de_name ` set (take n files) then None else executions c x)
   \<and> prom c' = fold (\<lambda>f pr. Prune gv pr (de_name f)) (take n files) (prom c)
   \<and> s' = fold (\<lambda>f s. snd (os_RemoveAll t s (filepath_Join [reportDir c, de_name f]))) (take n files) s"
  by (induction gv t n files c s rule: prune_files.induct) (auto simp: Let_def fun_eq_iff)

lemma prune_files_returns:
  "n \<le> length files \<Longrightarrow> \<exists>r. prune_files gv t n files c s = Ret r"
  by (induction gv t n files c s rule: prune_files.induct) (auto simp: Let_def)

section \<open>The interface of the controller\<close>

text \<open>
  What the reconciler relies on: a notification that is refused changes nothing and names an
  unknown execution or pod, and a repeated one is answered alike and changes nothing.
\<close>

locale pod_sink =
  fixes inv :: "'c \<Rightarrow> bool"
    and podTerminated :: "instant \<Rightarrow> 'c \<Rightarrow> string \<Rightarrow> string \<Rightarrow> string \<Rightarrow> ('c \<times> err option) go"
  assumes podTerminated_error:
      "podTerminated t c e n ph = Ret (c', Some x) \<Longrightarrow> c' = c \<and> (\<exists>nf. x = ExecutionIDNotFound nf)"
    and podTerminated_again:
      "inv c \<Longrightarrow> podTerminated t c e n ph = Ret (c', r) \<Longrightarrow> podTerminated t' c' e n ph' = Ret (c', r)"
    and podTerminated_inv: "inv c \<Longrightarrow> podTerminated t c e n ph = Ret (c', r) \<Longrightarrow> inv c'"
begin

lemma podTerminated_not_found_twice:
  "podTerminated t c e n ph = Ret (c', Some x) \<Longrightarrow> inv c \<Longrightarrow>
   podTerminated t' c' e n ph' = Ret (c, Some x)"
  using podTerminated_error podTerminated_again by metis

end

text \<open>What the callback server relies on besides: neither callback changes what is known.\<close>

locale lifecycle_controller = pod_sink inv podTerminated
  for inv :: "'c \<Rightarrow> bool"
    and podTerminated :: "instant \<Rightarrow> 'c \<Rightarrow> string \<Rightarrow> string \<Rightarrow> string \<Rightarrow> ('c \<times> err option) go" +
  fixes has :: "'c \<Rightarrow> string \<Rightarrow> string \<Rightarrow> bool"
    and reportReceived :: "instant \<Rightarrow> 'c \<Rightarrow> string \<Rightarrow> string \<Rightarrow> bool \<Rightarrow> Results \<Rightarrow> 'c go"
  assumes podTerminated_has: "podTerminated t c e n ph = Ret (c', r) \<Longrightarrow> has c' = has c"
    and reportReceived_has: "reportReceived t c e n b rs = Ret c' \<Longrightarrow> has c' = has c"
    and reportReceived_inv: "inv c \<Longrightarrow> reportReceived t c e n b rs = Ret c' \<Longrightarrow> inv c'"
begin

lemma report_then_terminated_has:
  "reportReceived t c e n b rs = Ret c1 \<Longrightarrow> podTerminated t' c1 e n ph = Ret (c2, r) \<Longrightarrow> has c2 = has c"
  using reportReceived_has podTerminated_has by metis

end

lemma heap_ok_PodTerminated:
  "heap_ok c \<Longrightarrow> PodTerminated gv t c eid n ph = Ret (c', r) \<Longrightarrow> heap_ok c'"
  by (erule heap_ok_cong) (simp_all add: PodTerminated_effect map_le_refl)

lemma heap_ok_ReportReceived:
  "heap_ok c \<Longrightarrow> ReportReceived gv t c eid n b rs = Ret c' \<Longrightarrow> heap_ok c'"
  by (erule heap_ok_cong) (simp_all add: ReportReceived_effect map_le_refl)

lemma PodTerminated_again:
  assumes ok: "heap_ok c" and r: "PodTerminated gv t c eid n ph = Ret (c', r)"
  shows "PodTerminated gv t' c' eid n ph' = Ret (c', r)"
  using r
proof (cases rule: PodTerminated_cases)
  case (unknown nf)
  then show ?thesis by (simp add: PodTerminated_def)
next
  case (again pa)
  then show ?thesis by (simp add: PodTerminated_def Let_def)
next
  case (first pa pr)
  from first(1) obtain e where e: "executions c eid = Some e" "ex_pods (heap_ex c ! e) n = Some pa"
    by (auto simp: podForID_Inr)
  have "pa < length (heap_pod c)" using heap_ok_pod [OF ok _ e(2)] heap_ok_execution [OF ok e(1)] by blast
  moreover have "podForID c' eid n = Inr pa"
    using e by (simp add: first(4) podForID_Inr)
  ultimately show ?thesis
    using first by (simp add: PodTerminated_def Let_def)
qed

interpretation ps: pod_sink heap_ok "PodTerminated gv"
proof unfold_locales
  fix t c e n ph c' x
  assume "PodTerminated gv t c e n ph = Ret (c', Some x)"
  then show "c' = c \<and> (\<exists>nf. x = ExecutionIDNotFound nf)"
    by (cases rule: PodTerminated_cases) auto
next
  fix c t e n ph c' r t' ph'
  assume "heap_ok c" and "PodTerminated gv t c e n ph = Ret (c', r)"
  then show "PodTerminated gv t' c' e n ph' = Ret (c', r)" by (rule PodTerminated_again)
next
  fix c t e n ph c' r
  assume "heap_ok c" and "PodTerminated gv t c e n ph = Ret (c', r)"
  then show "heap_ok c'" by (rule heap_ok_PodTerminated)
qed

interpretation lc: lifecycle_controller heap_ok "PodTerminated gv" Has "ReportReceived gv"
proof unfold_locales
  fix t c e n ph c' r
  assume "PodTerminated gv t c e n ph = Ret (c', r)"
  then show "Has c' = Has c" by (simp add: fun_eq_iff Has_def PodTerminated_effect)
next
  fix t c e n b rs c'
  assume "ReportReceived gv t c e n b rs = Ret c'"
  then show "Has c' = Has c" by (simp add: fun_eq_iff Has_def ReportReceived_effect)
next
  fix c t e n b rs c'
  assume "heap_ok c" and "ReportReceived gv t c e n b rs = Ret c'"
  then show "heap_ok c'" by (rule heap_ok_ReportReceived)
qed

end
