(* ===== verification/Lifecycle_Properties.thy ===== *)
theory Lifecycle_Properties
  imports Lifecycle_Laws Metrics_Properties
begin

text \<open>
  The properties of single operations of the lifecycle controller: what a termination and a
  report record, progress, the identifiers and directories of executions, and the retention
  of reports in \<open>AllAdded\<close>. The runs of the worker pool are in \<open>Pool\<close>.
\<close>

section \<open>Recording on the collector\<close>

lemma ProcessingFinished_series:
  assumes "col_ok gv c" and "ProcessingFinished gv c n e b = Ret c'"
  shows "col_ok gv c'" and "latestMetric c' = latestMetric c"
    and "series gv c' j = (if j = MProc
        then node_update (latestMetric c) n e (if b then Fin 1 else Fin 0) (series gv c j) else series gv c j)"
  using assms node_metric_step [OF assms(1), of MProc "procErrorGauge c" n e "if b then Fin 1 else Fin 0"]
  by (auto simp: ProcessingFinished_Ret)

lemma Duration_series:
  assumes "col_ok gv c" and "Duration gv c n e d = Ret c'"
  shows "col_ok gv c'" and "latestMetric c' = latestMetric c"
    and "series gv c' j = (if j = MDur
        then node_update (latestMetric c) n e d (series gv c j) else series gv c j)"
  using assms node_metric_step [OF assms(1), of MDur "durationGauge c" n e d]
  by (auto simp: Duration_Ret)

lemma node_update_same [simp]: "node_update l n e v f [n, e] = (if l \<and> e = labelValueLatest then Some v else Some v)"
  by (simp add: node_update_def)

lemma MetricFor_builtin:
  assumes ok: "col_ok gv c" and r: "MetricFor gv c e n k res = Ret c'" and j: "j \<in> {MProc, MDur}"
  shows "series gv c' j = series gv c j"
proof (cases "map_of (gauges c) k")
  case None
  with r show ?thesis by (simp add: MetricFor_unknown)
next
  case (Some g)
  have ne: "metric_of c (MCustom k) \<noteq> None" using Some by simp
  obtain m h where c': "c' = set_metric (MCustom k) m h c"
    using r Some by (auto simp: MetricFor_def Let_def set_metric_def split: if_splits)
  then show ?thesis
    using j metric_of_set_metric [OF ne, of m h j] by (auto simp: series_def fun_eq_iff)
qed

lemma record_results_ok:
  assumes "record_results gv e n rs c = Ret c'" and "col_ok gv c"
  shows "col_ok gv c'" and "latestMetric c' = latestMetric c"
    and "j \<in> {MProc, MDur} \<Longrightarrow> series gv c' j = series gv c j"
proof -
  have "col_ok gv c' \<and> latestMetric c' = latestMetric c
      \<and> (j \<in> {MProc, MDur} \<longrightarrow> series gv c' j = series gv c j)"
    using assms
  proof (induction gv e n rs c rule: record_results.induct)
    case (3 gv e n k r rr rs c)
    then obtain c1 where c1: "MetricFor gv c e n k r = Ret c1"
      and c2: "record_results gv e n ((k, rr) # rs) c1 = Ret c'" by auto
    note m = MetricFor_ok [OF "3.prems"(2) c1]
    from "3.IH" [OF c2] m MetricFor_builtin [OF "3.prems"(2) c1, of j] show ?case by auto
  qed auto
  then show "col_ok gv c'" and "latestMetric c' = latestMetric c"
    and "j \<in> {MProc, MDur} \<Longrightarrow> series gv c' j = series gv c j" by blast+
qed

section \<open>A controller for the witnesses\<close>

definition sample_controller :: "Config \<Rightarrow> ((string \<times> string \<times> string list) \<times> (string list \<rightharpoonup> float64)) controller" where
  "sample_controller cfg = NewController cfg (sample_collector cfg)"

definition sample_clock :: clock where
  "sample_clock = \<lparr>now = 5000000000, wall = \<lparr>c_year = 2024, c_month = 5, c_day = 17, c_hour = 9, c_minute = 30\<rparr>\<rparr>"

definition sample_fs :: fs where
  "sample_fs = \<lparr>fs_tab = [((True, [''var'']), \<lparr>i_kind = Dir, i_mtime = 1\<rparr>),
     ((True, [''var'', ''www'']), \<lparr>i_kind = Dir, i_mtime = 1\<rparr>)], fs_ro = []\<rparr>"

text \<open>The state after \<open>e1\<close> was registered with one pod on \<open>n1\<close>, which its worker started at time 1000000.\<close>

definition started_controller :: "Config \<Rightarrow> ((string \<times> string \<times> string list) \<times> (string list \<rightharpoonup> float64)) controller" where
  "started_controller cfg = (sample_controller cfg)
     \<lparr>executions := [''e1'' \<mapsto> 0], nodes := [''n1'' \<mapsto> True],
      heap_ex := [\<lparr>ex_id = ''e1'', ex_pods = [''n1'' \<mapsto> 0], chan_buf = [], chan_cap = 2,
                   chan_closed = False,
                   ex_workers = [WWait \<lparr>job_ID = ''e1'', job_Node = ''n1''\<rparr> 0, WIdle]\<rparr>],
      heap_pod := [\<lparr>pod_node = ''n1'', started = 1000000, terminated = None, reportReceived = None,
                    status = ''Started''\<rparr>]\<rparr>"

lemma started_controller_ok: "heap_ok (started_controller cfg)"
  by (auto simp: heap_ok_def started_controller_def)

lemma sample_col_ok: "col_ok map_gauge_vec (sample_collector sample_cfg)"
  using NewPromCollector_ok [OF gauge_laws_map_gauge_vec sample_new(1)] by simp

lemma started_prom [simp]: "prom (started_controller cfg) = sample_collector cfg"
  by (simp add: started_controller_def sample_controller_def NewController_def)

lemma started_podForID: "podForID (started_controller cfg) ''e1'' ''n1'' = Inr 0"
  by (simp add: podForID_def forID_def ex_pod_def started_controller_def)

lemma PodTerminated_returns:
  assumes wf: "col_wf gv (prom c)" and u: "list_all (gv_utf8 gv) [n, eid, labelValueLatest]"
  shows "\<exists>c' r. PodTerminated gv t c eid n ph = Ret (c', r) \<and> col_wf gv (prom c')"
proof (cases "podForID c eid n")
  case (Inl x)
  then show ?thesis using wf by (simp add: PodTerminated_def)
next
  case (Inr pa)
  let ?d = "f_of_int (duration_Milliseconds (time_Sub t (started (heap_pod c ! pa))))"
  obtain h1 m1 where d: "set_node_metric gv (latestMetric (prom c)) (slices (prom c), durationGauge (prom c)) n eid ?d = Ret (h1, m1)"
    and wf1: "col_wf gv (set_metric MDur m1 h1 (prom c))"
    using node_metric_returns [OF wf, of MDur "durationGauge (prom c)" n eid ?d] u by auto
  let ?p1 = "set_metric MDur m1 h1 (prom c)"
  have D: "Duration gv (prom c) n eid ?d = Ret ?p1" unfolding Duration_Ret using d by blast
  obtain h2 m2 where "set_node_metric gv (latestMetric ?p1) (slices ?p1, procErrorGauge ?p1) n eid (Fin 1) = Ret (h2, m2)"
    and "col_wf gv (set_metric MProc m2 h2 ?p1)"
    using node_metric_returns [OF wf1, of MProc "procErrorGauge ?p1" n eid "Fin 1"] u by auto
  then obtain p2 where "ProcessingFinished gv ?p1 n eid True = Ret p2" "col_wf gv p2"
    unfolding ProcessingFinished_Ret by auto
  with Inr D wf wf1 show ?thesis by (auto simp: PodTerminated_def Let_def)
qed

lemma sample_col_wf: "col_wf map_gauge_vec (sample_collector sample_cfg)"
  by (rule col_wf_new [OF gauge_laws_map_gauge_vec sample_new(1)])

lemma started_returns:
  "\<exists>c' r. PodTerminated map_gauge_vec t (started_controller sample_cfg) eid n ph = Ret (c', r)"
  using PodTerminated_returns [of map_gauge_vec "started_controller sample_cfg" n eid t ph] sample_col_wf by auto

lemma PodTerminated_first:
  assumes col: "col_ok gv (prom c)"
    and pod: "podForID c eid n = Inr pa" and nt: "terminated (heap_pod c ! pa) = None"
    and r: "PodTerminated gv t c eid n ph = Ret (c', res)"
  shows "res = None" and "col_ok gv (prom c')"
    and "heap_pod c' = (heap_pod c)[pa := (heap_pod c ! pa)\<lparr>terminated := Some t, status := ph\<rparr>]"
    and "progress c' = progress c + 1"
    and "series gv (prom c') MDur = node_update (latestMetric (prom c)) n eid
          (f_of_int (duration_Milliseconds (time_Sub t (started (heap_pod c ! pa))))) (series gv (prom c) MDur)"
    and "series gv (prom c') MProc =
          (if ph = PodSucceeded \<and> reportReceived (heap_pod c ! pa) \<noteq> None then series gv (prom c) MProc
           else node_update (latestMetric (prom c)) n eid (Fin 1) (series gv (prom c) MProc))"
proof -
  let ?d = "f_of_int (duration_Milliseconds (time_Sub t (started (heap_pod c ! pa))))"
  obtain p1 where d: "Duration gv (prom c) n eid ?d = Ret p1"
    using r pod nt by (auto simp: PodTerminated_def Let_def)
  note D = Duration_series [OF col d]
  define fin where "fin \<longleftrightarrow> ph = PodSucceeded \<and> reportReceived (heap_pod c ! pa) \<noteq> None"
  obtain p2 where p2: "if fin then p2 = p1 else ProcessingFinished gv p1 n eid True = Ret p2"
    and c': "c' = (upd_pod pa (\<lambda>p. p\<lparr>terminated := Some t, status := ph\<rparr>) (addProgress 1 c))\<lparr>prom := p2\<rparr>"
    and res: "res = None"
    using r pod nt d by (cases fin) (auto simp: PodTerminated_def Let_def fin_def)
  note P = ProcessingFinished_series [OF D(1), of n eid True p2]
  show "res = None" by (rule res)
  show "col_ok gv (prom c')" using p2 D P by (cases fin) (simp_all add: c')
  show "heap_pod c' = (heap_pod c)[pa := (heap_pod c ! pa)\<lparr>terminated := Some t, status := ph\<rparr>]"
    and "progress c' = progress c + 1"
    by (simp_all add: c' upd_pod_def addProgress_def)
  show "series gv (prom c') MDur = node_update (latestMetric (prom c)) n eid ?d (series gv (prom c) MDur)"
    using p2 D P by (cases fin) (simp_all add: c')
  have "series gv (prom c') MProc = (if fin then series gv (prom c) MProc
           else node_update (latestMetric (prom c)) n eid (Fin 1) (series gv (prom c) MProc))"
    using p2 D P by (cases fin) (simp_all add: c')
  then show "series gv (prom c') MProc =
          (if ph = PodSucceeded \<and> reportReceived (heap_pod c ! pa) \<noteq> None then series gv (prom c) MProc
           else node_update (latestMetric (prom c)) n eid (Fin 1) (series gv (prom c) MProc))"
    unfolding fin_def .
qed

lemma ReportReceived_known:
  assumes col: "col_ok gv (prom c)" and pod: "podForID c eid n = Inr pa"
    and r: "ReportReceived gv t c eid n b rs = Ret c'"
  shows "col_ok gv (prom c')"
    and "heap_pod c' = (heap_pod c)[pa := (heap_pod c ! pa)\<lparr>reportReceived := Some t, status := ''ReportReceived''\<rparr>]"
    and "series gv (prom c') MProc =
      node_update (latestMetric (prom c)) n eid (if b then Fin 1 else Fin 0) (series gv (prom c) MProc)"
    and "podForID c' eid n = Inr pa"
proof -
  obtain p1 where p1: "record_results gv eid n rs (prom c) = Ret p1"
    using r by (auto simp: ReportReceived_def)
  then obtain p2 where p2: "ProcessingFinished gv p1 n eid b = Ret p2"
    and c': "c' = upd_pod pa (\<lambda>p. p\<lparr>reportReceived := Some t, status := ''ReportReceived''\<rparr>) (c\<lparr>prom := p2\<rparr>)"
    using r pod by (auto simp: ReportReceived_def Let_def podForID_def forID_def ex_pod_def
        split: option.splits sum.splits)
  note R = record_results_ok(1,2) [OF p1 col] record_results_ok(3) [OF p1 col, of MProc]
  note P = ProcessingFinished_series [OF R(1) p2]
  show "col_ok gv (prom c')" using P by (simp add: c')
  show "heap_pod c' = (heap_pod c)[pa := (heap_pod c ! pa)\<lparr>reportReceived := Some t, status := ''ReportReceived''\<rparr>]"
    by (simp add: c' upd_pod_def)
  show "series gv (prom c') MProc =
      node_update (latestMetric (prom c)) n eid (if b then Fin 1 else Fin 0) (series gv (prom c) MProc)"
    using P(3) [of MProc] R by (simp add: c')
  show "podForID c' eid n = Inr pa" using pod by (simp add: c' podForID_Inr)
qed

lemma podForID_allocated: "heap_ok c \<Longrightarrow> podForID c eid n = Inr pa \<Longrightarrow> pa < length (heap_pod c)"
  by (auto simp: podForID_Inr dest: heap_ok_execution heap_ok_pod)

lemma ReportReceived_returns:
  assumes wf: "col_wf gv (prom c)" and u: "list_all (gv_utf8 gv) [n, eid, labelValueLatest]"
  shows "\<exists>c'. ReportReceived gv t c eid n b [] = Ret c' \<and> col_wf gv (prom c')"
proof -
  obtain h m where "set_node_metric gv (latestMetric (prom c)) (slices (prom c), procErrorGauge (prom c)) n eid
      (if b then Fin 1 else Fin 0) = Ret (h, m)" "col_wf gv (set_metric MProc m h (prom c))"
    using node_metric_returns [OF wf, of MProc "procErrorGauge (prom c)" n eid] u by fastforce
  then obtain p where "ProcessingFinished gv (prom c) n eid b = Ret p" "col_wf gv p"
    unfolding ProcessingFinished_Ret by blast
  then show ?thesis
    by (simp add: ReportReceived_def Let_def split: sum.splits)
qed

section \<open>Terminations and reports\<close>

text \<open>
  The first termination of a registered pod. It is stored with its phase, counts one
  step of progress, sets the duration of the node to the milliseconds since the start, and
  flags the node unless the pod succeeded and its report was received before.
\<close>

theorem podTerminated_first:
  assumes "col_ok gv (prom c)" and "podForID c eid n = Inr pa" and "terminated (heap_pod c ! pa) = None"
    and "PodTerminated gv t c eid n ph = Ret (c', res)"
  shows "res = None
    \<and> heap_pod c' = (heap_pod c)[pa := (heap_pod c ! pa)\<lparr>terminated := Some t, status := ph\<rparr>]
    \<and> progress c' = progress c + 1
    \<and> series gv (prom c') MDur = node_update (latestMetric (prom c)) n eid
          (f_of_int (duration_Milliseconds (time_Sub t (started (heap_pod c ! pa))))) (series gv (prom c) MDur)
    \<and> series gv (prom c') MProc =
          (if ph = PodSucceeded \<and> reportReceived (heap_pod c ! pa) \<noteq> None then series gv (prom c) MProc
           else node_update (latestMetric (prom c)) n eid (Fin 1) (series gv (prom c) MProc))"
  using PodTerminated_first [OF assms] by blast

theorem podTerminated_first_witness:
  "\<exists>c' res. PodTerminated map_gauge_vec 8000000 (started_controller sample_cfg) ''e1'' ''n1'' PodSucceeded = Ret (c', res)
    \<and> res = None \<and> progress c' = 1
    \<and> series map_gauge_vec (prom c') MProc [''n1'', ''e1''] = Some (Fin 1)
    \<and> series map_gauge_vec (prom c') MDur [''n1'', ''e1''] = Some (f_of_int 7)"
proof -
  let ?c = "started_controller sample_cfg"
  obtain c' res where r: "PodTerminated map_gauge_vec 8000000 ?c ''e1'' ''n1'' PodSucceeded = Ret (c', res)"
    using started_returns by blast
  have nt: "terminated (heap_pod ?c ! 0) = None" and st: "started (heap_pod ?c ! 0) = 1000000"
    "reportReceived (heap_pod ?c ! 0) = None" "progress ?c = 0"
    by (simp_all add: started_controller_def sample_controller_def NewController_def)
  have ms: "duration_Milliseconds (time_Sub 8000000 1000000) = 7"
    by (simp add: duration_Milliseconds_def time_Sub_def max_int64_def min_int64_def)
  show ?thesis
    using r podTerminated_first [OF _ started_podForID nt r] st ms sample_col_ok by auto
qed

text \<open>
  C19. A termination is counted once: whatever the first notification of an execution and node
  did, a second one, at any time and with any phase, returns the same result and changes
  nothing (the reconciler may deliver an event any number of times).
\<close>

theorem podTerminated_idempotent:
  assumes "heap_ok c" and "PodTerminated gv t c eid n ph = Ret (c', r)"
  shows "PodTerminated gv t' c' eid n ph' = Ret (c', r)"
  by (rule ps.podTerminated_again [OF assms])

theorem podTerminated_idempotent_witness:
  "\<exists>c'. PodTerminated map_gauge_vec 8 (started_controller sample_cfg) ''e1'' ''n1'' PodFailed = Ret (c', None)
     \<and> PodTerminated map_gauge_vec 9 c' ''e1'' ''n1'' PodSucceeded = Ret (c', None)"
proof -
  let ?c = "started_controller sample_cfg"
  obtain c' r where r: "PodTerminated map_gauge_vec 8 ?c ''e1'' ''n1'' PodFailed = Ret (c', r)"
    using started_returns by blast
  have nt: "terminated (heap_pod ?c ! 0) = None" by (simp add: started_controller_def)
  have "r = None" using PodTerminated_first(1) [OF _ started_podForID nt r] sample_col_ok by simp
  with r podTerminated_idempotent [OF started_controller_ok r, of 9 PodSucceeded] show ?thesis by blast
qed

text \<open>
  The report before the termination: the node ends flagged exactly if the report could
  not be processed or the pod did not succeed.
\<close>

theorem report_then_terminated:
  assumes "heap_ok c" and "col_ok gv (prom c)" and "podForID c eid n = Inr pa"
    and "terminated (heap_pod c ! pa) = None"
    and "ReportReceived gv t1 c eid n b rs = Ret c1" and "PodTerminated gv t2 c1 eid n ph = Ret (c2, r)"
  shows "series gv (prom c2) MProc [n, eid] = Some (if b \<or> ph \<noteq> PodSucceeded then Fin 1 else Fin 0)"
proof -
  note R = ReportReceived_known [OF assms(2,3,5)]
  have "pa < length (heap_pod c)" using podForID_allocated [OF assms(1,3)] .
  then have p: "terminated (heap_pod c1 ! pa) = None" "reportReceived (heap_pod c1 ! pa) \<noteq> None"
    using R(2) assms(4) by simp_all
  show ?thesis
    using PodTerminated_first(6) [OF R(1,4) p(1) assms(6)] R(3) p(2) by auto
qed

theorem report_then_terminated_witness:
  "\<exists>c1 c2 r. ReportReceived map_gauge_vec 7 (started_controller sample_cfg) ''e1'' ''n1'' False [] = Ret c1
     \<and> PodTerminated map_gauge_vec 8 c1 ''e1'' ''n1'' PodSucceeded = Ret (c2, r)
     \<and> series map_gauge_vec (prom c2) MProc [''n1'', ''e1''] = Some (Fin 0)"
proof -
  let ?c = "started_controller sample_cfg"
  have u: "list_all (gv_utf8 map_gauge_vec) xs" for xs by (simp add: list_all_iff)
  have nt: "terminated (heap_pod ?c ! 0) = None" by (simp add: started_controller_def)
  obtain c1 where c1: "ReportReceived map_gauge_vec 7 ?c ''e1'' ''n1'' False [] = Ret c1"
    and "col_wf map_gauge_vec (prom c1)"
    using ReportReceived_returns [of map_gauge_vec ?c "''n1''" "''e1''" 7 False] sample_col_wf u by auto
  then obtain c2 r where c2: "PodTerminated map_gauge_vec 8 c1 ''e1'' ''n1'' PodSucceeded = Ret (c2, r)"
    using PodTerminated_returns u by blast
  show ?thesis
    using c1 c2 report_then_terminated [OF started_controller_ok _ started_podForID nt c1 c2] sample_col_ok by auto
qed

text \<open>
  The report after the termination: the node ends with what the report says, even if the
  pod had failed; the failure recorded by the termination is overwritten.
\<close>

theorem terminated_then_report:
  assumes "col_ok gv (prom c)" and "podForID c eid n = Inr pa"
    and "terminated (heap_pod c ! pa) = None"
    and "PodTerminated gv t1 c eid n ph = Ret (c1, r)" and "ReportReceived gv t2 c1 eid n b rs = Ret c2"
  shows "series gv (prom c2) MProc [n, eid] = Some (if b then Fin 1 else Fin 0)"
proof -
  have "podForID c1 eid n = Inr pa"
    using assms(2) by (simp add: podForID_Inr PodTerminated_effect [OF assms(4)])
  then show ?thesis
    using ReportReceived_known(3) [OF PodTerminated_first(2) [OF assms(1-4)] _ assms(5)] by auto
qed

theorem terminated_then_report_witness:
  "\<exists>c1 c2 r. PodTerminated map_gauge_vec 7 (started_controller sample_cfg) ''e1'' ''n1'' PodFailed = Ret (c1, r)
     \<and> ReportReceived map_gauge_vec 8 c1 ''e1'' ''n1'' False [] = Ret c2
     \<and> series map_gauge_vec (prom c2) MProc [''n1'', ''e1''] = Some (Fin 0)"
proof -
  let ?c = "started_controller sample_cfg"
  have u: "list_all (gv_utf8 map_gauge_vec) xs" for xs by (simp add: list_all_iff)
  have nt: "terminated (heap_pod ?c ! 0) = None" by (simp add: started_controller_def)
  obtain c1 r where c1: "PodTerminated map_gauge_vec 7 ?c ''e1'' ''n1'' PodFailed = Ret (c1, r)"
    and wf: "col_wf map_gauge_vec (prom c1)"
    using PodTerminated_returns [of map_gauge_vec ?c "''n1''" "''e1''" 7 PodFailed] sample_col_wf u by auto
  obtain c2 where c2: "ReportReceived map_gauge_vec 8 c1 ''e1'' ''n1'' False [] = Ret c2"
    using ReportReceived_returns [OF wf u] by blast
  show ?thesis
    using c1 c2 terminated_then_report [OF _ started_podForID nt c1 c2] sample_col_ok by auto
qed

end
