(* ===== verification/Executions.thy ===== *)
theory Executions
  imports Lifecycle_Properties
begin

text \<open>
  The life of an execution in the controller: its identifier and workers (\<open>NewExecution\<close>), its
  progress, its directory and the \<open>latest\<close> link, and the retention of reports (\<open>AllAdded\<close>).
\<close>

section \<open>Progress\<close>

lemma f_round_within:
  assumes "lo \<le> x" "x \<le> hi" "0 < lo" "1 / 2 ^ 100 \<le> lo" "hi \<le> 2 ^ 100"
  shows "\<exists>y. f_round x = Fin y \<and> lo * (9999 / 10000) \<le> y \<and> y \<le> hi * (10001 / 10000)"
proof -
  have "mid_range x" using assms by (simp add: mid_range_def)
  then obtain y where y: "f_round x = Fin y" "x * (9999 / 10000) \<le> y" "y \<le> x * (10001 / 10000)"
    by (rule f_round_mid)
  with assms have "lo * (9999 / 10000) \<le> y" "y \<le> hi * (10001 / 10000)" by linarith+
  with y show ?thesis by blast
qed

definition pod_limit :: int where "pod_limit = 2 ^ 60"

text \<open>The step: \<open>100 / (jobs * 3)\<close> within four parts in ten thousand.\<close>

lemma progress_step:
  assumes "1 \<le> jobs" "jobs \<le> pod_limit"
  shows "\<exists>d. f_div (Fin 100) (f_mul (f_of_int jobs) (Fin 3)) = Fin d
    \<and> 9996 / 10000 * (100 / (3 * of_int jobs)) \<le> d \<and> d \<le> 10004 / 10000 * (100 / (3 * of_int jobs))"
proof -
  define j where "j = (of_int jobs :: rat)"
  have j1: "1 \<le> j" using assms(1) by (simp add: j_def)
  have "of_int jobs \<le> (of_int (2 ^ 60) :: rat)" using assms(2) unfolding pod_limit_def of_int_le_iff .
  then have j2: "j \<le> 2 ^ 60" by (simp add: j_def)
  obtain a where a: "f_of_int jobs = Fin a" "j * (9999 / 10000) \<le> a" "a \<le> j * (10001 / 10000)"
    using f_round_within [of j j j] j1 j2 by (auto simp: f_of_int_def j_def [symmetric])
  have apos: "0 < a" using a(2) j1 by linarith
  obtain b where b: "f_round (a * 3) = Fin b" "j * (9999 / 10000) * 3 * (9999 / 10000) \<le> b"
    "b \<le> j * (10001 / 10000) * 3 * (10001 / 10000)"
    using f_round_within [of "j * (9999 / 10000) * 3" "a * 3" "j * (10001 / 10000) * 3"] a j1 j2 by auto
  have bl: "3 * j * (99980001 / 100000000) \<le> b" and bh: "b \<le> 3 * j * (100020001 / 100000000)"
    using b(2,3) by simp_all
  have bpos: "0 < b" using bl j1 by linarith
  let ?q = "100 / (3 * j)"
  have qpos: "0 < ?q" using j1 by simp
  have lo: "?q * (100000000 / 100020001) \<le> 100 / b"
    using bh bpos j1 by (simp add: field_simps)
  have hi: "100 / b \<le> ?q * (100000000 / 99980001)"
    using bl bpos j1 by (simp add: field_simps)
  have q1: "?q \<le> 100" using j1 by (simp add: field_simps)
  have "100 / (3 * 2 ^ 60) \<le> ?q" using j1 j2 by (intro divide_left_mono) auto
  then have q2: "1 / 2 ^ 90 \<le> ?q * (100000000 / 100020001)" by simp
  obtain d where d: "f_round (100 / b) = Fin d" "?q * (100000000 / 100020001) * (9999 / 10000) \<le> d"
    "d \<le> ?q * (100000000 / 99980001) * (10001 / 10000)"
    using f_round_within [OF lo hi] qpos q1 q2 by auto
  have "f_div (Fin 100) (f_mul (f_of_int jobs) (Fin 3)) = Fin d"
    using a(1) b(1) d(1) bpos by simp
  moreover have "9996 / 10000 * q \<le> d" if "q * (100000000 / 100020001) * (9999 / 10000) \<le> d" "0 < q" for q
    using that by linarith
  moreover have "d \<le> 10004 / 10000 * q" if "d \<le> q * (100000000 / 99980001) * (10001 / 10000)" "0 < q" for q
    using that by linarith
  ultimately show ?thesis using d(2,3) qpos unfolding j_def by blast
qed

lemma progress_complete:
  assumes j: "1 \<le> jobs" "jobs \<le> pod_limit" and s: "progressStep c = f_div (Fin 100) (f_mul (f_of_int jobs) (Fin 3))"
    and p: "uint (progress c) = 3 * jobs"
  shows "getProgress c = ''100%''"
proof -
  define k where "k = (of_int (3 * jobs) :: rat)"
  have k1: "1 \<le> k" using j(1) by (simp add: k_def)
  have "of_int jobs \<le> (of_int (2 ^ 60) :: rat)" using j(2) unfolding pod_limit_def of_int_le_iff .
  then have k2: "k \<le> 3 * 2 ^ 60" by (simp add: k_def)
  obtain d where d: "progressStep c = Fin d" "9996 / 10000 * (100 / k) \<le> d" "d \<le> 10004 / 10000 * (100 / k)"
    using progress_step [OF j] s by (auto simp: k_def)
  obtain f where f: "f_of_int (3 * jobs) = Fin f" "k * (9999 / 10000) \<le> f" "f \<le> k * (10001 / 10000)"
    using f_round_within [of k k k] k1 k2 by (auto simp: f_of_int_def k_def)
  have qpos: "0 < 100 / k" using k1 by simp
  have fpos: "0 < f" using f(2) k1 by linarith
  have dpos: "0 < d" using d(2) qpos by linarith
  have "9996 / 10000 * (100 / k) * (k * (9999 / 10000)) \<le> d * f"
    using d(2) f(2) dpos k1 by (intro mult_mono) auto
  then have lo: "999500 / 10000 \<le> d * f" using k1 by simp
  have "d * f \<le> 10004 / 10000 * (100 / k) * (k * (10001 / 10000))"
    using d(3) f(3) fpos qpos by (intro mult_mono) auto
  then have hi: "d * f \<le> 1000600 / 10000" using k1 by simp
  obtain y where y: "f_round (d * f) = Fin y" "999500 / 10000 * (9999 / 10000) \<le> y" "y \<le> 1000600 / 10000 * (10001 / 10000)"
    using f_round_within [OF lo hi] by auto
  have "round_half_even y = 100"
  proof (rule round_half_even_near)
    show "\<bar>y - of_int 100\<bar> < 1 / 2" using y(2,3) unfolding abs_less_iff by simp
  qed
  moreover have "nat_str 100 = ''100''" by code_simp
  ultimately show ?thesis
    using d(1) f(1) p y by (simp add: getProgress_def)
qed

section \<open>New executions\<close>

lemma NewExecution_cases:
  assumes "NewExecution gv w clk c s jobs = Ret (eid, c', s')"
  obtains pr where "eid = time_Format_id (wall clk)" "0 \<le> podPoolSize c"
    "c' = c\<lparr>executions := (executions c)(eid \<mapsto> length (heap_ex c)),
            heap_ex := heap_ex c @ [new_execution (podPoolSize c) eid],
            progressStep := f_div (Fin 100) (f_mul (f_of_int jobs) (Fin 3)), progress := 0, prom := pr\<rparr>"
    "s' = prepare_dirs w (now clk) (reportDir c) eid s"
  using assms by (auto simp: NewExecution_def Let_def split: if_splits)

lemma new_execution_simps [simp]:
  "ex_id (new_execution n eid) = eid" "ex_pods (new_execution n eid) = Map.empty"
  "chan_buf (new_execution n eid) = []" "chan_cap (new_execution n eid) = nat n"
  "chan_closed (new_execution n eid) = False" "ex_workers (new_execution n eid) = replicate (nat n) WIdle"
  by (simp_all add: new_execution_def)

lemma heap_ok_new:
  assumes ok: "heap_ok c"
    and c': "executions c' = (executions c)(eid \<mapsto> length (heap_ex c))"
      "heap_ex c' = heap_ex c @ [new_execution n eid]" "heap_pod c' = heap_pod c"
  shows "heap_ok c'"
  unfolding heap_ok_def
proof (intro conjI allI impI)
  fix i e
  assume "executions c' i = Some e"
  then show "e < length (heap_ex c')" and "ex_id (heap_ex c' ! e) = i"
    using c' heap_ok_execution [OF ok, of i e] by (auto simp: nth_append split: if_splits)
next
  fix e m p
  assume e: "e < length (heap_ex c')" "ex_pods (heap_ex c' ! e) m = Some p"
  then have "e < length (heap_ex c)" and "ex_pods (heap_ex c ! e) m = Some p"
    using c' by (auto simp: nth_append less_Suc_eq split: if_splits)
  from heap_ok_pod [OF ok this] show "p < length (heap_pod c')" and "pod_node (heap_pod c' ! p) = m"
    using c' by simp_all
next
  fix e1 e2 n1 n2 p
  assume a: "e1 < length (heap_ex c')" "e2 < length (heap_ex c')" "ex_pods (heap_ex c' ! e1) n1 = Some p"
    "ex_pods (heap_ex c' ! e2) n2 = Some p"
  have "e < length (heap_ex c) \<and> ex_pods (heap_ex c ! e) m = Some p"
    if "e < length (heap_ex c')" "ex_pods (heap_ex c' ! e) m = Some p" for e m
    using that c' by (auto simp: nth_append less_Suc_eq split: if_splits)
  with a show "e1 = e2" using heap_ok_unique [OF ok] by blast
qed

lemma NewExecution_ok:
  assumes "heap_ok c" and "NewExecution gv w clk c s jobs = Ret (eid, c', s')"
  shows "heap_ok c'"
  using assms(2) by (rule NewExecution_cases) (rule heap_ok_new [OF assms(1)], simp_all)

lemma NewExecution_lookup:
  assumes ok: "heap_ok c" and r: "NewExecution gv w clk c s jobs = Ret (eid, c', s')"
  shows "podForID c' i n = (if i = eid then Inl (ExecutionIDNotFound (NoPod n)) else podForID c i n)"
  using r
proof (rule NewExecution_cases)
  fix pr
  assume "c' = c\<lparr>executions := (executions c)(eid \<mapsto> length (heap_ex c)),
            heap_ex := heap_ex c @ [new_execution (podPoolSize c) eid],
            progressStep := f_div (Fin 100) (f_mul (f_of_int jobs) (Fin 3)), progress := 0, prom := pr\<rparr>"
  then show ?thesis
    using heap_ok_execution [OF ok, of i]
    by (auto simp: podForID_def forID_def ex_pod_def nth_append split: option.splits)
qed

lemma NewExecution_returns_wf:
  assumes p: "0 \<le> podPoolSize c" and laws: "gauge_laws gv" and wf: "col_wf gv (prom c)"
  shows "\<exists>eid c' s'. NewExecution gv w clk c s jobs = Ret (eid, c', s') \<and> col_wf gv (prom c')"
proof -
  have st: "\<exists>q. ExecutionStarted gv (Pods gv (prom c) x) f = Ret q \<and> col_wf gv q" for x f
  proof -
    have pw: "col_wf gv (Pods gv (prom c) x)"
      using wf by (auto simp: Pods_def col_wf_def metric_of_frame split: option.splits)
    then have "vec_arity gv (executionIDGauge (Pods gv (prom c) x)) = 0" by (simp add: col_wf_def)
    then obtain g where g: "gv_set gv (executionIDGauge (Pods gv (prom c) x)) [] f = Some g"
      using gauge_lawsD(7) [OF laws, of _ "[]" f] by (fastforce simp: vec_arity_def)
    with pw gauge_lawsD(4) [OF laws g] show ?thesis
      by (auto simp: ExecutionStarted_def col_wf_def metric_of_frame vec_arity_def)
  qed
  define eid where "eid = time_Format_id (wall clk)"
  define f where "f = (case strconv_ParseFloat eid of None \<Rightarrow> Fin 0 | Some f \<Rightarrow> f)"
  obtain q where "ExecutionStarted gv (Pods gv (prom c) (f_of_int jobs)) f = Ret q" "col_wf gv q"
    using st by blast
  then show ?thesis using p by (simp add: NewExecution_def Let_def eid_def f_def)
qed

lemma NewExecution_returns:
  assumes "0 \<le> podPoolSize c" and "gauge_laws gv" and "col_wf gv (prom c)"
  shows "\<exists>eid c' s'. NewExecution gv w clk c s jobs = Ret (eid, c', s')"
  using NewExecution_returns_wf [OF assms] by blast

section \<open>Retention\<close>

text \<open>\<open>slices.SortFunc\<close> by modification time: a permutation in ascending order.\<close>

definition sort_law :: "(dir_entry list \<Rightarrow> dir_entry list) \<Rightarrow> bool" where
  "sort_law sortf \<longleftrightarrow>
     (\<forall>xs. mset (sortf xs) = mset xs \<and> sorted (map (\<lambda>f. i_mtime (de_info f)) (sortf xs)))"

lemma sort_law_sort_key: "sort_law (sort_key (\<lambda>f. i_mtime (de_info f)))"
  by (simp add: sort_law_def)

lemma sort_law_length: "sort_law sortf \<Longrightarrow> length (sortf xs) = length xs"
  unfolding sort_law_def by (metis size_mset)

lemma AllAdded_cases:
  assumes r: "AllAdded gv sortf t c s eid = Ret (c', s', err)"
  obtains (unknown) "forID c eid = Inl (ExecutionIDNotFound (NoExecution eid))" "c' = c" "s' = s"
      "err = Some (ExecutionIDNotFound (NoExecution eid))"
    | (unreadable) x e where "forID c eid = Inr e" "os_ReadDir s (reportDir c) = Inl x" "c' = c" "s' = s"
      "err = Some (OsErr x)"
    | (closed) e files n c1 where "forID c eid = Inr e" "os_ReadDir s (reportDir c) = Inr files"
      "n = (if reportHistory c < int (length (sortf files))
            then nat (wrap64 (int (length (sortf files)) - reportHistory c)) else 0)"
      "prune_files gv t n (sortf files) c s = Ret (c1, s')" "\<not> chan_closed (heap_ex c1 ! e)"
      "c' = upd_ex e (\<lambda>x. x\<lparr>chan_closed := True\<rparr>) c1" "err = None"
proof (cases "forID c eid")
  case (Inl x)
  then have x: "x = ExecutionIDNotFound (NoExecution eid)" by (auto simp: forID_def split: option.splits)
  with Inl r have "c' = c" "s' = s" "err = Some x" by (simp_all add: AllAdded_def)
  with Inl x show thesis by (intro unknown) simp_all
next
  case e: (Inr e)
  show thesis
  proof (cases "os_ReadDir s (reportDir c)")
    case (Inl x)
    with e r have "c' = c" "s' = s" "err = Some (OsErr x)" by (simp_all add: AllAdded_def)
    with e Inl show thesis by (intro unreadable)
  next
    case (Inr files)
    define n where "n = (if reportHistory c < int (length (sortf files))
            then nat (wrap64 (int (length (sortf files)) - reportHistory c)) else 0)"
    have "AllAdded gv sortf t c s eid = go_bind (prune_files gv t n (sortf files) c s)
        (\<lambda>(c', s'). go_bind (close_chan e c') (\<lambda>c''. Ret (c'', s', None)))"
      using e Inr by (simp add: AllAdded_def Let_def n_def)
    with r obtain c1 s1 where 1: "prune_files gv t n (sortf files) c s = Ret (c1, s1)"
      and 2: "go_bind (close_chan e c1) (\<lambda>c''. Ret (c'', s1, None)) = Ret (c', s', err)"
      by auto
    have 3: "\<not> chan_closed (heap_ex c1 ! e)" "c' = upd_ex e (\<lambda>x. x\<lparr>chan_closed := True\<rparr>) c1" "s' = s1" "err = None"
      using 2 by (auto simp: close_chan_def split: if_splits)
    have "prune_files gv t n (sortf files) c s = Ret (c1, s')" using 1 3(3) by simp
    from closed [OF e Inr n_def this 3(1,2,4)] show thesis .
  qed
qed

text \<open>
  The abstract retention: of the entries in the order of their last change, all but the newest
  \<open>h\<close> are old.
\<close>

definition old_entries :: "(dir_entry list \<Rightarrow> dir_entry list) \<Rightarrow> int \<Rightarrow> dir_entry list \<Rightarrow> dir_entry list" where
  "old_entries sortf h files = take (length files - nat h) (sortf files)"

definition kept_entries :: "(dir_entry list \<Rightarrow> dir_entry list) \<Rightarrow> int \<Rightarrow> dir_entry list \<Rightarrow> dir_entry list" where
  "kept_entries sortf h files = drop (length files - nat h) (sortf files)"

definition pruned :: "'g gauge_vec \<Rightarrow> dir_entry list \<Rightarrow> 'g Collector \<Rightarrow> 'g Collector" where
  "pruned gv = fold (\<lambda>f pr. Prune gv pr (de_name f))"

definition removed :: "instant \<Rightarrow> string \<Rightarrow> dir_entry list \<Rightarrow> fs \<Rightarrow> fs" where
  "removed t dir = fold (\<lambda>f s. snd (os_RemoveAll t s (filepath_Join [dir, de_name f])))"

lemma AllAdded_None:
  assumes sl: "sort_law sortf" and r: "AllAdded gv sortf t c s eid = Ret (c', s', None)"
    and d: "os_ReadDir s (reportDir c) = Inr files" and h: "0 \<le> reportHistory c" "int (length files) \<le> max_int64"
  defines "old \<equiv> old_entries sortf (reportHistory c) files"
  shows "executions c' = (\<lambda>x. if x \<in> de_name ` set old then None else executions c x)"
    and "prom c' = pruned gv old (prom c)" and "s' = removed t (reportDir c) old s"
    and "\<exists>e. executions c eid = Some e \<and> \<not> chan_closed (heap_ex c ! e)
      \<and> heap_ex c' = (heap_ex c)[e := (heap_ex c ! e)\<lparr>chan_closed := True\<rparr>]"
    and "heap_pod c' = heap_pod c" "nodes c' = nodes c" "progress c' = progress c" "reportDir c' = reportDir c"
proof -
  have "executions c' = (\<lambda>x. if x \<in> de_name ` set old then None else executions c x)
    \<and> prom c' = pruned gv old (prom c) \<and> s' = removed t (reportDir c) old s
    \<and> (\<exists>e. executions c eid = Some e \<and> \<not> chan_closed (heap_ex c ! e)
        \<and> heap_ex c' = (heap_ex c)[e := (heap_ex c ! e)\<lparr>chan_closed := True\<rparr>])
    \<and> heap_pod c' = heap_pod c \<and> nodes c' = nodes c \<and> progress c' = progress c \<and> reportDir c' = reportDir c"
    using r
  proof (cases rule: AllAdded_cases)
    case (closed e files' n c1)
    have f: "files' = files" using closed(2) d by simp
    have "wrap64 (int (length files) - reportHistory c) = int (length files) - reportHistory c"
      if "reportHistory c < int (length files)"
      using that h by (intro wrap64_id) (auto simp: int64_range_def max_int64_def min_int64_def)
    then have n: "n = length files - nat (reportHistory c)"
      using closed(3) h by (auto simp: f sort_law_length [OF sl])
    have t: "take n (sortf files) = old" by (simp add: old_def old_entries_def n)
    note p = prune_files_effect [OF closed(4), unfolded f t]
    have e: "executions c eid = Some e" using closed(1) by (simp add: forID_def split: option.splits)
    show ?thesis
      using p e closed(5) by (auto simp: closed(6) pruned_def removed_def upd_ex_def)
  qed auto
  then show "executions c' = (\<lambda>x. if x \<in> de_name ` set old then None else executions c x)"
    and "prom c' = pruned gv old (prom c)" and "s' = removed t (reportDir c) old s"
    and "\<exists>e. executions c eid = Some e \<and> \<not> chan_closed (heap_ex c ! e)
      \<and> heap_ex c' = (heap_ex c)[e := (heap_ex c ! e)\<lparr>chan_closed := True\<rparr>]"
    and "heap_pod c' = heap_pod c" "nodes c' = nodes c" "progress c' = progress c" "reportDir c' = reportDir c"
    by blast+
qed

lemma old_kept:
  assumes "sort_law sortf"
  shows "mset files = mset (old_entries sortf h files) + mset (kept_entries sortf h files)"
    and "length (kept_entries sortf h files) = min (length files) (nat h)"
    and "f \<in> set (old_entries sortf h files) \<Longrightarrow> k \<in> set (kept_entries sortf h files) \<Longrightarrow>
      i_mtime (de_info f) \<le> i_mtime (de_info k)"
proof -
  have m: "mset (sortf files) = mset files" and so: "sorted (map (\<lambda>f. i_mtime (de_info f)) (sortf files))"
    using assms by (simp_all add: sort_law_def)
  show "mset files = mset (old_entries sortf h files) + mset (kept_entries sortf h files)"
    using m unfolding old_entries_def kept_entries_def
    by (metis append_take_drop_id mset_append)
  show "length (kept_entries sortf h files) = min (length files) (nat h)"
    using sort_law_length [OF assms] by (simp add: kept_entries_def)
  show "f \<in> set (old_entries sortf h files) \<Longrightarrow> k \<in> set (kept_entries sortf h files) \<Longrightarrow>
      i_mtime (de_info f) \<le> i_mtime (de_info k)"
    unfolding old_entries_def kept_entries_def by (rule take_sorted_wrt_le [OF so])
qed

lemma pruned_series:
  assumes "col_ok gv c" and "k \<in> {MProc, MDur} \<or> \<not> latestMetric c"
  shows "series gv (pruned gv old c) k lvs =
    (if lvs \<noteq> [] \<and> last lvs \<in> de_name ` set old then None else series gv c k lvs)"
  using assms unfolding pruned_def
proof (induction old arbitrary: c)
  case Nil
  then show ?case by simp
next
  case (Cons f old)
  from Cons.IH [of "Prune gv c (de_name f)"] Cons.prems col_ok_Prune [OF Cons.prems(1)]
  show ?case by (auto simp: series_Prune)
qed

text \<open>What the removal of the old directories leaves on a disk that refuses nothing.\<close>

lemma RemoveAll_denied: "denied (snd (os_RemoveAll t s p)) = denied s"
  by (auto simp: os_RemoveAll_def Let_def denied_frame) (simp_all add: denied_def fun_eq_iff)

lemma removed_get:
  assumes nd: "\<And>q. \<not> denied s q" and dir: "dir \<noteq> []" and pl: "\<forall>f \<in> set old. plain_name (de_name f)"
    and di: "distinct (map de_name old)"
    and ex: "\<forall>f \<in> set old. fs_get s (is_rooted dir, path_comps dir @ [de_name f]) \<noteq> None"
  shows "fs_get (removed t dir old s) q = None \<longleftrightarrow>
    fs_get s q = None \<or> (\<exists>f \<in> set old. below (is_rooted dir, path_comps dir @ [de_name f]) q)"
  using nd pl di ex unfolding removed_def
proof (induction old arbitrary: s)
  case Nil
  then show ?case by simp
next
  case (Cons f old)
  let ?p = "filepath_Join [dir, de_name f]" and ?x = "\<lambda>f. (is_rooted dir, path_comps dir @ [de_name f])"
  let ?s = "snd (os_RemoveAll t s ?p)"
  have p: "fpath_of ?p = ?x f"
    using filepath_Join_comps [OF dir, of "[de_name f]"] Cons.prems(2) by (simp add: fpath_of_def)
  have ex: "fs_get s (?x f) \<noteq> None" using Cons.prems(4) by simp
  have ok: "fst (os_RemoveAll t s ?p) = Inr ()" using Cons.prems(1) ex by (simp add: os_RemoveAll_def p Let_def)
  note g = RemoveAll_get [OF ok, unfolded p, OF ex]
  have nb: "\<not> below (?x f) (?x h)" if "h \<in> set old" for h
    using that Cons.prems(3) by (auto simp: below_def)
  have "\<not> denied ?s q" for q using Cons.prems(1) by (simp add: RemoveAll_denied)
  moreover have "\<forall>h \<in> set old. fs_get ?s (?x h) \<noteq> None" using g nb Cons.prems(4) by simp
  ultimately show ?case using Cons.IH [of ?s] Cons.prems(2,3) g by auto
qed

lemma ReadDir_entries:
  assumes ok: "fs_ok s" and d: "os_ReadDir s dir = Inr files"
  shows "distinct (map de_name files)"
    and "f \<in> set files \<Longrightarrow> fs_get s (is_rooted dir, path_comps dir @ [de_name f]) = Some (de_info f)"
proof -
  let ?d = "fpath_of dir"
  let ?es = "filter (\<lambda>e. snd (fst e) \<noteq> [] \<and> parent (fst e) = ?d) (fs_tab s)"
  have files: "files = sort_key de_name (entries_of s ?d)"
    using d by (auto simp: os_ReadDir_def split: if_splits)
  have path: "fst e = (fst ?d, snd ?d @ [last (snd (fst e))])" if "e \<in> set ?es" for e
  proof -
    have ne: "snd (fst e) \<noteq> []" and pa: "parent (fst e) = ?d" using that by auto
    have r: "fst (fst e) = fst ?d" and b: "butlast (snd (fst e)) = snd ?d"
      unfolding pa [symmetric] by (simp_all add: parent_def)
    have "snd ?d @ [last (snd (fst e))] = snd (fst e)"
      using append_butlast_last_id [OF ne] unfolding b .
    then show ?thesis by (intro prod_eqI) (simp_all only: fst_conv snd_conv r)
  qed
  have dis: "distinct (map fst ?es)" using ok by (simp add: fs_ok_def distinct_map_filter)
  have "distinct (map (\<lambda>e. last (snd (fst e))) ?es)"
  proof -
    have "inj_on (\<lambda>e. last (snd (fst e))) (set ?es)"
    proof (rule inj_onI)
      fix x y
      assume x: "x \<in> set ?es" and y: "y \<in> set ?es" and "last (snd (fst x)) = last (snd (fst y))"
      then have "fst x = fst y" by (subst path [OF x], subst path [OF y]) simp
      with dis x y show "x = y" by (meson distinct_map inj_on_def)
    qed
    with dis show ?thesis by (simp add: distinct_map)
  qed
  then have "distinct (map de_name (entries_of s ?d))" by (simp add: entries_of_def comp_def)
  then show "distinct (map de_name files)"
    unfolding files by (metis distinct_map distinct_sort set_sort)
  show "fs_get s (is_rooted dir, path_comps dir @ [de_name f]) = Some (de_info f)" if mem: "f \<in> set files"
  proof -
    obtain e where e: "e \<in> set ?es" and f: "f = \<lparr>de_name = last (snd (fst e)), de_info = snd e\<rparr>"
      using mem unfolding files entries_of_def set_sort set_map by blast
    have "map_of (fs_tab s) (fst e) = Some (snd e)"
      using ok e by (intro map_of_is_SomeI) (auto simp: fs_ok_def)
    moreover have "(is_rooted dir, path_comps dir @ [de_name f]) = fst e"
      by (subst path [OF e]) (simp add: f fpath_of_def)
    moreover have "snd (fst e) \<noteq> []" using e by simp
    ultimately show ?thesis by (simp add: fs_get_def f)
  qed
qed

text \<open>
  Two executions on the disk of a controller with history 1 (two entries are kept): the older
  one, the newer one and the link.
\<close>

definition retention_fs :: fs where
  "retention_fs = \<lparr>fs_tab =
     [((True, [''var'']), \<lparr>i_kind = Dir, i_mtime = 1\<rparr>),
      ((True, [''var'', ''www'']), \<lparr>i_kind = Dir, i_mtime = 1\<rparr>),
      ((True, [''var'', ''www'', ''e0'']), \<lparr>i_kind = Dir, i_mtime = 2\<rparr>),
      ((True, [''var'', ''www'', ''e0'', ''a.json'']), \<lparr>i_kind = File ''x'', i_mtime = 2\<rparr>),
      ((True, [''var'', ''www'', ''latest'']), \<lparr>i_kind = Link ''/var/www/e1'', i_mtime = 4\<rparr>),
      ((True, [''var'', ''www'', ''e1'']), \<lparr>i_kind = Dir, i_mtime = 3\<rparr>)], fs_ro = []\<rparr>"

definition by_mtime :: "dir_entry list \<Rightarrow> dir_entry list" where
  "by_mtime = sort_key (\<lambda>f. i_mtime (de_info f))"

definition retention_files :: "dir_entry list" where
  "retention_files = [\<lparr>de_name = ''e0'', de_info = \<lparr>i_kind = Dir, i_mtime = 2\<rparr>\<rparr>,
     \<lparr>de_name = ''e1'', de_info = \<lparr>i_kind = Dir, i_mtime = 3\<rparr>\<rparr>,
     \<lparr>de_name = ''latest'', de_info = \<lparr>i_kind = Link ''/var/www/e1'', i_mtime = 4\<rparr>\<rparr>]"

lemma retention_ReadDir: "os_ReadDir retention_fs ''/var/www'' = Inr retention_files"
  by code_simp

lemma by_mtime_law: "sort_law by_mtime"
  unfolding by_mtime_def by (rule sort_law_sort_key)

definition retention_controller :: "int \<Rightarrow> ((string \<times> string \<times> string list) \<times> (string list \<rightharpoonup> float64)) controller" where
  "retention_controller h = (started_controller (sample_cfg\<lparr>ReportHistory := h\<rparr>))"

lemma retention_fields [simp]:
  "reportDir (retention_controller h) = ''/var/www''" "executions (retention_controller h) = [''e1'' \<mapsto> 0]"
  "reportHistory (retention_controller h) = wrap64 (h + 1)"
  "chan_closed (heap_ex (retention_controller h) ! 0) = False"
  "forID (retention_controller h) ''e1'' = Inr 0"
  by (simp_all add: retention_controller_def started_controller_def sample_controller_def NewController_def
      sample_cfg_def forID_def)

lemma AllAdded_returns:
  assumes f: "forID c eid = Inr e" and d: "os_ReadDir s (reportDir c) = Inr files"
    and sl: "sort_law sortf" and b: "min_int64 \<le> int (length files) - reportHistory c"
      "int (length files) - reportHistory c \<le> max_int64"
  shows "returns (AllAdded gv sortf t c s eid) =
    (if reportHistory c < 0 then False else \<not> chan_closed (heap_ex c ! e))"
proof -
  let ?n = "if reportHistory c < int (length files) then nat (int (length files) - reportHistory c) else 0"
  have w: "wrap64 (int (length files) - reportHistory c) = int (length files) - reportHistory c"
    using b by (intro wrap64_id) (simp add: int64_range_def)
  have len: "length (sortf files) = length files" by (rule sort_law_length [OF sl])
  have a: "AllAdded gv sortf t c s eid = go_bind (prune_files gv t ?n (sortf files) c s)
        (\<lambda>(c', s'). go_bind (close_chan e c') (\<lambda>c''. Ret (c'', s', None)))"
    using f d by (simp add: AllAdded_def Let_def len w)
  show ?thesis
  proof (cases "reportHistory c < 0")
    case True
    have "\<nexists>c1 s1. prune_files gv t ?n (sortf files) c s = Ret (c1, s1)"
    proof
      assume "\<exists>c1 s1. prune_files gv t ?n (sortf files) c s = Ret (c1, s1)"
      then have "?n \<le> length files" using prune_files_effect len by fastforce
      with True show False by (auto split: if_splits)
    qed
    with True show ?thesis by (auto simp: a returns_iff)
  next
    case False
    then have "?n \<le> length (sortf files)" using len by auto
    then obtain c1 s1 where p: "prune_files gv t ?n (sortf files) c s = Ret (c1, s1)"
      using prune_files_returns by (metis surj_pair)
    then have "heap_ex c1 = heap_ex c" using prune_files_effect by blast
    with p False show ?thesis by (auto simp: a returns_iff close_chan_def)
  qed
qed

end
