(* ===== verification/Execution_Properties.thy ===== *)
theory Execution_Properties
  imports Executions
begin

text \<open>
  The properties of executions: identifiers, lookups, progress, directories, and the retention
  of the report history.
\<close>

section \<open>Identifiers and progress\<close>

lemma sample_fields [simp]:
  "podPoolSize (sample_controller sample_cfg) = 2" "prom (sample_controller cfg) = sample_collector cfg"
  by (simp_all add: sample_controller_def NewController_def sample_cfg_def)

lemma sample_NewExecution:
  "\<exists>eid c' s'. NewExecution map_gauge_vec w clk (sample_controller sample_cfg) s n = Ret (eid, c', s')"
  by (rule NewExecution_returns) (simp_all add: gauge_laws_map_gauge_vec sample_col_wf)

lemma sample_controller_heap: "heap_ok (sample_controller cfg)"
  unfolding sample_controller_def by (rule heap_ok_NewController)

text \<open>
  A new execution. The heap stays well formed, the new identifier is known and has no pod
  yet, and every other execution's pods are found as before; one that had the same identifier
  is forgotten with all its pods.
\<close>

theorem newExecution_lookup:
  assumes "heap_ok c" and "NewExecution gv w clk c s jobs = Ret (eid, c', s')"
  shows "heap_ok c' \<and> podForID c' i n = (if i = eid then Inl (ExecutionIDNotFound (NoPod n)) else podForID c i n)"
  using NewExecution_ok [OF assms] NewExecution_lookup [OF assms] by blast

theorem newExecution_lookup_witness:
  "\<exists>c' s'. NewExecution map_gauge_vec False sample_clock (started_controller sample_cfg) sample_fs 3
        = Ret (''202405170930'', c', s')
     \<and> podForID c' ''202405170930'' ''n1'' = Inl (ExecutionIDNotFound (NoPod ''n1''))
     \<and> podForID c' ''e1'' ''n1'' = Inr 0"
proof -
  let ?c = "started_controller sample_cfg"
  have p: "0 \<le> podPoolSize ?c"
    by (simp add: started_controller_def)
  obtain eid c' s' where r: "NewExecution map_gauge_vec False sample_clock ?c sample_fs 3 = Ret (eid, c', s')"
    using NewExecution_returns [OF p gauge_laws_map_gauge_vec, of False sample_clock sample_fs 3] sample_col_wf by auto
  have "time_Format_id (wall sample_clock) = ''202405170930''" by code_simp
  with r have "eid = ''202405170930''" by (auto elim: NewExecution_cases)
  with r newExecution_lookup [OF started_controller_ok r] started_podForID show ?thesis by auto
qed

text \<open>
  Identifiers have the granularity of a minute: two executions get the same identifier
  exactly if they start in the same minute, and the identifier is a single path component of
  twelve digits.
\<close>

theorem execution_ids:
  assumes "NewExecution gv w clk c s jobs = Ret (eid, c1, s1)"
    and "NewExecution gv w' clk' c' s' jobs' = Ret (eid', c2, s2)"
    and "valid_civil (wall clk)" and "valid_civil (wall clk')"
  shows "(eid = eid' \<longleftrightarrow> wall clk = wall clk') \<and> plain_name eid \<and> length eid = 12
    \<and> list_all is_digit eid"
proof -
  have e: "eid = time_Format_id (wall clk)" "eid' = time_Format_id (wall clk')"
    using assms(1,2) by (auto elim: NewExecution_cases)
  then have "list_all is_digit eid" by (auto simp: list_all_iff dest: time_Format_id_digits)
  with e show ?thesis
    using time_Format_id_inject [OF assms(3,4)] time_Format_id_plain by auto
qed

theorem execution_ids_witness:
  "\<exists>eid c1 s1 eid' c2 s2. NewExecution map_gauge_vec False sample_clock (sample_controller sample_cfg) sample_fs 3 = Ret (eid, c1, s1)
    \<and> NewExecution map_gauge_vec False (sample_clock\<lparr>wall := (wall sample_clock)\<lparr>c_minute := 31\<rparr>\<rparr>)
        (sample_controller sample_cfg) sample_fs 3 = Ret (eid', c2, s2)
    \<and> eid \<noteq> eid'"
proof -
  let ?clk' = "sample_clock\<lparr>wall := (wall sample_clock)\<lparr>c_minute := 31\<rparr>\<rparr>"
  obtain eid c1 s1 where r: "NewExecution map_gauge_vec False sample_clock (sample_controller sample_cfg) sample_fs 3 = Ret (eid, c1, s1)"
    using sample_NewExecution by blast
  obtain eid' c2 s2 where r': "NewExecution map_gauge_vec False ?clk' (sample_controller sample_cfg) sample_fs 3 = Ret (eid', c2, s2)"
    using sample_NewExecution by blast
  have v: "valid_civil (wall sample_clock)" "valid_civil (wall ?clk')" "wall sample_clock \<noteq> wall ?clk'"
    by (simp_all add: valid_civil_def sample_clock_def)
  show ?thesis using r r' execution_ids [OF r r' v(1,2)] v(3) by blast
qed

lemma getProgress_zero:
  assumes "1 \<le> jobs" "jobs \<le> pod_limit" and "progressStep c = f_div (Fin 100) (f_mul (f_of_int jobs) (Fin 3))"
    and "progress c = 0"
  shows "getProgress c = ''0%''"
proof -
  obtain d where "progressStep c = Fin d" using progress_step [OF assms(1,2)] assms(3) by auto
  moreover have "nat_str 0 = ''0''" by code_simp
  ultimately show ?thesis
    using assms(4) by (simp add: getProgress_def f_of_int_def f_round_def rnd64_def Let_def round_half_even_def)
qed

text \<open>
  C34. Progress. A new execution of at least one job reports 0%, and 100% once the counter has
  been raised three times for each job, whatever the floating-point step is rounded to (for
  at most 2^60 jobs).
\<close>

theorem progress_zero_to_100:
  assumes "NewExecution gv w clk c s jobs = Ret (eid, c', s')" and "1 \<le> jobs" and "jobs \<le> pod_limit"
  shows "getProgress c' = ''0%'' \<and> getProgress (addProgress (word_of_int (3 * jobs)) c') = ''100%''"
proof -
  have p: "progressStep c' = f_div (Fin 100) (f_mul (f_of_int jobs) (Fin 3))" "progress c' = 0"
    using assms(1) by (auto elim: NewExecution_cases)
  have "uint (word_of_int (3 * jobs) :: 64 word) = 3 * jobs"
    unfolding uint_word_of_int_eq using assms(2,3)
    by (intro take_bit_int_eq_self) (simp_all add: pod_limit_def)
  with p progress_complete [OF assms(2,3), of "addProgress (word_of_int (3 * jobs)) c'"]
    getProgress_zero [OF assms(2,3) p] show ?thesis by simp
qed

theorem progress_zero_to_100_witness:
  "\<exists>eid c' s'. NewExecution map_gauge_vec False sample_clock (sample_controller sample_cfg) sample_fs 7 = Ret (eid, c', s')
    \<and> getProgress (addProgress 21 c') = ''100%''"
proof -
  obtain eid c' s' where r: "NewExecution map_gauge_vec False sample_clock (sample_controller sample_cfg) sample_fs 7 = Ret (eid, c', s')"
    using sample_NewExecution by blast
  show ?thesis using r progress_zero_to_100 [OF r] by (auto simp: pod_limit_def)
qed

section \<open>Retention\<close>


lemma retention_prom [simp]: "prom (retention_controller h) = sample_collector (sample_cfg\<lparr>ReportHistory := h\<rparr>)"
  by (simp add: retention_controller_def)

lemma retention_col: "col_ok map_gauge_vec (prom (retention_controller h))"
proof -
  have "NewPromCollector map_gauge_vec (\<lambda>_. True) (sample_cfg\<lparr>ReportHistory := h\<rparr>)
      = Ret (Inr (sample_collector (sample_cfg\<lparr>ReportHistory := h\<rparr>)))"
    by (simp add: sample_collector_def NewPromCollector_def sample_cfg_def Let_def reserved_metric_def
        procErrorMetric_def durationMetric_def podsMetric_def map_gauge_vec_def)
  from NewPromCollector_ok [OF gauge_laws_map_gauge_vec this] show ?thesis by simp
qed

lemma retention_history: "0 \<le> h \<Longrightarrow> h \<le> 100 \<Longrightarrow> reportHistory (retention_controller h) = h + 1"
  by (simp add: wrap64_id int64_range_def max_int64_def min_int64_def)

lemma retention_runs:
  assumes "0 \<le> h" "h \<le> 100"
  shows "\<exists>c' s'. AllAdded map_gauge_vec by_mtime t (retention_controller h) retention_fs ''e1'' = Ret (c', s', None)"
proof -
  have "returns (AllAdded map_gauge_vec by_mtime t (retention_controller h) retention_fs ''e1'')"
    by (subst AllAdded_returns [where e = 0 and files = retention_files, OF _ _ by_mtime_law])
      (use assms retention_history [OF assms] retention_ReadDir in
        \<open>auto simp del: retention_fields(3) simp: retention_files_def max_int64_def min_int64_def\<close>)
  then obtain c' s' err where r: "AllAdded map_gauge_vec by_mtime t (retention_controller h) retention_fs ''e1'' = Ret (c', s', err)"
    by (auto simp: returns_iff)
  then have "err = None"
    by (cases rule: AllAdded_cases) (use retention_ReadDir in auto)
  with r show ?thesis by blast
qed


text \<open>
  The disk after \<open>AllAdded\<close>, where the file system refuses nothing: a path is gone exactly
  if it did not exist or lies in a directory that the retention removed; every other report is
  still there.
\<close>

theorem allAdded_disk:
  assumes "sort_law sortf" and "AllAdded gv sortf t c s eid = Ret (c', s', None)"
    and "os_ReadDir s (reportDir c) = Inr files"
    and "0 \<le> reportHistory c" and "int (length files) \<le> max_int64"
    and "fs_ok s" and "fs_ro s = []" and "reportDir c \<noteq> []" and "\<forall>f \<in> set files. plain_name (de_name f)"
  shows "fs_get s' q = None \<longleftrightarrow> fs_get s q = None
    \<or> (\<exists>f \<in> set (old_entries sortf (reportHistory c) files).
        below (is_rooted (reportDir c), path_comps (reportDir c) @ [de_name f]) q)"
proof -
  let ?old = "old_entries sortf (reportHistory c) files"
  have sub: "set ?old \<subseteq> set files"
    using assms(1) unfolding old_entries_def sort_law_def by (metis set_mset_mset set_take_subset)
  have "mset (sortf files) = mset files" using assms(1) by (simp add: sort_law_def)
  then have "mset (map de_name (sortf files)) = mset (map de_name files)" by (metis mset_map)
  then have "distinct (map de_name (sortf files))"
    using ReadDir_entries(1) [OF assms(6,3)] by (metis mset_eq_imp_distinct_iff)
  then have dis: "distinct (map de_name ?old)"
    unfolding old_entries_def take_map [symmetric] by (rule distinct_take)
  have ex: "\<forall>f \<in> set ?old. fs_get s (is_rooted (reportDir c), path_comps (reportDir c) @ [de_name f]) \<noteq> None"
    using ReadDir_entries(2) [OF assms(6,3)] sub by (metis option.discI subsetD)
  have "\<not> denied s q" for q using assms(7) by (simp add: denied_def)
  then show ?thesis
    unfolding AllAdded_None(3) [OF assms(1-5)]
    using assms(8,9) sub by (intro removed_get [OF _ _ _ dis ex]) auto
qed

theorem allAdded_disk_witness:
  "\<exists>c' s'. AllAdded map_gauge_vec by_mtime 9 (retention_controller 1) retention_fs ''e1'' = Ret (c', s', None)
     \<and> fs_get s' (True, [''var'', ''www'', ''e0'', ''a.json'']) = None
     \<and> fs_get s' (True, [''var'', ''www'', ''e1'']) \<noteq> None"
proof -
  have h: "0 \<le> reportHistory (retention_controller 1)" "reportHistory (retention_controller 1) = 2"
    using retention_history [of 1] by simp_all
  obtain c' s' where r: "AllAdded map_gauge_vec by_mtime 9 (retention_controller 1) retention_fs ''e1'' = Ret (c', s', None)"
    using retention_runs [of 1 9] by auto
  have d: "os_ReadDir retention_fs (reportDir (retention_controller 1)) = Inr retention_files"
    using retention_ReadDir by simp
  have l: "int (length retention_files) \<le> max_int64"
    by (simp add: retention_files_def max_int64_def)
  have o: "fs_ok retention_fs" "fs_ro retention_fs = []" "reportDir (retention_controller 1) \<noteq> []"
    "\<forall>f \<in> set retention_files. plain_name (de_name f)"
    by (simp_all add: fs_ok_def retention_fs_def retention_files_def plain_name_def)
  have old: "old_entries by_mtime 2 retention_files = [\<lparr>de_name = ''e0'', de_info = \<lparr>i_kind = Dir, i_mtime = 2\<rparr>\<rparr>]"
    by code_simp
  have pc: "path_comps ''/var/www'' = [''var'', ''www'']" by code_simp
  note a = allAdded_disk [OF by_mtime_law r d h(1) l o]
  have "fs_get s' (True, [''var'', ''www'', ''e0'', ''a.json'']) = None"
    unfolding a h(2) old by (simp add: pc below_def)
  moreover have "fs_get s' (True, [''var'', ''www'', ''e1'']) \<noteq> None"
    unfolding a h(2) old by (simp add: pc below_def) (simp add: fs_get_def retention_fs_def)
  ultimately show ?thesis using r by blast
qed



text \<open>
  The retention may forget the execution that it completes. If the directory of the
  execution is among the old entries (with history 0 it always is, being older than the link),
  no termination of its pods is accepted any more, so its workers poll forever.
\<close>

theorem allAdded_forgets_itself:
  assumes "sort_law sortf" and "AllAdded gv sortf t c s eid = Ret (c', s', None)"
    and "os_ReadDir s (reportDir c) = Inr files"
    and "0 \<le> reportHistory c" and "int (length files) \<le> max_int64"
    and "eid \<in> de_name ` set (old_entries sortf (reportHistory c) files)"
  shows "PodTerminated gv t' c' eid n ph = Ret (c', Some (ExecutionIDNotFound (NoExecution eid)))
    \<and> \<not> Has c' n eid"
proof -
  have "executions c' eid = None" using AllAdded_None(1) [OF assms(1-5)] assms(6) by simp
  then show ?thesis by (simp add: PodTerminated_def podForID_def forID_def Has_def)
qed

theorem allAdded_forgets_itself_witness:
  "\<exists>c' s'. AllAdded map_gauge_vec by_mtime 9 (retention_controller 0) retention_fs ''e1'' = Ret (c', s', None)
     \<and> \<not> Has c' ''n1'' ''e1''"
proof -
  have h: "0 \<le> reportHistory (retention_controller 0)" "reportHistory (retention_controller 0) = 1"
    using retention_history [of 0] by simp_all
  obtain c' s' where r: "AllAdded map_gauge_vec by_mtime 9 (retention_controller 0) retention_fs ''e1'' = Ret (c', s', None)"
    using retention_runs [of 0 9] by auto
  have d: "os_ReadDir retention_fs (reportDir (retention_controller 0)) = Inr retention_files"
    using retention_ReadDir by simp
  have l: "int (length retention_files) \<le> max_int64"
    by (simp add: retention_files_def max_int64_def)
  have o: "''e1'' \<in> de_name ` set (old_entries by_mtime 1 retention_files)" by code_simp
  show ?thesis using r allAdded_forgets_itself [OF by_mtime_law r d h(1) l o [folded h(2)]] by blast
qed

section \<open>Directories\<close>

text \<open>Only directories stand on the way down to \<open>p\<close>.\<close>

definition dirs_only :: "fs \<Rightarrow> fpath \<Rightarrow> bool" where
  "dirs_only s p \<longleftrightarrow> (\<forall>k \<le> length (snd p). \<forall>i. fs_get s (fst p, take k (snd p)) = Some i \<longrightarrow> i_kind i = Dir)"

lemma dirs_only_no_links: "dirs_only s p \<Longrightarrow> no_links s p"
  by (auto simp: dirs_only_def no_links_def)

lemma stat_at_exists_err: "fs_get s p = None \<Longrightarrow> stat_at n s p = Inl ErrNotExist"
  by (simp add: stat_at.simps [of n])

lemma stat_at_Dir: "fs_get s p = Some i \<Longrightarrow> i_kind i = Dir \<Longrightarrow> stat_at n s p = Inr i"
  by (simp add: stat_at.simps [of n])

lemma stat_at_Link:
  "fs_get s p = Some i \<Longrightarrow> i_kind i = Link t \<Longrightarrow> is_rooted t \<Longrightarrow> stat_at (Suc m) s p = stat_at m s (fpath_of t)"
  by (simp add: stat_at.simps [of "Suc m"])

lemma mkdir_each_succeeds:
  assumes "\<And>q. \<not> denied s q" and "dirs_only s (r, done @ cs)"
  shows "fst (mkdir_each t r done cs s) = Inr () \<and> denied (snd (mkdir_each t r done cs s)) = denied s
    \<and> (\<forall>q. \<not> below q (r, done @ cs) \<longrightarrow> fs_get (snd (mkdir_each t r done cs s)) q = fs_get s q)"
  using assms
proof (induction t r "done" cs s rule: mkdir_each.induct)
  case (1 t r "done" s)
  then show ?case by simp
next
  case (2 t r "done" c cs s)
  let ?q = "(r, done @ [c])"
  let ?s = "fs_put ?q \<lparr>i_kind = Dir, i_mtime = t\<rparr> (touch t (r, done) s)"
  have k: "i_kind i = Dir" if "fs_get s ?q = Some i" for i
    using "2.prems"(2) that unfolding dirs_only_def by (elim allE [of _ "Suc (length done)"]) simp
  show ?case
  proof (cases "fs_get s ?q")
    case None
    then have st: "stat_at 40 s ?q = Inl ErrNotExist" by (rule stat_at_exists_err)
    have nd: "\<not> denied s ?q" by (rule "2.prems"(1))
    have eq: "mkdir_each t r done (c # cs) s = mkdir_each t r (done @ [c]) cs ?s"
      using st None nd by (simp add: Let_def)
    have d: "dirs_only ?s (r, (done @ [c]) @ cs)"
      using "2.prems"(2) put_dir_kinds [of ?q t "(r, done)" s] unfolding dirs_only_def
      by (metis append.assoc append_Cons append_Nil)
    have nd': "\<not> denied ?s q" for q using "2.prems"(1) by (simp add: denied_frame)
    have f: "fs_get ?s q = fs_get s q" if "\<not> below q (r, done @ c # cs)" for q
      using that by (auto simp: fs_get_put fs_get_touch below_def)
    have "fst (mkdir_each t r (done @ [c]) cs ?s) = Inr () \<and> denied (snd (mkdir_each t r (done @ [c]) cs ?s)) = denied ?s
      \<and> (\<forall>q. \<not> below q (r, (done @ [c]) @ cs) \<longrightarrow> fs_get (snd (mkdir_each t r (done @ [c]) cs ?s)) q = fs_get ?s q)"
      by (rule "2.IH"(1) [OF refl st _ nd]) (simp add: None, rule nd', rule d)
    then show ?thesis unfolding eq using f by (simp add: denied_frame)
  next
    case (Some i)
    then have st: "stat_at 40 s ?q = Inr i" using k [OF Some] by (intro stat_at_Dir)
    from "2.IH"(2) [OF refl st k [OF Some]] "2.prems" st k [OF Some] show ?thesis by (simp add: Let_def)
  qed
qed

lemma prepare_Mkdir:
  fixes s :: fs and p :: string and t :: instant
  assumes nd: "\<And>q. \<not> denied s q" and d: "dirs_only s (fpath_of p)"
  defines "s1 \<equiv> (case os_Stat s p of Inl e \<Rightarrow> if e = ErrNotExist then snd (os_MkdirAll t s p) else s | Inr _ \<Rightarrow> s)"
  shows "is_dir s1 (fpath_of p)" and "denied s1 = denied s"
    and "\<not> below q (fpath_of p) \<Longrightarrow> fs_get s1 q = fs_get s q"
proof -
  obtain r cs where f: "fpath_of p = (r, cs)" by (cases "fpath_of p")
  have dk: "fs_get s (r, cs) = Some i \<Longrightarrow> i_kind i = Dir" for i
    using d unfolding dirs_only_def f by (elim allE [of _ "length cs"]) simp
  have "is_dir s1 (fpath_of p) \<and> denied s1 = denied s
    \<and> (\<not> below q (fpath_of p) \<longrightarrow> fs_get s1 q = fs_get s q)"
  proof (cases "fs_get s (r, cs)")
    case None
    then have st: "stat_at 40 s (r, cs) = Inl ErrNotExist" by (rule stat_at_exists_err)
    have m: "os_MkdirAll t s p = mkdir_each t r [] cs s" by (simp add: os_MkdirAll_def f st)
    have s1: "s1 = snd (os_MkdirAll t s p)" by (simp add: s1_def os_Stat_def f st)
    note e = mkdir_each_succeeds [OF nd, of r "[]" cs t]
    from d have d': "dirs_only s (r, [] @ cs)" by (simp add: f)
    have "is_dir (snd (os_MkdirAll t s p)) (fpath_of p)"
      using MkdirAll_dir [of t s p] e [OF d'] dirs_only_no_links [OF d] by (simp add: m)
    with e [OF d'] show ?thesis unfolding s1 m f by (cases q) simp
  next
    case (Some i)
    with dk have "os_Stat s p = Inr i" by (simp add: os_Stat_def f stat_at_Dir)
    with Some dk show ?thesis by (simp add: s1_def is_dir_def f)
  qed
  then show "is_dir s1 (fpath_of p)" and "denied s1 = denied s"
    and "\<not> below q (fpath_of p) \<Longrightarrow> fs_get s1 q = fs_get s q" by blast+
qed

lemma mkdir_each_append:
  "fst (mkdir_each t r done cs s) = Inr () \<Longrightarrow>
   mkdir_each t r done (cs @ ds) s = mkdir_each t r (done @ cs) ds (snd (mkdir_each t r done cs s))"
  by (induction t r "done" cs s rule: mkdir_each.induct) (auto simp: Let_def split: sum.splits if_splits)

lemma mkdir_each_parent:
  assumes nd: "\<And>q. \<not> denied s q" and d: "dirs_only s (r, cs @ [e])"
  shows "is_dir (snd (mkdir_each t r [] (cs @ [e]) s)) (r, cs)"
proof -
  have d': "dirs_only s (r, [] @ cs)"
    using d unfolding dirs_only_def by (auto dest!: spec [of _ k for k] simp: le_Suc_eq)
  note m = mkdir_each_succeeds [OF nd d', of t, THEN conjunct1]
  have "is_dir (snd (mkdir_each t r [] cs s)) (r, [] @ cs)"
    by (rule mkdir_each_dir [OF m dirs_only_no_links [OF d'] is_dir_root])
  then show ?thesis unfolding mkdir_each_append [OF m] append_Nil by (rule mkdir_each_keeps)
qed

text \<open>Every entry stands in a directory.\<close>

definition parents_ok :: "fs \<Rightarrow> bool" where
  "parents_ok s \<longleftrightarrow> (\<forall>e \<in> set (fs_tab s). is_dir s (parent (fst e)))"

lemma parents_ok_get: "parents_ok s \<Longrightarrow> fs_get s p = Some i \<Longrightarrow> snd p \<noteq> [] \<Longrightarrow> is_dir s (parent p)"
  by (auto simp: parents_ok_def fs_get_def dest!: map_of_SomeD)

lemma prepare_parent:
  assumes nd: "\<And>q. \<not> denied s q" and pk: "parents_ok s" and f: "fpath_of p = (r, cs @ [e])"
    and d: "dirs_only s (r, cs @ [e])"
  shows "is_dir (case os_Stat s p of Inl e \<Rightarrow> if e = ErrNotExist then snd (os_MkdirAll t s p) else s | Inr _ \<Rightarrow> s) (r, cs)"
proof (cases "fs_get s (r, cs @ [e])")
  case None
  then have st: "stat_at 40 s (r, cs @ [e]) = Inl ErrNotExist" by (rule stat_at_exists_err)
  then show ?thesis
    using mkdir_each_parent [OF nd d] by (simp add: os_Stat_def os_MkdirAll_def f)
next
  case (Some i)
  have "i_kind i = Dir" using d Some unfolding dirs_only_def by (elim allE [of _ "Suc (length cs)"]) simp
  with Some have "os_Stat s p = Inr i" by (simp add: os_Stat_def f stat_at_Dir)
  then show ?thesis using parents_ok_get [OF pk Some] by (simp add: parent_def)
qed

text \<open>
  The directory of a new execution, on a file system that refuses nothing, with an absolute
  report directory whose path holds nothing but directories: afterwards the execution's
  directory exists, and \<open>latest\<close>, if it was no directory before, leads to it.
\<close>

theorem newExecution_dirs:
  assumes "NewExecution gv False clk c s jobs = Ret (eid, c', s')"
    and "is_rooted (reportDir c)" and "fs_ro s = []" and "parents_ok s"
    and "dirs_only s (True, path_comps (reportDir c) @ [eid])"
    and "\<not> is_dir s (True, path_comps (reportDir c) @ [''latest''])"
  shows "is_dir s' (True, path_comps (reportDir c) @ [eid])
    \<and> os_Stat s' (latest_link (reportDir c)) = os_Stat s' (filepath_Join [reportDir c, eid])"
proof -
  let ?D = "path_comps (reportDir c)" and ?rep = "filepath_Join [reportDir c, eid]"
  let ?x = "(True, ?D @ [eid])" and ?y = "(True, ?D @ [''latest''])"
  have ne: "reportDir c \<noteq> []" using assms(2) by auto
  have eid: "plain_name eid" "length eid = 12"
    using assms(1) time_Format_id_plain by (auto elim: NewExecution_cases)
  have "plain_name ''latest''" by (simp add: plain_name_def)
  then have y: "fpath_of (latest_link (reportDir c)) = ?y"
    using filepath_Join_comps [OF ne, of "[''latest'']"] assms(2) by (simp add: latest_link_def fpath_of_def)
  have x: "fpath_of ?rep = ?x" and rr: "is_rooted ?rep"
    using filepath_Join_comps [OF ne, of "[eid]"] eid assms(2) by (simp_all add: fpath_of_def)
  have xy: "?y \<noteq> ?x" "\<not> below ?y ?x" using eid(2) by (auto simp: below_def)
  have nd: "\<not> denied s q" for q using assms(3) by (simp add: denied_def)
  define s1 where "s1 = (case os_Stat s ?rep of Inl e \<Rightarrow> if e = ErrNotExist then snd (os_MkdirAll (now clk) s ?rep) else s | Inr _ \<Rightarrow> s)"
  have m: "is_dir s1 ?x" "denied s1 = denied s" "fs_get s1 ?y = fs_get s ?y"
    using prepare_Mkdir [OF nd, of ?rep] assms(5) xy(2) unfolding s1_def x by blast+
  have par: "is_dir s1 (True, ?D)"
    unfolding s1_def by (rule prepare_parent [OF nd assms(4) x assms(5)])
  define s2 where "s2 = (case os_Lstat s1 (latest_link (reportDir c)) of
      Inr _ \<Rightarrow> snd (os_Remove (now clk) s1 (latest_link (reportDir c))) | Inl _ \<Rightarrow> s1)"
  have s2: "fs_get s2 ?y = None \<and> is_dir s2 ?x \<and> is_dir s2 (True, ?D) \<and> denied s2 = denied s"
  proof (cases "fs_get s1 ?y")
    case None
    with m par show ?thesis by (simp add: s2_def os_Lstat_def y)
  next
    case (Some i)
    have k: "i_kind i \<noteq> Dir" using Some m(3) assms(6) by (simp add: is_dir_def)
    have s2: "s2 = touch (now clk) (parent ?y) (fs_del ?y s1)"
      using Some k nd m(2) by (simp add: s2_def os_Lstat_def os_Remove_def y Let_def)
    have "fs_get s2 ?y = None" by (simp add: s2 fs_get_touch fs_get_del)
    moreover have "is_dir s2 q = is_dir s1 q" if "q \<noteq> ?y" for q
      using that by (simp add: s2 is_dir_touch) (simp add: is_dir_def fs_get_del)
    ultimately show ?thesis using m par xy(1) by (simp add: s2 denied_frame)
  qed
  have s': "s' = fs_put ?y \<lparr>i_kind = Link ?rep, i_mtime = now clk\<rparr> (touch (now clk) (True, ?D) s2)"
  proof -
    have "s' = prepare_dirs False (now clk) (reportDir c) eid s"
      using assms(1) by (rule NewExecution_cases)
    also have "\<dots> = snd (os_Symlink (now clk) s2 ?rep (latest_link (reportDir c)))"
      unfolding prepare_dirs_def Let_def s2_def s1_def by simp
    finally show ?thesis using s2 nd by (simp add: os_Symlink_def y parent_def Let_def)
  qed
  obtain i where i: "fs_get s' ?x = Some i" "i_kind i = Dir"
  proof -
    have "is_dir s' ?x" using s2 xy(1) by (auto simp: s' is_dir_def fs_get_put is_dir_touch [unfolded is_dir_def])
    then show thesis using that by (auto simp: is_dir_def split: option.splits)
  qed
  have "fs_get s' ?y = Some \<lparr>i_kind = Link ?rep, i_mtime = now clk\<rparr>" by (simp add: s' fs_get_put)
  then have "os_Stat s' (latest_link (reportDir c)) = stat_at 39 s' ?x"
    using stat_at_Link [of s' ?y _ ?rep 39] rr by (simp add: os_Stat_def y x)
  then show ?thesis using i by (simp add: os_Stat_def x stat_at_Dir is_dir_def)
qed

theorem newExecution_dirs_witness:
  "\<exists>eid c' s'. NewExecution map_gauge_vec False sample_clock (sample_controller sample_cfg) sample_fs 3 = Ret (eid, c', s')
    \<and> (\<exists>i. os_Stat s' ''/var/www/latest'' = Inr i \<and> i_kind i = Dir)"
proof -
  obtain eid c' s' where r: "NewExecution map_gauge_vec False sample_clock (sample_controller sample_cfg) sample_fs 3 = Ret (eid, c', s')"
    using sample_NewExecution by blast
  have d: "reportDir (sample_controller sample_cfg) = ''/var/www''"
    by (simp add: sample_controller_def NewController_def sample_cfg_def)
  have pc: "path_comps ''/var/www'' = [''var'', ''www'']" "latest_link ''/var/www'' = ''/var/www/latest''"
    by code_simp+
  have "time_Format_id (wall sample_clock) = ''202405170930''" by code_simp
  then have e: "eid = ''202405170930''" using r by (auto elim: NewExecution_cases)
  have p: "parents_ok sample_fs" by code_simp
  have l: "\<not> is_dir sample_fs (True, [''var'', ''www'', ''latest''])" by code_simp
  have k: "k \<le> 3 \<Longrightarrow> k = 0 \<or> k = 1 \<or> k = 2 \<or> k = 3" for k :: nat by auto
  have o: "dirs_only sample_fs (True, [''var'', ''www'', ''202405170930''])"
    by (auto simp: dirs_only_def sample_fs_def fs_get_def numeral_3_eq_3 dest!: k split: if_splits)
  have "is_dir s' (True, [''var'', ''www'', ''202405170930''])
    \<and> os_Stat s' ''/var/www/latest'' = os_Stat s' (filepath_Join [''/var/www'', eid])"
    using newExecution_dirs [OF r] p l o by (simp add: d pc e sample_fs_def)
  moreover have "fpath_of (filepath_Join [''/var/www'', ''202405170930'']) = (True, [''var'', ''www'', ''202405170930''])"
    by code_simp
  ultimately show ?thesis
    using r by (auto simp: is_dir_def os_Stat_def e stat_at_Dir split: option.splits)
qed

end
