(* ===== verification/Traces.thy ===== *)
theory Traces
  imports Prelude
begin

text \<open>
  Runs of a labelled step relation, and two contracts on them: an invariant that every step
  keeps, and a refinement, in which every step of the one relation is a run of the other. The
  pool, the cron job and the whole system are such relations.
\<close>

section \<open>Runs\<close>

inductive trace :: "('s \<Rightarrow> 'l \<Rightarrow> 's \<Rightarrow> bool) \<Rightarrow> 's \<Rightarrow> 'l list \<Rightarrow> 's \<Rightarrow> bool"
  for R :: "'s \<Rightarrow> 'l \<Rightarrow> 's \<Rightarrow> bool" where
  trace_Nil: "trace R s [] s"
| trace_Cons: "R s l s1 \<Longrightarrow> trace R s1 ls s' \<Longrightarrow> trace R s (l # ls) s'"

inductive_simps trace_Nil_iff: "trace R s [] s'"
inductive_simps trace_Cons_iff: "trace R s (l # ls) s'"

lemma trace_append: "trace R s ls s1 \<Longrightarrow> trace R s1 ls' s2 \<Longrightarrow> trace R s (ls @ ls') s2"
  by (induction rule: trace.induct) (auto intro: trace_Cons)

lemma trace_single: "R s l s' \<Longrightarrow> trace R s [l] s'"
  by (rule trace_Cons [OF _ trace_Nil])

lemma trace_snoc: "trace R s ls s1 \<Longrightarrow> R s1 l s2 \<Longrightarrow> trace R s (ls @ [l]) s2"
  by (rule trace_append [OF _ trace_single])

lemma trace_snocE:
  assumes "trace R s (ls @ [l]) s'"
  obtains s1 where "trace R s ls s1" "R s1 l s'"
  using assms
proof (induction ls arbitrary: s thesis)
  case Nil
  then show ?case by (auto simp: trace_Cons_iff trace_Nil_iff intro: trace.intros)
next
  case (Cons a ls)
  then obtain s0 where s0: "R s a s0" "trace R s0 (ls @ [l]) s'" by (auto simp: trace_Cons_iff)
  obtain s1 where "trace R s0 ls s1" "R s1 l s'" by (rule Cons.IH [OF _ s0(2)])
  with s0(1) show ?case by (intro Cons.prems(1)) (auto intro: trace.intros)
qed

section \<open>Invariants\<close>

locale step_invariant =
  fixes step :: "'s \<Rightarrow> 'l \<Rightarrow> 's \<Rightarrow> bool"
    and inv :: "'s \<Rightarrow> bool"
  assumes step_inv: "inv s \<Longrightarrow> step s l s' \<Longrightarrow> inv s'"
begin

lemma trace_inv: "trace step s ls s' \<Longrightarrow> inv s \<Longrightarrow> inv s'"
  by (induction rule: trace.induct) (auto intro: step_inv)

text \<open>What a step cannot undo, and what only certain labels can bring about.\<close>

lemma trace_keeps:
  assumes "trace step s ls s'" and "inv s" and "P s"
    and keep: "\<And>a l b. inv a \<Longrightarrow> step a l b \<Longrightarrow> l \<in> set ls \<Longrightarrow> P a \<Longrightarrow> P b"
  shows "P s'"
  using assms
proof (induction rule: trace.induct)
  case (trace_Cons s l s1 ls s')
  have "P s1" by (rule trace_Cons.prems(3) [OF trace_Cons.prems(1) trace_Cons.hyps(1) _ trace_Cons.prems(2)]) simp
  with trace_Cons.IH [OF step_inv [OF trace_Cons.prems(1) trace_Cons.hyps(1)]] trace_Cons.prems(3) show ?case by simp
qed

lemma trace_cause:
  assumes "trace step s ls s'" and "inv s" and "P s'" and "\<not> P s"
    and cause: "\<And>a l b. inv a \<Longrightarrow> step a l b \<Longrightarrow> P b \<Longrightarrow> \<not> P a \<Longrightarrow> C l"
  shows "\<exists>l \<in> set ls. C l"
  using assms(1-4)
proof (induction rule: trace.induct)
  case (trace_Cons s l s1 ls s')
  show ?case
  proof (cases "P s1")
    case True
    with cause [OF trace_Cons.prems(1) trace_Cons.hyps(1)] trace_Cons.prems show ?thesis by simp
  next
    case False
    with trace_Cons.IH [OF step_inv [OF trace_Cons.prems(1) trace_Cons.hyps(1)]] trace_Cons.prems show ?thesis by simp
  qed
qed simp

end

section \<open>Refinement\<close>

text \<open>
  Each step \<open>l\<close> of \<open>cstep\<close> is, under \<open>abs\<close>, a run of \<open>astep\<close> (empty, where the step is
  invisible), whose labels are among those that \<open>l\<close> may give rise to.
\<close>

locale refinement =
  fixes cstep :: "'c \<Rightarrow> 'l \<Rightarrow> 'c \<Rightarrow> bool"
    and cinv :: "'c \<Rightarrow> bool"
    and astep :: "'a \<Rightarrow> 'm \<Rightarrow> 'a \<Rightarrow> bool"
    and abs :: "'c \<Rightarrow> 'a"
    and image :: "'l \<Rightarrow> 'm \<Rightarrow> bool"
  assumes cstep_inv: "cinv x \<Longrightarrow> cstep x l x' \<Longrightarrow> cinv x'"
    and cstep_refines: "cinv x \<Longrightarrow> cstep x l x' \<Longrightarrow>
      \<exists>ms. trace astep (abs x) ms (abs x') \<and> (\<forall>m \<in> set ms. image l m)"

sublocale refinement \<subseteq> concrete: step_invariant cstep cinv
  by unfold_locales (rule cstep_inv)

context refinement
begin

lemma trace_refines:
  assumes "trace cstep x ls x'" and "cinv x"
  shows "\<exists>ms. trace astep (abs x) ms (abs x') \<and> (\<forall>m \<in> set ms. \<exists>l \<in> set ls. image l m)"
  using assms
proof (induction rule: trace.induct)
  case (trace_Nil x)
  show ?case by (intro exI [of _ "[]"]) (simp add: trace.trace_Nil)
next
  case (trace_Cons x l x1 ls x')
  obtain ms where ms: "trace astep (abs x) ms (abs x1)" "\<forall>m \<in> set ms. image l m"
    using cstep_refines [OF trace_Cons.prems trace_Cons.hyps(1)] by blast
  obtain ms' where "trace astep (abs x1) ms' (abs x')" "\<forall>m \<in> set ms'. \<exists>l \<in> set ls. image l m"
    using trace_Cons.IH [OF cstep_inv [OF trace_Cons.prems trace_Cons.hyps(1)]] by blast
  with ms trace_append show ?case by (intro exI [of _ "ms @ ms'"]) fastforce
qed

text \<open>An invariant of the abstract steps holds of every concrete run.\<close>

lemma abstract_invariant:
  assumes "step_invariant astep ainv" and "trace cstep x ls x'" and "cinv x" and "ainv (abs x)"
  shows "ainv (abs x')"
  using step_invariant.trace_inv [OF assms(1)] trace_refines [OF assms(2,3)] assms(4) by blast

end

section \<open>Data refinement\<close>

text \<open>
  The special case of a refinement in which every step is the step of the same label on an
  abstraction of the state: the contract of a component with an abstract specification.
\<close>

locale data_refinement =
  fixes cstep :: "'c \<Rightarrow> 'l \<Rightarrow> 'c \<Rightarrow> bool"
    and cinv :: "'c \<Rightarrow> bool"
    and astep :: "'a \<Rightarrow> 'l \<Rightarrow> 'a \<Rightarrow> bool"
    and abs :: "'c \<Rightarrow> 'a"
  assumes step_inv: "cinv x \<Longrightarrow> cstep x l x' \<Longrightarrow> cinv x'"
    and step_abs: "cinv x \<Longrightarrow> cstep x l x' \<Longrightarrow> astep (abs x) l (abs x')"

sublocale data_refinement \<subseteq> refinement cstep cinv astep abs "\<lambda>l m. m = l"
proof unfold_locales
  fix x l x'
  assume x: "cinv x" "cstep x l x'"
  show "cinv x'" by (rule step_inv [OF x])
  show "\<exists>ms. trace astep (abs x) ms (abs x') \<and> (\<forall>m \<in> set ms. m = l)"
    using trace_single [of astep, OF step_abs [OF x]] by (intro exI [of _ "[l]"]) simp
qed

context data_refinement
begin

lemma trace_abs: "trace cstep x ls x' \<Longrightarrow> cinv x \<Longrightarrow> trace astep (abs x) ls (abs x')"
  by (induction rule: trace.induct) (auto intro: trace.intros step_abs step_inv)

end

end
