(* ===== verification/Pool.thy ===== *)
theory Pool
  imports Executions Traces
begin

text \<open>
  The worker pool as a step relation: the cron goroutine registers jobs one after the other
  (\<open>AddPod\<close>, blocked while the channel is full), the workers of every execution take them,
  create the pods and wait for their termination, and the reconciler and the callback server
  report in any order. A state is the controller, the file system, the log of \<open>CreatePod\<close>
  calls and the job that \<open>AddPod\<close> is blocked on. Each step is one operation of \<open>Lifecycle\<close>, or a
  change of the file system from outside (an upload, a saved log), which may be any.
\<close>

section \<open>The system\<close>

record 'g sys =
  s_ctl :: "'g controller"
  s_fs :: fs
  s_created :: "(nat \<times> Job) list"
  s_pending :: "(nat \<times> Job) option"

datatype label =
    LNew clock int
  | LAdd Job
  | LResume
  | LAllAdded instant string
  | LTerm instant string string string
  | LReport instant string string bool Results
  | LTurn instant nat nat
  | LFiles fs

text \<open>The nodes of a cluster have different names: a job's node is new to its execution.\<close>

definition fresh_job :: "'g controller \<Rightarrow> Job \<Rightarrow> bool" where
  "fresh_job c j \<longleftrightarrow> (case forID c (job_ID j) of Inl _ \<Rightarrow> True
     | Inr e \<Rightarrow> ex_pods (heap_ex c ! e) (job_Node j) = None)"

text \<open>
  A send completes at once where the buffer has room, otherwise the sender waits; a worker's
  turn that calls \<open>CreatePod\<close> is logged. The step relation has no step for a panic.
\<close>

inductive step :: "'g gauge_vec \<Rightarrow> (dir_entry list \<Rightarrow> dir_entry list) \<Rightarrow> 'g sys \<Rightarrow> label \<Rightarrow> 'g sys \<Rightarrow> bool"
  for gv :: "'g gauge_vec" and sortf :: "dir_entry list \<Rightarrow> dir_entry list" where
  new: "s_pending s = None \<Longrightarrow> NewExecution gv False clk (s_ctl s) (s_fs s) n = Ret (eid, c', f') \<Longrightarrow>
    step gv sortf s (LNew clk n) (s\<lparr>s_ctl := c', s_fs := f'\<rparr>)"
| add_unknown: "s_pending s = None \<Longrightarrow> AddPod (s_ctl s) j = AddErr x \<Longrightarrow>
    step gv sortf s (LAdd j) s"
| add: "s_pending s = None \<Longrightarrow> fresh_job (s_ctl s) j \<Longrightarrow> AddPod (s_ctl s) j = AddDone c' \<Longrightarrow>
    step gv sortf s (LAdd j) (s\<lparr>s_ctl := c'\<rparr>)"
| add_blocks: "s_pending s = None \<Longrightarrow> fresh_job (s_ctl s) j \<Longrightarrow> AddPod (s_ctl s) j = AddBlocked e c' \<Longrightarrow>
    step gv sortf s (LAdd j) (s\<lparr>s_ctl := c', s_pending := Some (e, j)\<rparr>)"
| resume: "s_pending s = Some (e, j) \<Longrightarrow> chan_send e j (s_ctl s) = AddDone c' \<Longrightarrow>
    step gv sortf s LResume (s\<lparr>s_ctl := c', s_pending := None\<rparr>)"
| all_added: "s_pending s = None \<Longrightarrow> AllAdded gv sortf t (s_ctl s) (s_fs s) eid = Ret (c', f', r) \<Longrightarrow>
    step gv sortf s (LAllAdded t eid) (s\<lparr>s_ctl := c', s_fs := f'\<rparr>)"
| terminates: "PodTerminated gv t (s_ctl s) eid n ph = Ret (c', r) \<Longrightarrow>
    step gv sortf s (LTerm t eid n ph) (s\<lparr>s_ctl := c'\<rparr>)"
| reports: "ReportReceived gv t (s_ctl s) eid n b rs = Ret c' \<Longrightarrow>
    step gv sortf s (LReport t eid n b rs) (s\<lparr>s_ctl := c'\<rparr>)"
| turn: "e < length (heap_ex (s_ctl s)) \<Longrightarrow> w < length (ex_workers (heap_ex (s_ctl s) ! e)) \<Longrightarrow>
    worker_turn t e w (s_ctl s) = Some (c', jo) \<Longrightarrow>
    step gv sortf s (LTurn t e w)
      (s\<lparr>s_ctl := c', s_created := s_created s @ (case jo of None \<Rightarrow> [] | Some j \<Rightarrow> [(e, j)])\<rparr>)"
| files: "step gv sortf s (LFiles f') (s\<lparr>s_fs := f'\<rparr>)"

inductive_cases step_TermE: "step gv sortf s (LTerm t eid n ph) s'"
inductive_cases step_TurnE: "step gv sortf s (LTurn t e w) s'"
inductive_simps step_Resume_iff: "step gv sortf s LResume s'"

definition run :: "'g gauge_vec \<Rightarrow> (dir_entry list \<Rightarrow> dir_entry list) \<Rightarrow> 'g sys \<Rightarrow> label list \<Rightarrow> 'g sys \<Rightarrow> bool" where
  "run gv sortf = trace (step gv sortf)"

lemmas run_Nil = trace_Nil [of "step gv sortf" for gv sortf, folded run_def]
lemmas run_Cons = trace_Cons [of "step gv sortf" for gv sortf, folded run_def]
lemmas run_append = trace_append [of "step gv sortf" for gv sortf, folded run_def]
lemmas run_snoc = trace_snoc [of "step gv sortf" for gv sortf, folded run_def]
lemmas run_induct [consumes 1, case_names run_Nil run_Cons] = trace.induct [of "step gv sortf" for gv sortf, folded run_def]

definition init :: "Config \<Rightarrow> 'g Collector \<Rightarrow> fs \<Rightarrow> 'g sys" where
  "init cfg prm f = \<lparr>s_ctl = NewController cfg prm, s_fs = f, s_created = [], s_pending = None\<rparr>"

section \<open>The invariant of one execution\<close>

text \<open>The node whose \<open>CreatePod\<close> a worker is still to call, and the node whose pod it waits for.\<close>

fun todo :: "worker \<Rightarrow> string list" where
  "todo (WCreate j) = [job_Node j]"
| "todo _ = []"

fun held :: "worker \<Rightarrow> string option" where
  "held (WStart j) = Some (job_Node j)"
| "held (WWait j _) = Some (job_Node j)"
| "held _ = None"

fun worker_ok :: "execution \<Rightarrow> worker \<Rightarrow> bool" where
  "worker_ok x (WStart j) = (ex_pods x (job_Node j) \<noteq> None)"
| "worker_ok x (WWait j pa) = (ex_pods x (job_Node j) = Some pa)"
| "worker_ok x WExit = (chan_closed x \<and> chan_buf x = [])"
| "worker_ok x _ = True"

text \<open>
  \<open>cr\<close> are the nodes whose pods were created, \<open>pe\<close> the node (if any) that \<open>AddPod\<close> is blocked
  on, \<open>T\<close> the addresses of terminated pods. The registered nodes are exactly the created ones,
  those in the hands of a worker, the buffered ones and the blocked one, each once; a created
  pod is terminated or has a worker waiting for it.
\<close>

definition pool_inv :: "(nat \<Rightarrow> bool) \<Rightarrow> string list \<Rightarrow> string list \<Rightarrow> execution \<Rightarrow> bool" where
  "pool_inv T cr pe x \<longleftrightarrow>
     length (ex_workers x) = chan_cap x \<and> length (chan_buf x) \<le> chan_cap x
   \<and> finite (dom (ex_pods x))
   \<and> mset_set (dom (ex_pods x)) =
       mset cr + mset (concat (map todo (ex_workers x))) + mset (map job_Node (chan_buf x)) + mset pe
   \<and> (\<forall>wk \<in> set (ex_workers x). worker_ok x wk)
   \<and> (\<forall>n \<in> set cr. (\<exists>pa. ex_pods x n = Some pa \<and> T pa) \<or> Some n \<in> held ` set (ex_workers x))
   \<and> (chan_closed x \<longrightarrow> pe = [])"

lemma pool_invD:
  assumes "pool_inv T cr pe x"
  shows "length (ex_workers x) = chan_cap x" "length (chan_buf x) \<le> chan_cap x" "finite (dom (ex_pods x))"
    "mset_set (dom (ex_pods x)) =
       mset cr + mset (concat (map todo (ex_workers x))) + mset (map job_Node (chan_buf x)) + mset pe"
    "wk \<in> set (ex_workers x) \<Longrightarrow> worker_ok x wk"
    "n \<in> set cr \<Longrightarrow> (\<exists>pa. ex_pods x n = Some pa \<and> T pa) \<or> Some n \<in> held ` set (ex_workers x)"
    "chan_closed x \<Longrightarrow> pe = []"
  using assms unfolding pool_inv_def by blast+

lemma pool_invI:
  assumes "length (ex_workers x) = chan_cap x" "length (chan_buf x) \<le> chan_cap x" "finite (dom (ex_pods x))"
    "mset_set (dom (ex_pods x)) =
       mset cr + mset (concat (map todo (ex_workers x))) + mset (map job_Node (chan_buf x)) + mset pe"
    "\<And>wk. wk \<in> set (ex_workers x) \<Longrightarrow> worker_ok x wk"
    "\<And>n. n \<in> set cr \<Longrightarrow> (\<exists>pa. ex_pods x n = Some pa \<and> T pa) \<or> Some n \<in> held ` set (ex_workers x)"
    "chan_closed x \<Longrightarrow> pe = []"
  shows "pool_inv T cr pe x"
  using assms unfolding pool_inv_def by blast

lemma pool_inv_new: "pool_inv T [] [] (new_execution n eid)"
proof (rule pool_invI)
  have "concat (map todo (replicate (nat n) WIdle)) = []" by (induction "nat n") auto
  then show "mset_set (dom (ex_pods (new_execution n eid))) = mset [] + mset (concat (map todo (ex_workers (new_execution n eid))))
      + mset (map job_Node (chan_buf (new_execution n eid))) + mset []" by simp
qed auto

lemma pool_inv_mono:
  "pool_inv T cr pe x \<Longrightarrow> (\<And>n pa. ex_pods x n = Some pa \<Longrightarrow> T pa \<Longrightarrow> T' pa) \<Longrightarrow> pool_inv T' cr pe x"
  unfolding pool_inv_def by blast

text \<open>The nodes of the invariant are registered.\<close>

lemma pool_inv_dom:
  assumes "pool_inv T cr pe x"
  shows "dom (ex_pods x) = set cr \<union> set (concat (map todo (ex_workers x))) \<union> job_Node ` set (chan_buf x) \<union> set pe"
    and "distinct cr"
proof -
  note d = pool_invD(3,4) [OF assms]
  have "set_mset (mset_set (dom (ex_pods x))) = dom (ex_pods x)" using d(1) by simp
  then show "dom (ex_pods x) = set cr \<union> set (concat (map todo (ex_workers x))) \<union> job_Node ` set (chan_buf x) \<union> set pe"
    unfolding d(2) by auto
  have "count (mset cr) n \<le> 1" for n
  proof -
    have "count (mset_set (dom (ex_pods x))) n \<le> 1" by (simp add: count_mset_set')
    then show ?thesis unfolding d(2) by simp
  qed
  then show "distinct cr" by (metis distinct_count_atmost_1 le_antisym less_one linorder_not_le
      not_gr_zero count_mset_0_iff set_mset_mset count_greater_zero_iff Suc_leI One_nat_def)
qed

section \<open>Preservation on one execution\<close>

lemma mset_set_insert_new: "finite A \<Longrightarrow> a \<notin> A \<Longrightarrow> mset_set (insert a A) = mset_set A + {#a#}"
  by simp

text \<open>Registering a node whose job goes to \<open>buf'\<close> or waits in \<open>pe'\<close>.\<close>

lemma pool_inv_register:
  assumes inv: "pool_inv T cr [] x" and fresh: "ex_pods x (job_Node j) = None"
    and m: "mset (map job_Node buf') + mset pe' = mset (map job_Node (chan_buf x)) + {#job_Node j#}"
    and l: "length buf' \<le> chan_cap x" and op: "\<not> chan_closed x"
  shows "pool_inv T cr pe' (x\<lparr>ex_pods := (ex_pods x)(job_Node j \<mapsto> p), chan_buf := buf'\<rparr>)"
    (is "pool_inv T cr pe' ?x")
proof (rule pool_invI)
  note d = pool_invD [OF inv]
  show "length (ex_workers ?x) = chan_cap ?x" "length (chan_buf ?x) \<le> chan_cap ?x" "finite (dom (ex_pods ?x))"
    using d(1,3) l by simp_all
  have "job_Node j \<notin> dom (ex_pods x)" using fresh by auto
  then show "mset_set (dom (ex_pods ?x)) = mset cr + mset (concat (map todo (ex_workers ?x)))
      + mset (map job_Node (chan_buf ?x)) + mset pe'"
    using d(3,4) m by (simp add: add.assoc)
  show "worker_ok ?x wk" if "wk \<in> set (ex_workers ?x)" for wk
    using d(5) [of wk] that fresh op by (cases wk) (auto simp: domI)
  show "(\<exists>pa. ex_pods ?x n = Some pa \<and> T pa) \<or> Some n \<in> held ` set (ex_workers ?x)" if "n \<in> set cr" for n
    using d(6) [OF that] fresh by auto
  show "chan_closed ?x \<Longrightarrow> pe' = []" using op by simp
qed

text \<open>The blocked sender gets through.\<close>

lemma pool_inv_resume:
  assumes inv: "pool_inv T cr [job_Node j] x" and l: "length (chan_buf x) < chan_cap x"
  shows "pool_inv T cr [] (x\<lparr>chan_buf := chan_buf x @ [j]\<rparr>)" (is "pool_inv T cr [] ?x")
proof (rule pool_invI)
  note d = pool_invD [OF inv]
  have op: "\<not> chan_closed x" using d(7) by auto
  show "length (ex_workers ?x) = chan_cap ?x" "length (chan_buf ?x) \<le> chan_cap ?x" "finite (dom (ex_pods ?x))"
    using d(1,3) l by simp_all
  show "mset_set (dom (ex_pods ?x)) = mset cr + mset (concat (map todo (ex_workers ?x)))
      + mset (map job_Node (chan_buf ?x)) + mset []"
    using d(4) by simp
  show "worker_ok ?x wk" if "wk \<in> set (ex_workers ?x)" for wk
    using d(5) [of wk] that op by (cases wk) auto
  show "(\<exists>pa. ex_pods ?x n = Some pa \<and> T pa) \<or> Some n \<in> held ` set (ex_workers ?x)" if "n \<in> set cr" for n
    using d(6) [OF that] by simp
qed simp

lemma pool_inv_close:
  assumes inv: "pool_inv T cr [] x"
  shows "pool_inv T cr [] (x\<lparr>chan_closed := True\<rparr>)" (is "pool_inv T cr [] ?x")
proof (rule pool_invI)
  note d = pool_invD [OF inv]
  show "length (ex_workers ?x) = chan_cap ?x" "length (chan_buf ?x) \<le> chan_cap ?x" "finite (dom (ex_pods ?x))"
    "mset_set (dom (ex_pods ?x)) = mset cr + mset (concat (map todo (ex_workers ?x)))
      + mset (map job_Node (chan_buf ?x)) + mset []"
    using d by simp_all
  show "worker_ok ?x wk" if "wk \<in> set (ex_workers ?x)" for wk
    using d(5) [of wk] that by (cases wk) auto
  show "(\<exists>pa. ex_pods ?x n = Some pa \<and> T pa) \<or> Some n \<in> held ` set (ex_workers ?x)" if "n \<in> set cr" for n
    using d(6) [OF that] by simp
qed simp

text \<open>A worker moves from \<open>old\<close> to \<open>new\<close>, the buffer to \<open>buf'\<close>, the created nodes to \<open>cr'\<close>.\<close>

lemma pool_inv_worker:
  assumes inv: "pool_inv T cr pe x" and w: "w < length (ex_workers x)"
    and m: "mset cr' + mset (todo new) + mset (map job_Node buf') =
      mset cr + mset (todo (ex_workers x ! w)) + mset (map job_Node (chan_buf x))"
    and l: "length buf' \<le> chan_cap x" and b: "chan_buf x = [] \<Longrightarrow> buf' = []"
    and ok: "worker_ok (x\<lparr>chan_buf := buf'\<rparr>) new"
    and cr: "\<And>n. n \<in> set cr' \<Longrightarrow> n \<notin> set cr \<Longrightarrow> held new = Some n"
    and h: "\<And>n. held (ex_workers x ! w) = Some n \<Longrightarrow> held new = Some n \<or> (\<exists>pa. ex_pods x n = Some pa \<and> T pa)"
  shows "pool_inv T cr' pe (x\<lparr>ex_workers := (ex_workers x)[w := new], chan_buf := buf'\<rparr>)"
    (is "pool_inv T cr' pe ?x")
proof (rule pool_invI)
  note d = pool_invD [OF inv]
  show "length (ex_workers ?x) = chan_cap ?x" "length (chan_buf ?x) \<le> chan_cap ?x" "finite (dom (ex_pods ?x))"
    using d(1,3) l by simp_all
  have "mset (concat (map todo (ex_workers ?x))) + mset (todo (ex_workers x ! w))
      = mset (concat (map todo (ex_workers x))) + mset (todo new)"
    using mset_concat_update [OF w] by simp
  then have "mset cr' + mset (concat (map todo (ex_workers ?x))) + mset (map job_Node buf') + mset (todo (ex_workers x ! w))
      = mset cr' + mset (todo new) + mset (map job_Node buf') + mset (concat (map todo (ex_workers x)))"
    by (simp add: add.assoc add.left_commute add.commute)
  also have "\<dots> = mset cr + mset (concat (map todo (ex_workers x))) + mset (map job_Node (chan_buf x)) + mset (todo (ex_workers x ! w))"
    unfolding m by (simp add: add.assoc add.left_commute add.commute)
  finally have "mset cr' + mset (concat (map todo (ex_workers ?x))) + mset (map job_Node buf')
      = mset cr + mset (concat (map todo (ex_workers x))) + mset (map job_Node (chan_buf x))" by simp
  then show "mset_set (dom (ex_pods ?x)) = mset cr' + mset (concat (map todo (ex_workers ?x)))
      + mset (map job_Node (chan_buf ?x)) + mset pe"
    using d(4) by simp
  show "worker_ok ?x wk" if wk: "wk \<in> set (ex_workers ?x)" for wk
  proof -
    from wk have "wk = new \<or> wk \<in> set (ex_workers x)" by (auto dest: set_update_cases)
    then show ?thesis
    proof
      assume "wk = new"
      with ok show ?thesis by (cases new) auto
    next
      assume "wk \<in> set (ex_workers x)"
      from d(5) [OF this] b show ?thesis by (cases wk) auto
    qed
  qed
  show "(\<exists>pa. ex_pods ?x n = Some pa \<and> T pa) \<or> Some n \<in> held ` set (ex_workers ?x)" if n: "n \<in> set cr'" for n
  proof -
    have new: "new \<in> set (ex_workers ?x)" using w by (simp add: set_update_memI)
    show ?thesis
    proof (cases "n \<in> set cr")
      case False
      with cr n new show ?thesis by (metis image_eqI)
    next
      case True
      from d(6) [OF this] show ?thesis
      proof
        assume "Some n \<in> held ` set (ex_workers x)"
        then obtain wk where wk: "wk \<in> set (ex_workers x)" "held wk = Some n" by auto
        show ?thesis
        proof (cases "wk = ex_workers x ! w")
          case True
          with h [of n] wk(2) new show ?thesis by (auto intro: image_eqI [of _ _ new])
        next
          case False
          with wk have "wk \<in> set (ex_workers ?x)" by (auto intro: in_set_update_other)
          with wk(2) show ?thesis by (metis image_eqI)
        qed
      qed simp
    qed
  qed
  show "chan_closed ?x \<Longrightarrow> pe = []" using d(7) by simp
qed

section \<open>The invariant of the system\<close>

definition created_nodes :: "nat \<Rightarrow> 'g sys \<Rightarrow> string list" where
  "created_nodes e s = map (\<lambda>(_, j). job_Node j) (filter (\<lambda>(e', _). e' = e) (s_created s))"

definition pending_nodes :: "nat \<Rightarrow> 'g sys \<Rightarrow> string list" where
  "pending_nodes e s = (case s_pending s of None \<Rightarrow> [] | Some (e', j) \<Rightarrow> if e' = e then [job_Node j] else [])"

definition is_terminated :: "'g controller \<Rightarrow> nat \<Rightarrow> bool" where
  "is_terminated c p \<longleftrightarrow> p < length (heap_pod c) \<and> terminated (heap_pod c ! p) \<noteq> None"

definition ex_ok :: "'g sys \<Rightarrow> nat \<Rightarrow> bool" where
  "ex_ok s e \<longleftrightarrow> pool_inv (is_terminated (s_ctl s)) (created_nodes e s) (pending_nodes e s) (heap_ex (s_ctl s) ! e)
     \<and> chan_cap (heap_ex (s_ctl s) ! e) = nat (podPoolSize (s_ctl s))"

definition sys_ok :: "'g sys \<Rightarrow> bool" where
  "sys_ok s \<longleftrightarrow> heap_ok (s_ctl s)
     \<and> (\<forall>e < length (heap_ex (s_ctl s)). ex_ok s e)
     \<and> (\<forall>(e, j) \<in> set (s_created s). e < length (heap_ex (s_ctl s)))
     \<and> (\<forall>e j. s_pending s = Some (e, j) \<longrightarrow> e < length (heap_ex (s_ctl s)))"

lemma sys_okD:
  assumes "sys_ok s"
  shows "heap_ok (s_ctl s)" "e < length (heap_ex (s_ctl s)) \<Longrightarrow> ex_ok s e"
    "(e, j) \<in> set (s_created s) \<Longrightarrow> e < length (heap_ex (s_ctl s))"
    "s_pending s = Some (e, j) \<Longrightarrow> e < length (heap_ex (s_ctl s))"
  using assms unfolding sys_ok_def by blast+

lemma sys_okI:
  assumes "heap_ok (s_ctl s)" "\<And>e. e < length (heap_ex (s_ctl s)) \<Longrightarrow> ex_ok s e"
    "\<And>e j. (e, j) \<in> set (s_created s) \<Longrightarrow> e < length (heap_ex (s_ctl s))"
    "\<And>e j. s_pending s = Some (e, j) \<Longrightarrow> e < length (heap_ex (s_ctl s))"
  shows "sys_ok s"
  using assms unfolding sys_ok_def by blast

lemma sys_ok_init: "sys_ok (init cfg prm f)"
  by (rule sys_okI) (simp_all add: init_def heap_ok_NewController, simp add: NewController_def)

lemma ex_ok_same:
  assumes "ex_ok s e" and "heap_ex (s_ctl s') ! e = heap_ex (s_ctl s) ! e"
    and "created_nodes e s' = created_nodes e s" and "pending_nodes e s' = pending_nodes e s"
    and "podPoolSize (s_ctl s') = podPoolSize (s_ctl s)"
    and "\<And>p. is_terminated (s_ctl s) p \<Longrightarrow> is_terminated (s_ctl s') p"
  shows "ex_ok s' e"
  using assms pool_inv_mono unfolding ex_ok_def by (metis (no_types, lifting))

end
