(* ===== verification/Pool_Invariant.thy ===== *)
theory Pool_Invariant
  imports Pool
begin

text \<open>
  Every step of the pool preserves its invariant; what the operations change is stated once
  per operation and the invariant of each execution follows from the lemmas of \<open>Pool\<close>.
\<close>

section \<open>Effects of the steps\<close>

lemma forID_Inr: "forID c i = Inr e \<longleftrightarrow> executions c i = Some e"
  by (auto simp: forID_def split: option.splits)

definition new_pod :: "string \<Rightarrow> pod" where
  "new_pod n = \<lparr>pod_node = n, started = zero_time, terminated = None, reportReceived = None, status = []\<rparr>"

lemma AddPod_done:
  assumes "AddPod c j = AddDone c'"
  obtains e x where "executions c (job_ID j) = Some e" "x = heap_ex c ! e" "e < length (heap_ex c) \<Longrightarrow> \<not> chan_closed x"
    "e < length (heap_ex c) \<Longrightarrow> length (chan_buf x) < chan_cap x"
    "e < length (heap_ex c) \<Longrightarrow> heap_ex c' = (heap_ex c)[e := x\<lparr>ex_pods := (ex_pods x)(job_Node j \<mapsto> length (heap_pod c)),
        chan_buf := chan_buf x @ [j]\<rparr>]"
    "heap_pod c' = heap_pod c @ [new_pod (job_Node j)]" "executions c' = executions c"
    "podPoolSize c' = podPoolSize c"
proof -
  obtain e where e: "executions c (job_ID j) = Some e"
    using assms by (auto simp: AddPod_def forID_def split: option.splits)
  have s: "chan_send e j (register_pod e j c) = AddDone c'"
    using assms e by (simp add: AddPod_def forID_def)
  show thesis
    by (rule that [OF e refl])
      (use s in \<open>auto simp: chan_send_def register_pod_def upd_ex_def Let_def new_pod_def split: if_splits\<close>)
qed

lemma AddPod_blocked:
  assumes "AddPod c j = AddBlocked e c'"
  obtains x where "executions c (job_ID j) = Some e" "x = heap_ex c ! e" "e < length (heap_ex c) \<Longrightarrow> \<not> chan_closed x"
    "e < length (heap_ex c) \<Longrightarrow> \<not> length (chan_buf x) < chan_cap x"
    "e < length (heap_ex c) \<Longrightarrow> heap_ex c' = (heap_ex c)[e := x\<lparr>ex_pods := (ex_pods x)(job_Node j \<mapsto> length (heap_pod c))\<rparr>]"
    "heap_pod c' = heap_pod c @ [new_pod (job_Node j)]" "executions c' = executions c"
    "podPoolSize c' = podPoolSize c"
proof -
  obtain e' where e': "executions c (job_ID j) = Some e'"
    using assms by (auto simp: AddPod_def forID_def split: option.splits)
  have s: "chan_send e' j (register_pod e' j c) = AddBlocked e c'"
    using assms e' by (simp add: AddPod_def forID_def)
  then have e: "e' = e" by (auto simp: chan_send_def Let_def split: if_splits)
  show thesis
    by (rule that [OF e' [unfolded e] refl])
      (use s in \<open>auto simp: e chan_send_def register_pod_def upd_ex_def Let_def new_pod_def split: if_splits\<close>)
qed

lemma chan_send_done:
  assumes "chan_send e j c = AddDone c'"
  shows "\<not> chan_closed (heap_ex c ! e)" "length (chan_buf (heap_ex c ! e)) < chan_cap (heap_ex c ! e)"
    "c' = upd_ex e (\<lambda>x. x\<lparr>chan_buf := chan_buf x @ [j]\<rparr>) c"
  using assms by (auto simp: chan_send_def Let_def split: if_splits)

lemma AllAdded_effect:
  assumes "AllAdded gv sortf t c s eid = Ret (c', s', r)"
  shows "heap_pod c' = heap_pod c" "podPoolSize c' = podPoolSize c" "executions c' \<subseteq>\<^sub>m executions c"
    "heap_ex c' = heap_ex c \<or> (\<exists>e. executions c eid = Some e
      \<and> heap_ex c' = (heap_ex c)[e := (heap_ex c ! e)\<lparr>chan_closed := True\<rparr>])"
proof -
  have "heap_pod c' = heap_pod c \<and> podPoolSize c' = podPoolSize c \<and> executions c' \<subseteq>\<^sub>m executions c
    \<and> (heap_ex c' = heap_ex c \<or> (\<exists>e. executions c eid = Some e
      \<and> heap_ex c' = (heap_ex c)[e := (heap_ex c ! e)\<lparr>chan_closed := True\<rparr>]))"
    using assms
  proof (cases rule: AllAdded_cases)
    case (closed e files n c1)
    from prune_files_effect [OF closed(4)] closed(1) show ?thesis
      by (auto simp: closed(6) forID_Inr upd_ex_def map_le_def)
  qed auto
  then show "heap_pod c' = heap_pod c" "podPoolSize c' = podPoolSize c" "executions c' \<subseteq>\<^sub>m executions c"
    "heap_ex c' = heap_ex c \<or> (\<exists>e. executions c eid = Some e
      \<and> heap_ex c' = (heap_ex c)[e := (heap_ex c ! e)\<lparr>chan_closed := True\<rparr>])" by blast+
qed

text \<open>Terminations and reports leave the executions alone and keep pods terminated.\<close>

lemma PodTerminated_pool:
  assumes "PodTerminated gv t c eid n ph = Ret (c', r)"
  shows "podPoolSize c' = podPoolSize c" "is_terminated c p \<Longrightarrow> is_terminated c' p"
proof -
  have "podPoolSize c' = podPoolSize c" using assms by (cases rule: PodTerminated_cases) auto
  then show "podPoolSize c' = podPoolSize c" .
  show "is_terminated c p \<Longrightarrow> is_terminated c' p"
    using PodTerminated_effect(4,7) [OF assms] unfolding is_terminated_def by metis
qed

lemma ReportReceived_pool:
  assumes "ReportReceived gv t c eid n b rs = Ret c'"
  shows "podPoolSize c' = podPoolSize c" "is_terminated c p \<Longrightarrow> is_terminated c' p"
proof -
  have "podPoolSize c' = podPoolSize c" using assms by (cases rule: ReportReceived_cases) auto
  then show "podPoolSize c' = podPoolSize c" .
  show "is_terminated c p \<Longrightarrow> is_terminated c' p"
    using ReportReceived_effect(4,6) [OF assms] unfolding is_terminated_def by metis
qed

text \<open>The turns of a worker, on a well-formed execution.\<close>

lemma chan_buf_same: "chan_buf x = b \<Longrightarrow> x\<lparr>ex_workers := ws, chan_buf := b\<rparr> = x\<lparr>ex_workers := ws\<rparr>"
  by (cases x) simp

lemma buf_workers_commute: "x\<lparr>chan_buf := b, ex_workers := ws\<rparr> = x\<lparr>ex_workers := ws, chan_buf := b\<rparr>"
  by (cases x) simp

lemma worker_turn_effect:
  assumes t: "worker_turn t e w c = Some (c', jo)" and e: "e < length (heap_ex c)"
    and p: "\<And>n pa. ex_pods (heap_ex c ! e) n = Some pa \<Longrightarrow> pa < length (heap_pod c)"
  obtains new buf' where
    "heap_ex c' = (heap_ex c)[e := (heap_ex c ! e)\<lparr>ex_workers := (ex_workers (heap_ex c ! e))[w := new], chan_buf := buf'\<rparr>]"
    "executions c' = executions c" "podPoolSize c' = podPoolSize c" "length (heap_pod c') = length (heap_pod c)"
    "\<And>q. pod_node (heap_pod c' ! q) = pod_node (heap_pod c ! q)"
    "\<And>q. terminated (heap_pod c' ! q) = terminated (heap_pod c ! q)"
    "(case ex_workers (heap_ex c ! e) ! w of
        WIdle \<Rightarrow> jo = None \<and> ((\<exists>j. chan_buf (heap_ex c ! e) = j # buf' \<and> new = WCreate j)
             \<or> (chan_buf (heap_ex c ! e) = [] \<and> buf' = [] \<and> chan_closed (heap_ex c ! e) \<and> new = WExit))
      | WCreate j \<Rightarrow> jo = Some j \<and> buf' = chan_buf (heap_ex c ! e) \<and> new = WStart j
      | WStart j \<Rightarrow> jo = None \<and> buf' = chan_buf (heap_ex c ! e) \<and>
          (case ex_pods (heap_ex c ! e) (job_Node j) of None \<Rightarrow> new = WExit | Some pa \<Rightarrow> new = WWait j pa)
      | WWait j pa \<Rightarrow> jo = None \<and> buf' = chan_buf (heap_ex c ! e) \<and> terminated (heap_pod c ! pa) \<noteq> None \<and> new = WIdle
      | WExit \<Rightarrow> False)"
proof (cases "ex_workers (heap_ex c ! e) ! w")
  case WIdle
  show thesis
  proof (cases "chan_buf (heap_ex c ! e)")
    case Nil
    then show thesis
      using t e WIdle by (intro that [of "[]" WExit])
        (auto simp: worker_turn_def chan_buf_same set_worker_def upd_ex_def split: if_splits)
  next
    case (Cons j js)
    then show thesis
      using t e WIdle by (intro that [of js "WCreate j"])
        (auto simp: worker_turn_def buf_workers_commute set_worker_def upd_ex_def split: if_splits)
  qed
next
  case (WCreate j)
  then show thesis
    using t e by (intro that [of "chan_buf (heap_ex c ! e)" "WStart j"])
      (auto simp: worker_turn_def set_worker_def upd_ex_def split: if_splits)
next
  case (WStart j)
  show thesis
  proof (cases "ex_pods (heap_ex c ! e) (job_Node j)")
    case None
    then show thesis
      using t e WStart by (intro that [of "chan_buf (heap_ex c ! e)" "WExit"])
        (auto simp: worker_turn_def set_worker_def upd_ex_def ex_pod_def split: if_splits)
  next
    case (Some pa)
    have "pa < length (heap_pod c)" by (rule p [OF Some])
    with Some show thesis
      using t e WStart by (intro that [of "chan_buf (heap_ex c ! e)" "WWait j pa"])
        (auto simp: worker_turn_def set_worker_def upd_ex_def ex_pod_def upd_pod_def addProgress_def
          nth_list_update split: if_splits)
  qed
next
  case (WWait j pa)
  then show thesis
    using t e by (intro that [of "chan_buf (heap_ex c ! e)" "WIdle"])
      (auto simp: worker_turn_def set_worker_def upd_ex_def addProgress_def split: if_splits)
next
  case WExit
  with t show thesis by (simp add: worker_turn_def)
qed

section \<open>The heap of pods\<close>

lemma heap_ok_add:
  assumes ok: "heap_ok c" and e: "e < length (heap_ex c)"
    and x: "heap_ex c' = (heap_ex c)[e := (heap_ex c ! e)\<lparr>ex_pods := (ex_pods (heap_ex c ! e))(n \<mapsto> length (heap_pod c)), chan_buf := b\<rparr>]"
    and p: "heap_pod c' = heap_pod c @ [new_pod n]" and m: "executions c' = executions c"
  shows "heap_ok c'"
  unfolding heap_ok_def
proof (intro conjI allI impI)
  fix i a
  assume "executions c' i = Some a"
  then show "a < length (heap_ex c')" and "ex_id (heap_ex c' ! a) = i"
    using heap_ok_execution [OF ok, of i a] by (auto simp: m x nth_upd)
next
  fix a k q
  assume a: "a < length (heap_ex c')" "ex_pods (heap_ex c' ! a) k = Some q"
  have "(a = e \<and> k = n \<and> q = length (heap_pod c)) \<or> ex_pods (heap_ex c ! a) k = Some q"
    using a e by (auto simp: x nth_upd split: if_splits)
  then show "q < length (heap_pod c')" and "pod_node (heap_pod c' ! q) = k"
    using heap_ok_pod [OF ok, of a k q] a(1) by (auto simp: p x nth_append new_pod_def)
next
  fix a1 a2 k1 k2 q
  assume a: "a1 < length (heap_ex c')" "a2 < length (heap_ex c')" "ex_pods (heap_ex c' ! a1) k1 = Some q"
    "ex_pods (heap_ex c' ! a2) k2 = Some q"
  have "(a = e \<and> q = length (heap_pod c)) \<or> ex_pods (heap_ex c ! a) k = Some q"
    if "ex_pods (heap_ex c' ! a) k = Some q" "a < length (heap_ex c')" for a k
    using that e by (auto simp: x nth_upd split: if_splits)
  from this [OF a(3,1)] this [OF a(4,2)]
  show "a1 = a2"
    using heap_ok_unique [OF ok, of a1 a2 k1 q k2] heap_ok_pod [OF ok, of a1 k1 q] heap_ok_pod [OF ok, of a2 k2 q] a(1,2)
    by (auto simp: x)
qed

section \<open>Preservation by the steps\<close>

lemma created_nodes_snoc:
  "created_nodes e (s\<lparr>s_ctl := c, s_created := s_created s @ [(e', j)]\<rparr>) =
     created_nodes e s @ (if e' = e then [job_Node j] else [])"
  by (simp add: created_nodes_def)

lemma pool_nodes_frame [simp]:
  "created_nodes e (s\<lparr>s_ctl := c\<rparr>) = created_nodes e s"
  "created_nodes e (s\<lparr>s_fs := f\<rparr>) = created_nodes e s"
  "created_nodes e (s\<lparr>s_pending := q\<rparr>) = created_nodes e s"
  "pending_nodes e (s\<lparr>s_ctl := c\<rparr>) = pending_nodes e s"
  "pending_nodes e (s\<lparr>s_fs := f\<rparr>) = pending_nodes e s"
  "pending_nodes e (s\<lparr>s_created := l\<rparr>) = pending_nodes e s"
  by (simp_all add: created_nodes_def pending_nodes_def)

lemma pending_None: "s_pending s = None \<Longrightarrow> pending_nodes e s = []"
  by (simp add: pending_nodes_def)

lemma created_unallocated: "sys_ok s \<Longrightarrow> e \<ge> length (heap_ex (s_ctl s)) \<Longrightarrow> created_nodes e s = []"
  unfolding created_nodes_def by (force simp: filter_empty_conv dest: sys_okD(3))

lemma is_terminated_cong:
  "heap_pod c' = heap_pod c \<Longrightarrow> is_terminated c' = is_terminated c"
  by (simp add: is_terminated_def fun_eq_iff)

lemma is_terminated_append:
  "heap_pod c' = heap_pod c @ [new_pod n] \<Longrightarrow> is_terminated c' p = is_terminated c p"
  by (auto simp: is_terminated_def nth_append new_pod_def)

lemma sys_ok_new:
  assumes ok: "sys_ok s" and pe: "s_pending s = None"
    and r: "NewExecution gv False clk (s_ctl s) (s_fs s) n = Ret (eid, c', f')"
  shows "sys_ok (s\<lparr>s_ctl := c', s_fs := f'\<rparr>)" (is "sys_ok ?s")
proof -
  let ?c = "s_ctl s"
  have h: "heap_ex c' = heap_ex ?c @ [new_execution (podPoolSize ?c) eid]" "heap_pod c' = heap_pod ?c"
    "podPoolSize c' = podPoolSize ?c"
    using r by (auto elim: NewExecution_cases)
  show ?thesis
  proof (rule sys_okI)
    show "heap_ok (s_ctl ?s)" using NewExecution_ok [OF sys_okD(1) [OF ok] r] by simp
    fix e
    assume e: "e < length (heap_ex (s_ctl ?s))"
    show "ex_ok ?s e"
    proof (cases "e < length (heap_ex ?c)")
      case True
      show ?thesis
        by (rule ex_ok_same [OF sys_okD(2) [OF ok True]])
          (use True in \<open>simp_all add: h nth_append is_terminated_def\<close>)
    next
      case False
      with e have "e = length (heap_ex ?c)" by (simp add: h)
      moreover have "created_nodes e ?s = []"
        using created_unallocated [OF ok, of e] False by simp
      ultimately show ?thesis by (simp add: ex_ok_def h pool_inv_new pending_None [OF pe])
    qed
  next
    fix e j
    show "(e, j) \<in> set (s_created ?s) \<Longrightarrow> e < length (heap_ex (s_ctl ?s))"
      using sys_okD(3) [OF ok, of e j] by (simp add: h)
    show "s_pending ?s = Some (e, j) \<Longrightarrow> e < length (heap_ex (s_ctl ?s))" using pe by simp
  qed
qed

text \<open>A step that changes the execution at \<open>e\<close> to \<open>x'\<close> and nothing else of the pool.\<close>

lemma sys_ok_update:
  assumes ok: "sys_ok s" and hok: "heap_ok (s_ctl s')"
    and e: "e < length (heap_ex (s_ctl s))" and h: "heap_ex (s_ctl s') = (heap_ex (s_ctl s))[e := x']"
    and x': "pool_inv (is_terminated (s_ctl s)) (created_nodes e s') (pending_nodes e s') x'" "chan_cap x' = chan_cap (heap_ex (s_ctl s) ! e)"
    and o: "\<And>a. a \<noteq> e \<Longrightarrow> created_nodes a s' = created_nodes a s" "\<And>a. a \<noteq> e \<Longrightarrow> pending_nodes a s' = pending_nodes a s"
    and p: "podPoolSize (s_ctl s') = podPoolSize (s_ctl s)"
    and t: "\<And>q. is_terminated (s_ctl s) q \<Longrightarrow> is_terminated (s_ctl s') q"
    and cr: "set (s_created s') \<subseteq> set (s_created s) \<union> {e} \<times> UNIV"
    and pe: "s_pending s' \<noteq> None \<Longrightarrow> s_pending s' = s_pending s \<or> fst (the (s_pending s')) = e"
  shows "sys_ok s'"
proof (rule sys_okI)
  show "heap_ok (s_ctl s')" by (rule hok)
  fix a
  assume a: "a < length (heap_ex (s_ctl s'))"
  show "ex_ok s' a"
  proof (cases "a = e")
    case True
    have "chan_cap (heap_ex (s_ctl s) ! e) = nat (podPoolSize (s_ctl s))"
      using sys_okD(2) [OF ok e] by (simp add: ex_ok_def)
    then show ?thesis
      using pool_inv_mono [OF x'(1), of "is_terminated (s_ctl s')"] t x'(2) e by (simp add: ex_ok_def h p True)
  next
    case False
    have "a < length (heap_ex (s_ctl s))" using a by (simp add: h)
    from sys_okD(2) [OF ok this] show ?thesis
      by (rule ex_ok_same) (use False in \<open>simp_all add: o p t h\<close>)
  qed
next
  fix a j
  assume "(a, j) \<in> set (s_created s')"
  with cr sys_okD(3) [OF ok, of a j] e show "a < length (heap_ex (s_ctl s'))" by (auto simp: h)
next
  fix a j
  assume "s_pending s' = Some (a, j)"
  with pe sys_okD(4) [OF ok, of a j] e show "a < length (heap_ex (s_ctl s'))" by (auto simp: h)
qed

lemma fresh_pod:
  "fresh_job c j \<Longrightarrow> executions c (job_ID j) = Some e \<Longrightarrow> ex_pods (heap_ex c ! e) (job_Node j) = None"
  by (simp add: fresh_job_def forID_def)

lemma sys_ok_add:
  assumes ok: "sys_ok s" and pe: "s_pending s = None" and f: "fresh_job (s_ctl s) j"
    and r: "AddPod (s_ctl s) j = AddDone c'"
  shows "sys_ok (s\<lparr>s_ctl := c'\<rparr>)"
  using r
proof (rule AddPod_done)
  fix e x
  assume e: "executions (s_ctl s) (job_ID j) = Some e" and x: "x = heap_ex (s_ctl s) ! e"
    and op: "e < length (heap_ex (s_ctl s)) \<Longrightarrow> \<not> chan_closed x"
    and l: "e < length (heap_ex (s_ctl s)) \<Longrightarrow> length (chan_buf x) < chan_cap x"
    and h: "e < length (heap_ex (s_ctl s)) \<Longrightarrow> heap_ex c' = (heap_ex (s_ctl s))
      [e := x\<lparr>ex_pods := (ex_pods x)(job_Node j \<mapsto> length (heap_pod (s_ctl s))), chan_buf := chan_buf x @ [j]\<rparr>]"
    and p: "heap_pod c' = heap_pod (s_ctl s) @ [new_pod (job_Node j)]" "executions c' = executions (s_ctl s)"
      "podPoolSize c' = podPoolSize (s_ctl s)"
  have el: "e < length (heap_ex (s_ctl s))" using heap_ok_execution [OF sys_okD(1) [OF ok] e] by blast
  have i: "pool_inv (is_terminated (s_ctl s)) (created_nodes e s) [] x"
    using sys_okD(2) [OF ok el] pending_None [OF pe] by (simp add: ex_ok_def x)
  show ?thesis
  proof (rule sys_ok_update [OF ok _ el])
    show "heap_ok (s_ctl (s\<lparr>s_ctl := c'\<rparr>))"
      using heap_ok_add [OF sys_okD(1) [OF ok] el h [OF el, unfolded x] p(1,2)] by simp
    show "heap_ex (s_ctl (s\<lparr>s_ctl := c'\<rparr>)) = (heap_ex (s_ctl s))
      [e := x\<lparr>ex_pods := (ex_pods x)(job_Node j \<mapsto> length (heap_pod (s_ctl s))), chan_buf := chan_buf x @ [j]\<rparr>]"
      using h [OF el] by simp
    show "pool_inv (is_terminated (s_ctl s)) (created_nodes e (s\<lparr>s_ctl := c'\<rparr>)) (pending_nodes e (s\<lparr>s_ctl := c'\<rparr>))
        (x\<lparr>ex_pods := (ex_pods x)(job_Node j \<mapsto> length (heap_pod (s_ctl s))), chan_buf := chan_buf x @ [j]\<rparr>)"
      using pool_inv_register [OF i, of j "chan_buf x @ [j]" "[]" "length (heap_pod (s_ctl s))"]
        fresh_pod [OF f e] op [OF el] l [OF el] pending_None [OF pe] by (simp add: x)
  qed (simp_all add: x p pe is_terminated_append)
qed

lemma sys_ok_add_blocks:
  assumes ok: "sys_ok s" and pe: "s_pending s = None" and f: "fresh_job (s_ctl s) j"
    and r: "AddPod (s_ctl s) j = AddBlocked e c'"
  shows "sys_ok (s\<lparr>s_ctl := c', s_pending := Some (e, j)\<rparr>)" (is "sys_ok ?s")
  using r
proof (rule AddPod_blocked)
  fix x
  assume e: "executions (s_ctl s) (job_ID j) = Some e" and x: "x = heap_ex (s_ctl s) ! e"
    and op: "e < length (heap_ex (s_ctl s)) \<Longrightarrow> \<not> chan_closed x"
    and h: "e < length (heap_ex (s_ctl s)) \<Longrightarrow> heap_ex c' = (heap_ex (s_ctl s))
      [e := x\<lparr>ex_pods := (ex_pods x)(job_Node j \<mapsto> length (heap_pod (s_ctl s)))\<rparr>]"
    and p: "heap_pod c' = heap_pod (s_ctl s) @ [new_pod (job_Node j)]" "executions c' = executions (s_ctl s)"
      "podPoolSize c' = podPoolSize (s_ctl s)"
  have el: "e < length (heap_ex (s_ctl s))" using heap_ok_execution [OF sys_okD(1) [OF ok] e] by blast
  have i: "pool_inv (is_terminated (s_ctl s)) (created_nodes e s) [] x"
    using sys_okD(2) [OF ok el] pending_None [OF pe] by (simp add: ex_ok_def x)
  have xb: "x\<lparr>ex_pods := q, chan_buf := chan_buf x\<rparr> = x\<lparr>ex_pods := q\<rparr>" for q by (cases x) simp
  have h': "heap_ex c' = (heap_ex (s_ctl s))
      [e := x\<lparr>ex_pods := (ex_pods x)(job_Node j \<mapsto> length (heap_pod (s_ctl s))), chan_buf := chan_buf x\<rparr>]"
    unfolding xb by (rule h [OF el])
  show ?thesis
  proof (rule sys_ok_update [OF ok _ el])
    show "heap_ok (s_ctl ?s)"
      using heap_ok_add [OF sys_okD(1) [OF ok] el h' [unfolded x] p(1,2)] by simp
    show "heap_ex (s_ctl ?s) = (heap_ex (s_ctl s))
      [e := x\<lparr>ex_pods := (ex_pods x)(job_Node j \<mapsto> length (heap_pod (s_ctl s))), chan_buf := chan_buf x\<rparr>]"
      using h' by simp
    have "pending_nodes e ?s = [job_Node j]" by (simp add: pending_nodes_def)
    then show "pool_inv (is_terminated (s_ctl s)) (created_nodes e ?s) (pending_nodes e ?s)
        (x\<lparr>ex_pods := (ex_pods x)(job_Node j \<mapsto> length (heap_pod (s_ctl s))), chan_buf := chan_buf x\<rparr>)"
      using pool_inv_register [OF i, of j "chan_buf x" "[job_Node j]" "length (heap_pod (s_ctl s))"]
        fresh_pod [OF f e] op [OF el] pool_invD(2) [OF i] by (simp add: x)
    show "\<And>a. a \<noteq> e \<Longrightarrow> pending_nodes a ?s = pending_nodes a s" using pe by (simp add: pending_nodes_def)
  qed (simp_all add: x p is_terminated_append)
qed

lemma sys_ok_resume:
  assumes ok: "sys_ok s" and pe: "s_pending s = Some (e, j)" and r: "chan_send e j (s_ctl s) = AddDone c'"
  shows "sys_ok (s\<lparr>s_ctl := c', s_pending := None\<rparr>)" (is "sys_ok ?s")
proof -
  let ?x = "heap_ex (s_ctl s) ! e"
  have el: "e < length (heap_ex (s_ctl s))" using sys_okD(4) [OF ok pe] .
  note c = chan_send_done [OF r]
  have "pending_nodes e s = [job_Node j]" by (simp add: pending_nodes_def pe)
  then have i: "pool_inv (is_terminated (s_ctl s)) (created_nodes e s) [job_Node j] ?x"
    using sys_okD(2) [OF ok el] by (simp add: ex_ok_def)
  show ?thesis
  proof (rule sys_ok_update [OF ok _ el])
    show "heap_ok (s_ctl ?s)"
      by (rule heap_ok_cong [OF sys_okD(1) [OF ok]]) (use el in \<open>simp_all add: c(3)\<close>)
    show "heap_ex (s_ctl ?s) = (heap_ex (s_ctl s))[e := ?x\<lparr>chan_buf := chan_buf ?x @ [j]\<rparr>]"
      by (simp add: c(3) upd_ex_def)
    have "pending_nodes e ?s = []" by (simp add: pending_nodes_def)
    then show "pool_inv (is_terminated (s_ctl s)) (created_nodes e ?s) (pending_nodes e ?s) (?x\<lparr>chan_buf := chan_buf ?x @ [j]\<rparr>)"
      using pool_inv_resume [OF i c(2)] by simp
    show "\<And>a. a \<noteq> e \<Longrightarrow> pending_nodes a ?s = pending_nodes a s" by (simp add: pending_nodes_def pe)
  qed (simp_all add: c(3) is_terminated_def)
qed

text \<open>A step that changes no execution.\<close>

lemma sys_ok_same:
  assumes ok: "sys_ok s" and hok: "heap_ok c'" and h: "heap_ex c' = heap_ex (s_ctl s)"
    and p: "podPoolSize c' = podPoolSize (s_ctl s)"
    and t: "\<And>q. is_terminated (s_ctl s) q \<Longrightarrow> is_terminated c' q"
  shows "sys_ok (s\<lparr>s_ctl := c', s_fs := f'\<rparr>)"
proof (rule sys_okI)
  fix e
  assume "e < length (heap_ex (s_ctl (s\<lparr>s_ctl := c', s_fs := f'\<rparr>)))"
  then have "ex_ok s e" using sys_okD(2) [OF ok] by (simp add: h)
  then show "ex_ok (s\<lparr>s_ctl := c', s_fs := f'\<rparr>) e" by (rule ex_ok_same) (simp_all add: h p t)
qed (use hok sys_okD(3,4) [OF ok] h in auto)

lemma sys_ok_all_added:
  assumes ok: "sys_ok s" and pe: "s_pending s = None"
    and r: "AllAdded gv sortf t (s_ctl s) (s_fs s) eid = Ret (c', f', x)"
  shows "sys_ok (s\<lparr>s_ctl := c', s_fs := f'\<rparr>)" (is "sys_ok ?s")
proof -
  note a = AllAdded_effect [OF r]
  have t: "is_terminated c' = is_terminated (s_ctl s)" by (simp add: is_terminated_def a fun_eq_iff)
  have hok: "heap_ok c'"
  proof (rule heap_ok_cong [OF sys_okD(1) [OF ok] a(3)])
    show "length (heap_ex c') = length (heap_ex (s_ctl s))" using a(4) by auto
    show "ex_id (heap_ex c' ! e) = ex_id (heap_ex (s_ctl s) ! e) \<and> ex_pods (heap_ex c' ! e) = ex_pods (heap_ex (s_ctl s) ! e)"
      if "e < length (heap_ex (s_ctl s))" for e
      using a(4) that by (auto simp: nth_upd)
  qed (simp_all add: a)
  from a(4) show ?thesis
  proof
    assume h: "heap_ex c' = heap_ex (s_ctl s)"
    show ?thesis by (rule sys_ok_same [OF ok hok h a(2)]) (simp add: t)
  next
    assume "\<exists>e. executions (s_ctl s) eid = Some e
      \<and> heap_ex c' = (heap_ex (s_ctl s))[e := (heap_ex (s_ctl s) ! e)\<lparr>chan_closed := True\<rparr>]"
    then obtain e where e: "executions (s_ctl s) eid = Some e"
      and h: "heap_ex c' = (heap_ex (s_ctl s))[e := (heap_ex (s_ctl s) ! e)\<lparr>chan_closed := True\<rparr>]" by blast
    have el: "e < length (heap_ex (s_ctl s))" using heap_ok_execution [OF sys_okD(1) [OF ok] e] by blast
    have i: "pool_inv (is_terminated (s_ctl s)) (created_nodes e s) [] (heap_ex (s_ctl s) ! e)"
      using sys_okD(2) [OF ok el] pending_None [OF pe] by (simp add: ex_ok_def)
    show ?thesis
      by (rule sys_ok_update [OF ok _ el, where x' = "(heap_ex (s_ctl s) ! e)\<lparr>chan_closed := True\<rparr>"])
        (simp_all add: hok h a pe t pool_inv_close [OF i] pending_None [OF pe])
  qed
qed

lemma sys_ok_turn:
  assumes ok: "sys_ok s" and el: "e < length (heap_ex (s_ctl s))"
    and w: "w < length (ex_workers (heap_ex (s_ctl s) ! e))"
    and r: "worker_turn t e w (s_ctl s) = Some (c', jo)"
  shows "sys_ok (s\<lparr>s_ctl := c', s_created := s_created s @ (case jo of None \<Rightarrow> [] | Some j \<Rightarrow> [(e, j)])\<rparr>)"
    (is "sys_ok ?s")
proof -
  let ?c = "s_ctl s" and ?x = "heap_ex (s_ctl s) ! e"
  have al: "pa < length (heap_pod ?c)" if "ex_pods ?x n = Some pa" for n pa
    using heap_ok_pod [OF sys_okD(1) [OF ok] el that] by blast
  have i: "pool_inv (is_terminated ?c) (created_nodes e s) (pending_nodes e s) ?x"
    using sys_okD(2) [OF ok el] by (simp add: ex_ok_def)
  have wok: "worker_ok ?x (ex_workers ?x ! w)" using pool_invD(5) [OF i] w by simp
  obtain buf' new where
    h: "heap_ex c' = (heap_ex ?c)[e := ?x\<lparr>ex_workers := (ex_workers ?x)[w := new], chan_buf := buf'\<rparr>]"
    and f: "executions c' = executions ?c" "podPoolSize c' = podPoolSize ?c" "length (heap_pod c') = length (heap_pod ?c)"
      "\<And>q. pod_node (heap_pod c' ! q) = pod_node (heap_pod ?c ! q)"
      "\<And>q. terminated (heap_pod c' ! q) = terminated (heap_pod ?c ! q)"
    and cs: "(case ex_workers ?x ! w of
        WIdle \<Rightarrow> jo = None \<and> ((\<exists>j. chan_buf ?x = j # buf' \<and> new = WCreate j)
             \<or> (chan_buf ?x = [] \<and> buf' = [] \<and> chan_closed ?x \<and> new = WExit))
      | WCreate j \<Rightarrow> jo = Some j \<and> buf' = chan_buf ?x \<and> new = WStart j
      | WStart j \<Rightarrow> jo = None \<and> buf' = chan_buf ?x \<and>
          (case ex_pods ?x (job_Node j) of None \<Rightarrow> new = WExit | Some pa \<Rightarrow> new = WWait j pa)
      | WWait j pa \<Rightarrow> jo = None \<and> buf' = chan_buf ?x \<and> terminated (heap_pod ?c ! pa) \<noteq> None \<and> new = WIdle
      | WExit \<Rightarrow> False)"
    by (rule worker_turn_effect [OF r el]) (erule al, rule that, assumption+)
  have cr: "created_nodes e ?s = created_nodes e s @ (case jo of None \<Rightarrow> [] | Some j \<Rightarrow> [job_Node j])"
    and cro: "\<And>a. a \<noteq> e \<Longrightarrow> created_nodes a ?s = created_nodes a s"
    by (auto simp: created_nodes_def split: option.splits)
  have "\<exists>n. job_Node j = n \<and> n \<in> dom (ex_pods ?x)" if "ex_workers ?x ! w = WCreate j" for j
  proof -
    have "WCreate j \<in> set (ex_workers ?x)" using w that by (metis nth_mem)
    then have "job_Node j \<in> set (concat (map todo (ex_workers ?x)))" by (auto intro!: bexI [of _ "WCreate j"])
    then show ?thesis using pool_inv_dom(1) [OF i] by blast
  qed
  then have reg: "ex_pods ?x (job_Node j) \<noteq> None" if "ex_workers ?x ! w = WCreate j" for j
    using that by (auto simp: dom_def)
  have inv: "pool_inv (is_terminated ?c) (created_nodes e ?s) (pending_nodes e s)
      (?x\<lparr>ex_workers := (ex_workers ?x)[w := new], chan_buf := buf'\<rparr>)"
  proof (cases "ex_workers ?x ! w")
    case WIdle
    show ?thesis
      by (rule pool_inv_worker [OF i w]) (use cs WIdle pool_invD(2) [OF i] in \<open>auto simp: cr\<close>)
  next
    case (WCreate j)
    show ?thesis
      by (rule pool_inv_worker [OF i w]) (use cs WCreate pool_invD(2) [OF i] reg [OF WCreate] in \<open>auto simp: created_nodes_snoc\<close>)
  next
    case (WStart j)
    with wok obtain pa where pa: "ex_pods ?x (job_Node j) = Some pa" by auto
    show ?thesis
      by (rule pool_inv_worker [OF i w]) (use cs WStart pool_invD(2) [OF i] pa in \<open>auto simp: cr\<close>)
  next
    case (WWait j pa)
    with wok have pa: "ex_pods ?x (job_Node j) = Some pa" by simp
    have "is_terminated ?c pa" using cs WWait al [OF pa] by (simp add: is_terminated_def)
    with pa show ?thesis
      by (intro pool_inv_worker [OF i w]) (use cs WWait pool_invD(2) [OF i] in \<open>auto simp: cr\<close>)
  next
    case WExit
    with cs show ?thesis by simp
  qed
  show ?thesis
  proof (rule sys_ok_update [OF ok _ el])
    show "heap_ok (s_ctl ?s)"
      by (rule heap_ok_cong [OF sys_okD(1) [OF ok]]) (simp_all add: f h nth_upd map_le_refl)
    show "heap_ex (s_ctl ?s) = (heap_ex ?c)[e := ?x\<lparr>ex_workers := (ex_workers ?x)[w := new], chan_buf := buf'\<rparr>]"
      by (simp add: h)
    show "pool_inv (is_terminated ?c) (created_nodes e ?s) (pending_nodes e ?s)
        (?x\<lparr>ex_workers := (ex_workers ?x)[w := new], chan_buf := buf'\<rparr>)"
      using inv by simp
    show "set (s_created ?s) \<subseteq> set (s_created s) \<union> {e} \<times> UNIV" by (auto split: option.splits)
  qed (simp_all add: cro f is_terminated_def)
qed

lemma sys_ok_step: "step gv sortf s l s' \<Longrightarrow> sys_ok s \<Longrightarrow> sys_ok s'"
proof (induction rule: step.induct)
  case (terminates t s eid n ph c' r)
  have "sys_ok (s\<lparr>s_ctl := c', s_fs := s_fs s\<rparr>)"
    by (rule sys_ok_same [OF terminates.prems heap_ok_PodTerminated [OF sys_okD(1) [OF terminates.prems] terminates.hyps]])
      (simp_all add: PodTerminated_effect [OF terminates.hyps] PodTerminated_pool [OF terminates.hyps])
  then show ?case by simp
next
  case (reports t s eid n b rs c')
  have "sys_ok (s\<lparr>s_ctl := c', s_fs := s_fs s\<rparr>)"
    by (rule sys_ok_same [OF reports.prems heap_ok_ReportReceived [OF sys_okD(1) [OF reports.prems] reports.hyps]])
      (simp_all add: ReportReceived_effect [OF reports.hyps] ReportReceived_pool [OF reports.hyps])
  then show ?case by simp
next
  case (new s clk n eid c' f')
  then show ?case by (intro sys_ok_new)
next
  case (add s j c')
  then show ?case by (intro sys_ok_add)
next
  case (add_blocks s j e c')
  then show ?case by (intro sys_ok_add_blocks)
next
  case (resume s e j c')
  then show ?case by (intro sys_ok_resume)
next
  case (all_added s t eid c' f' r)
  then show ?case by (intro sys_ok_all_added)
next
  case (turn e s w t c' jo)
  then show ?case by (intro sys_ok_turn)
next
  case (files s f')
  have "sys_ok (s\<lparr>s_ctl := s_ctl s, s_fs := f'\<rparr>)"
    by (rule sys_ok_same [OF files]) (simp_all add: sys_okD(1) [OF files])
  then show ?case by simp
qed

interpretation pool: step_invariant "step gv sortf" sys_ok
  by unfold_locales (rule sys_ok_step)

lemmas sys_ok_run = pool.trace_inv [folded run_def]

end
