(* ===== verification/Pool_Properties.thy ===== *)
theory Pool_Properties
  imports Pool_Invariant Execution_Properties
begin

text \<open>
  The properties of the worker pool over all interleavings: every job is created once, the pool
  bounds the running pods, workers leave only when the work is done, the pool drains when all
  pods terminate, and what happens when one never does.
\<close>

section \<open>Facts of reachable states\<close>

lemma run_sys_ok: "run gv sortf (init cfg prm f) ls s \<Longrightarrow> sys_ok s"
  by (erule sys_ok_run) (rule sys_ok_init)

lemma reachable_pool:
  assumes "run gv sortf (init cfg prm f) ls s" and "e < length (heap_ex (s_ctl s))"
  shows "pool_inv (is_terminated (s_ctl s)) (created_nodes e s) (pending_nodes e s) (heap_ex (s_ctl s) ! e)"
    and "chan_cap (heap_ex (s_ctl s) ! e) = nat (podPoolSize (s_ctl s))"
  using sys_okD(2) [OF run_sys_ok [OF assms(1)] assms(2)] by (simp_all add: ex_ok_def)

lemma worker_turn_podPoolSize: "worker_turn t e w c = Some (c', jo) \<Longrightarrow> podPoolSize c' = podPoolSize c"
  by (auto simp: worker_turn_def set_worker_def addProgress_def split: worker.splits list.splits sum.splits if_splits)

lemma AddPod_podPoolSize:
  "AddPod c j = AddDone c' \<Longrightarrow> podPoolSize c' = podPoolSize c"
  "AddPod c j = AddBlocked e c' \<Longrightarrow> podPoolSize c' = podPoolSize c"
  by (auto elim: AddPod_done AddPod_blocked)

lemma step_podPoolSize: "step gv sortf s l s' \<Longrightarrow> podPoolSize (s_ctl s') = podPoolSize (s_ctl s)"
  by (induction rule: step.induct)
    (auto simp: AddPod_podPoolSize AllAdded_effect(2) PodTerminated_pool(1) ReportReceived_pool(1)
      worker_turn_podPoolSize elim: NewExecution_cases dest!: chan_send_done(3))

lemma run_podPoolSize: "run gv sortf s ls s' \<Longrightarrow> podPoolSize (s_ctl s') = podPoolSize (s_ctl s)"
  by (induction rule: run_induct) (auto simp: step_podPoolSize)

section \<open>Each job once\<close>

text \<open>
  C1. No job is lost and none is created twice. In every reachable state the registered nodes
  of an execution are exactly those whose pod was created, those a worker is about to create,
  those in the channel and the one \<open>AddPod\<close> is blocked on, each exactly once.
\<close>

theorem pool_exactly_once:
  assumes "run gv sortf (init cfg prm f) ls s" and "e < length (heap_ex (s_ctl s))"
  defines "x \<equiv> heap_ex (s_ctl s) ! e"
  defines "jobs \<equiv> created_nodes e s @ concat (map todo (ex_workers x)) @ map job_Node (chan_buf x) @ pending_nodes e s"
  shows "distinct jobs \<and> set jobs = dom (ex_pods x)"
proof -
  note d = pool_invD(3,4) [OF reachable_pool(1) [OF assms(1,2)], folded x_def]
  have m: "mset jobs = mset_set (dom (ex_pods x))" unfolding d(2) by (simp add: jobs_def add.assoc)
  then have "set jobs = dom (ex_pods x)" using d(1) by (metis finite_set_mset_mset_set set_mset_mset)
  moreover have "distinct jobs"
    using m d(1) by (metis calculation mset_eq_imp_distinct_iff mset_set_set_mset_msubset mset_sorted_list_of_multiset
        sorted_list_of_mset_set distinct_sorted_list_of_set)
  ultimately show ?thesis by blast
qed

lemma held_card: "finite {n. Some n \<in> held ` set ws} \<and> card {n. Some n \<in> held ` set ws} \<le> length ws"
proof -
  have "{n. Some n \<in> held ` set ws} \<subseteq> (the \<circ> held) ` set ws"
  proof
    fix n
    assume "n \<in> {n. Some n \<in> held ` set ws}"
    then obtain wk where "wk \<in> set ws" "held wk = Some n" by auto
    then show "n \<in> (the \<circ> held) ` set ws" by (auto intro!: image_eqI [of _ _ wk])
  qed
  moreover have "card ((the \<circ> held) ` set ws) \<le> length ws"
    by (meson card_image_le card_length le_trans List.finite_set)
  ultimately show ?thesis by (meson card_mono finite_imageI finite_subset le_trans List.finite_set)
qed

text \<open>
  The pool size bounds the load on the cluster: at most \<open>podPoolSize\<close> pods of an execution
  are created and not yet reported as terminated.
\<close>

theorem pool_bound:
  assumes "run gv sortf (init cfg prm f) ls s" and "e < length (heap_ex (s_ctl s))"
  shows "card {n \<in> set (created_nodes e s). \<not> (\<exists>pa. ex_pods (heap_ex (s_ctl s) ! e) n = Some pa \<and> is_terminated (s_ctl s) pa)}
    \<le> nat (PodPoolSize cfg)"
proof -
  let ?x = "heap_ex (s_ctl s) ! e"
  note i = reachable_pool [OF assms]
  have "podPoolSize (s_ctl s) = PodPoolSize cfg"
    using run_podPoolSize [OF assms(1)] by (simp add: init_def NewController_def)
  then have len: "length (ex_workers ?x) = nat (PodPoolSize cfg)"
    using pool_invD(1) [OF i(1)] i(2) by simp
  have "{n \<in> set (created_nodes e s). \<not> (\<exists>pa. ex_pods ?x n = Some pa \<and> is_terminated (s_ctl s) pa)}
      \<subseteq> {n. Some n \<in> held ` set (ex_workers ?x)}"
    using pool_invD(6) [OF i(1)] by blast
  then show ?thesis using held_card [of "ex_workers ?x"] len by (metis (no_types, lifting) card_mono le_trans)
qed

text \<open>
  No worker leaves early: when all workers of an execution have returned, its channel was
  closed, and every registered pod was created and has terminated (with a pool of at least one
  worker).
\<close>

theorem pool_completes:
  assumes "run gv sortf (init cfg prm f) ls s" and "e < length (heap_ex (s_ctl s))" and "0 < PodPoolSize cfg"
    and "\<forall>wk \<in> set (ex_workers (heap_ex (s_ctl s) ! e)). wk = WExit"
    and "ex_pods (heap_ex (s_ctl s) ! e) n = Some pa"
  shows "chan_closed (heap_ex (s_ctl s) ! e) \<and> n \<in> set (created_nodes e s) \<and> is_terminated (s_ctl s) pa"
proof -
  let ?x = "heap_ex (s_ctl s) ! e"
  note i = reachable_pool [OF assms(1,2)]
  note d = pool_invD [OF i(1)]
  have "podPoolSize (s_ctl s) = PodPoolSize cfg"
    using run_podPoolSize [OF assms(1)] by (simp add: init_def NewController_def)
  then have "ex_workers ?x \<noteq> []" using d(1) i(2) assms(3) by auto
  then have "WExit \<in> set (ex_workers ?x)" using assms(4) by (metis list.set_intros(1) neq_Nil_conv)
  then have c: "chan_closed ?x" "chan_buf ?x = []" using d(5) by force+
  have "concat (map todo (ex_workers ?x)) = []" using assms(4) by auto
  moreover have "n \<in> dom (ex_pods ?x)" using assms(5) by blast
  ultimately have n: "n \<in> set (created_nodes e s)"
    using pool_inv_dom(1) [OF i(1)] c d(7) by auto
  have "Some n \<notin> held ` set (ex_workers ?x)" using assms(4) by (auto simp: image_iff)
  with d(6) [OF n] assms(5) c n show ?thesis by auto
qed

section \<open>Draining\<close>

fun weight :: "worker \<Rightarrow> nat" where
  "weight WIdle = 1"
| "weight (WCreate j) = 4"
| "weight (WStart j) = 3"
| "weight (WWait j pa) = 2"
| "weight WExit = 0"

definition pool_measure :: "execution \<Rightarrow> nat" where
  "pool_measure x = 5 * length (chan_buf x) + sum_list (map weight (ex_workers x))"

lemma turn_step:
  assumes ok: "sys_ok s" and st: "step gv sortf s (LTurn t e w) s'"
  shows "e < length (heap_ex (s_ctl s))" "e < length (heap_ex (s_ctl s'))"
    "pool_measure (heap_ex (s_ctl s') ! e) < pool_measure (heap_ex (s_ctl s) ! e)"
    "ex_pods (heap_ex (s_ctl s') ! e) = ex_pods (heap_ex (s_ctl s) ! e)"
    "chan_closed (heap_ex (s_ctl s') ! e) = chan_closed (heap_ex (s_ctl s) ! e)"
    "is_terminated (s_ctl s') = is_terminated (s_ctl s)"
proof -
  from st obtain c' jo where e: "e < length (heap_ex (s_ctl s))" and w: "w < length (ex_workers (heap_ex (s_ctl s) ! e))"
    and r: "worker_turn t e w (s_ctl s) = Some (c', jo)" and s': "s_ctl s' = c'"
    by (rule step_TurnE) simp
  let ?c = "s_ctl s" and ?x = "heap_ex (s_ctl s) ! e"
  have al: "pa < length (heap_pod ?c)" if "ex_pods ?x n = Some pa" for n pa
    using heap_ok_pod [OF sys_okD(1) [OF ok] e that] by blast
  have "e < length (heap_ex c') \<and> pool_measure (heap_ex c' ! e) < pool_measure ?x \<and> ex_pods (heap_ex c' ! e) = ex_pods ?x
      \<and> chan_closed (heap_ex c' ! e) = chan_closed ?x \<and> is_terminated c' = is_terminated ?c"
  proof (rule worker_turn_effect [OF r e], erule al)
    fix new buf'
    assume h: "heap_ex c' = (heap_ex ?c)[e := ?x\<lparr>ex_workers := (ex_workers ?x)[w := new], chan_buf := buf'\<rparr>]"
      and f: "length (heap_pod c') = length (heap_pod ?c)"
        "\<And>q. terminated (heap_pod c' ! q) = terminated (heap_pod ?c ! q)"
      and cs: "(case ex_workers ?x ! w of
        WIdle \<Rightarrow> jo = None \<and> ((\<exists>j. chan_buf ?x = j # buf' \<and> new = WCreate j)
             \<or> (chan_buf ?x = [] \<and> buf' = [] \<and> chan_closed ?x \<and> new = WExit))
      | WCreate j \<Rightarrow> jo = Some j \<and> buf' = chan_buf ?x \<and> new = WStart j
      | WStart j \<Rightarrow> jo = None \<and> buf' = chan_buf ?x \<and>
          (case ex_pods ?x (job_Node j) of None \<Rightarrow> new = WExit | Some pa \<Rightarrow> new = WWait j pa)
      | WWait j pa \<Rightarrow> jo = None \<and> buf' = chan_buf ?x \<and> terminated (heap_pod ?c ! pa) \<noteq> None \<and> new = WIdle
      | WExit \<Rightarrow> False)"
    have "5 * length buf' + weight new < 5 * length (chan_buf ?x) + weight (ex_workers ?x ! w)"
      using cs by (cases "ex_workers ?x ! w") (auto split: option.splits)
    moreover have "sum_list (map weight ((ex_workers ?x)[w := new])) + weight (ex_workers ?x ! w)
        = sum_list (map weight (ex_workers ?x)) + weight new"
      by (rule sum_list_update_nat [OF w])
    ultimately have "5 * length buf' + sum_list (map weight ((ex_workers ?x)[w := new]))
        < 5 * length (chan_buf ?x) + sum_list (map weight (ex_workers ?x))" by linarith
    moreover have "is_terminated c' = is_terminated ?c" by (simp add: fun_eq_iff is_terminated_def f)
    ultimately show ?thesis using e by (simp add: h pool_measure_def)
  qed
  with e show "e < length (heap_ex (s_ctl s))" "e < length (heap_ex (s_ctl s'))"
    "pool_measure (heap_ex (s_ctl s') ! e) < pool_measure ?x" "ex_pods (heap_ex (s_ctl s') ! e) = ex_pods ?x"
    "chan_closed (heap_ex (s_ctl s') ! e) = chan_closed ?x" "is_terminated (s_ctl s') = is_terminated ?c"
    by (simp_all add: s')
qed

definition turns_of :: "nat \<Rightarrow> label list \<Rightarrow> bool" where
  "turns_of e ls \<longleftrightarrow> (\<forall>l \<in> set ls. \<exists>t w. l = LTurn t e w)"

lemma turns_bounded:
  assumes "run gv sortf s ls s'" and "sys_ok s" and "turns_of e ls"
  shows "length ls + pool_measure (heap_ex (s_ctl s') ! e) \<le> pool_measure (heap_ex (s_ctl s) ! e)"
  using assms
proof (induction rule: run_induct)
  case (run_Nil s)
  then show ?case by simp
next
  case (run_Cons s l s1 ls s')
  from run_Cons.prems(2) obtain t w where l: "l = LTurn t e w" and ls: "turns_of e ls"
    by (auto simp: turns_of_def)
  from turn_step(3) [OF run_Cons.prems(1) run_Cons.hyps(1) [unfolded l]]
    run_Cons.IH [OF sys_ok_step [OF run_Cons.hyps(1) run_Cons.prems(1)] ls]
  show ?case by simp
qed

text \<open>With all pods terminated, a worker that has not returned has a turn.\<close>

lemma worker_enabled:
  assumes ok: "sys_ok s" and e: "e < length (heap_ex (s_ctl s))"
    and cl: "chan_closed (heap_ex (s_ctl s) ! e)"
    and te: "\<And>n pa. ex_pods (heap_ex (s_ctl s) ! e) n = Some pa \<Longrightarrow> is_terminated (s_ctl s) pa"
    and w: "w < length (ex_workers (heap_ex (s_ctl s) ! e))" "ex_workers (heap_ex (s_ctl s) ! e) ! w \<noteq> WExit"
  shows "\<exists>s'. step gv sortf s (LTurn t e w) s'"
proof -
  let ?x = "heap_ex (s_ctl s) ! e"
  have i: "pool_inv (is_terminated (s_ctl s)) (created_nodes e s) (pending_nodes e s) ?x"
    using sys_okD(2) [OF ok e] by (simp add: ex_ok_def)
  have wok: "worker_ok ?x (ex_workers ?x ! w)" using pool_invD(5) [OF i] w by simp
  have "worker_turn t e w (s_ctl s) \<noteq> None"
  proof (cases "ex_workers ?x ! w")
    case WIdle
    with cl show ?thesis by (simp add: worker_turn_def split: list.splits)
  next
    case (WStart j)
    then show ?thesis by (simp add: worker_turn_def split: sum.splits)
  next
    case (WWait j pa)
    with wok te have "is_terminated (s_ctl s) pa" by auto
    with WWait show ?thesis by (simp add: worker_turn_def is_terminated_def)
  qed (use w in \<open>simp_all add: worker_turn_def\<close>)
  then obtain c' jo where "worker_turn t e w (s_ctl s) = Some (c', jo)" by (metis option.exhaust surj_pair)
  with e w(1) show ?thesis by (blast intro: step.turn)
qed

lemma turns_drain:
  assumes "sys_ok s" and "e < length (heap_ex (s_ctl s))" and "chan_closed (heap_ex (s_ctl s) ! e)"
    and "\<And>n pa. ex_pods (heap_ex (s_ctl s) ! e) n = Some pa \<Longrightarrow> is_terminated (s_ctl s) pa"
  shows "\<exists>ls s'. turns_of e ls \<and> run gv sortf s ls s' \<and> e < length (heap_ex (s_ctl s'))
    \<and> (\<forall>wk \<in> set (ex_workers (heap_ex (s_ctl s') ! e)). wk = WExit)
    \<and> ex_pods (heap_ex (s_ctl s') ! e) = ex_pods (heap_ex (s_ctl s) ! e)"
  using assms
proof (induction "pool_measure (heap_ex (s_ctl s) ! e)" arbitrary: s rule: less_induct)
  case less
  show ?case
  proof (cases "\<forall>wk \<in> set (ex_workers (heap_ex (s_ctl s) ! e)). wk = WExit")
    case True
    with less.prems(2) show ?thesis
      by (intro exI [of _ "[]"] exI [of _ s]) (simp add: turns_of_def run_Nil)
  next
    case False
    then obtain w where w: "w < length (ex_workers (heap_ex (s_ctl s) ! e))"
      "ex_workers (heap_ex (s_ctl s) ! e) ! w \<noteq> WExit" by (auto simp: in_set_conv_nth)
    obtain s1 where s1: "step gv sortf s (LTurn 0 e w) s1"
      using worker_enabled [OF less.prems(1-3) _ w] less.prems(4) by blast
    note t = turn_step [OF less.prems(1) s1]
    have "\<exists>ls s'. turns_of e ls \<and> run gv sortf s1 ls s' \<and> e < length (heap_ex (s_ctl s'))
      \<and> (\<forall>wk \<in> set (ex_workers (heap_ex (s_ctl s') ! e)). wk = WExit)
      \<and> ex_pods (heap_ex (s_ctl s') ! e) = ex_pods (heap_ex (s_ctl s1) ! e)"
      by (rule less.hyps) (use t sys_ok_step [OF s1 less.prems(1)] less.prems(3,4) in auto)
    then obtain ls s' where ls: "turns_of e ls" "run gv sortf s1 ls s'" "e < length (heap_ex (s_ctl s'))"
      "\<forall>wk \<in> set (ex_workers (heap_ex (s_ctl s') ! e)). wk = WExit"
      "ex_pods (heap_ex (s_ctl s') ! e) = ex_pods (heap_ex (s_ctl s1) ! e)" by blast
    have "turns_of e (LTurn 0 e w # ls)" using ls(1) by (simp add: turns_of_def)
    moreover have "run gv sortf s (LTurn 0 e w # ls) s'" by (rule run_Cons [OF s1 ls(2)])
    ultimately show ?thesis using ls t(4) by metis
  qed
qed

text \<open>
  C15. The pool drains. Once all jobs are added (the channel is closed) and every registered pod
  has terminated, the workers can finish: some schedule of their turns makes all of them
  return, and no schedule of their turns is longer than the measure of the execution, so none
  of them polls for ever.
\<close>

theorem pool_drains:
  assumes "run gv sortf (init cfg prm f) ls0 s" and "e < length (heap_ex (s_ctl s))"
    and "chan_closed (heap_ex (s_ctl s) ! e)"
    and "\<forall>n pa. ex_pods (heap_ex (s_ctl s) ! e) n = Some pa \<longrightarrow> is_terminated (s_ctl s) pa"
  shows "(\<exists>ls s'. turns_of e ls \<and> run gv sortf s ls s'
      \<and> (\<forall>wk \<in> set (ex_workers (heap_ex (s_ctl s') ! e)). wk = WExit))
    \<and> (\<forall>ls s'. turns_of e ls \<and> run gv sortf s ls s' \<longrightarrow> length ls \<le> pool_measure (heap_ex (s_ctl s) ! e))"
proof -
  have ok: "sys_ok s" by (rule run_sys_ok [OF assms(1)])
  have "\<exists>ls s'. turns_of e ls \<and> run gv sortf s ls s' \<and> (\<forall>wk \<in> set (ex_workers (heap_ex (s_ctl s') ! e)). wk = WExit)"
    using turns_drain [OF ok assms(2,3)] assms(4) by blast
  moreover have "length ls \<le> pool_measure (heap_ex (s_ctl s) ! e)" if "turns_of e ls" "run gv sortf s ls s'" for ls s'
    using turns_bounded [OF that(2) ok that(1)] by simp
  ultimately show ?thesis by blast
qed

section \<open>A pod that never terminates\<close>

text \<open>
  The state the cron goroutine gets stuck in: it is blocked on a full channel while every worker
  of the execution waits for a pod that is not terminated. \<open>ns\<close> are the nodes of these pods.
\<close>

definition stuck :: "'g sys \<Rightarrow> nat \<Rightarrow> string set \<Rightarrow> bool" where
  "stuck s e ns \<longleftrightarrow> e < length (heap_ex (s_ctl s)) \<and> (\<exists>j. s_pending s = Some (e, j))
     \<and> length (chan_buf (heap_ex (s_ctl s) ! e)) = chan_cap (heap_ex (s_ctl s) ! e)
     \<and> (\<forall>wk \<in> set (ex_workers (heap_ex (s_ctl s) ! e)). \<exists>j pa. wk = WWait j pa
          \<and> pa < length (heap_pod (s_ctl s)) \<and> pod_node (heap_pod (s_ctl s) ! pa) \<in> ns
          \<and> terminated (heap_pod (s_ctl s) ! pa) = None)"

definition reports_termination :: "string set \<Rightarrow> label \<Rightarrow> bool" where
  "reports_termination ns l \<longleftrightarrow> (\<exists>t eid n ph. l = LTerm t eid n ph \<and> n \<in> ns)"

lemma stuckI:
  assumes st: "stuck s e ns" and h: "heap_ex (s_ctl s') ! e = heap_ex (s_ctl s) ! e" "e < length (heap_ex (s_ctl s'))"
    and p: "s_pending s' = s_pending s"
    and q: "\<And>q. q < length (heap_pod (s_ctl s)) \<Longrightarrow> q < length (heap_pod (s_ctl s'))
      \<and> pod_node (heap_pod (s_ctl s') ! q) = pod_node (heap_pod (s_ctl s) ! q)
      \<and> (pod_node (heap_pod (s_ctl s) ! q) \<in> ns \<longrightarrow> terminated (heap_pod (s_ctl s) ! q) = None \<longrightarrow>
          terminated (heap_pod (s_ctl s') ! q) = None)"
  shows "stuck s' e ns"
  using st h p q unfolding stuck_def by (metis (no_types, lifting))

lemma PodTerminated_other:
  assumes ok: "heap_ok c" and r: "PodTerminated gv t c eid n ph = Ret (c', x)" and q: "q < length (heap_pod c)"
    and n: "pod_node (heap_pod c ! q) \<noteq> n"
  shows "heap_pod c' ! q = heap_pod c ! q"
  using r
proof (cases rule: PodTerminated_cases)
  case (first pa pr)
  obtain e where "executions c eid = Some e" "ex_pods (heap_ex c ! e) n = Some pa"
    using first(1) by (auto simp: podForID_Inr)
  then have "pod_node (heap_pod c ! pa) = n" using heap_ok_pod [OF ok] heap_ok_execution [OF ok] by blast
  with n q have "q \<noteq> pa" by auto
  then show ?thesis by (simp add: first(4) upd_pod_def addProgress_def)
qed auto

lemma stuck_step:
  assumes ok: "sys_ok s" and st: "stuck s e ns" and l: "\<not> reports_termination ns l"
    and r: "step gv sortf s l s'"
  shows "stuck s' e ns \<and> s_pending s' = s_pending s"
  using r
proof (cases rule: step.cases)
  case (terminates t eid n ph c' x)
  have n: "n \<notin> ns" using l terminates(1) by (auto simp: reports_termination_def)
  have "stuck s' e ns"
  proof (rule stuckI [OF st])
    fix q
    assume q: "q < length (heap_pod (s_ctl s))"
    show "q < length (heap_pod (s_ctl s'))
      \<and> pod_node (heap_pod (s_ctl s') ! q) = pod_node (heap_pod (s_ctl s) ! q)
      \<and> (pod_node (heap_pod (s_ctl s) ! q) \<in> ns \<longrightarrow> terminated (heap_pod (s_ctl s) ! q) = None \<longrightarrow>
          terminated (heap_pod (s_ctl s') ! q) = None)"
      using PodTerminated_other [OF sys_okD(1) [OF ok] terminates(3) q] PodTerminated_effect(4,6) [OF terminates(3)] q n
      by (cases "pod_node (heap_pod (s_ctl s) ! q) = n") (auto simp: terminates(2))
  qed (use st PodTerminated_effect [OF terminates(3)] in \<open>auto simp: terminates(2) stuck_def\<close>)
  then show ?thesis by (simp add: terminates(2))
next
  case (reports t eid n b rs c')
  have "stuck s' e ns"
    by (rule stuckI [OF st]) (use st ReportReceived_effect [OF reports(3)] in \<open>auto simp: reports(2) stuck_def\<close>)
  then show ?thesis by (simp add: reports(2))
next
  case (resume a j c')
  have "length (chan_buf (heap_ex (s_ctl s) ! e)) = chan_cap (heap_ex (s_ctl s) ! e)" "a = e"
    using st resume(3) by (auto simp: stuck_def)
  with chan_send_done(2) [OF resume(4)] show ?thesis by simp
next
  case (turn a w t c' jo)
  let ?c = "s_ctl s"
  have al: "pa < length (heap_pod ?c)" if "ex_pods (heap_ex ?c ! a) n = Some pa" for n pa
    using heap_ok_pod [OF sys_okD(1) [OF ok] turn(3) that] by blast
  have ae: "a \<noteq> e"
  proof
    assume "a = e"
    then obtain j pa where "ex_workers (heap_ex ?c ! a) ! w = WWait j pa" "terminated (heap_pod ?c ! pa) = None"
      using st turn(4) unfolding stuck_def by (metis nth_mem)
    with turn(5) show False by (simp add: worker_turn_def)
  qed
  have "heap_ex c' ! e = heap_ex ?c ! e \<and> length (heap_ex c') = length (heap_ex ?c)
      \<and> length (heap_pod c') = length (heap_pod ?c)
      \<and> (\<forall>q. pod_node (heap_pod c' ! q) = pod_node (heap_pod ?c ! q) \<and> terminated (heap_pod c' ! q) = terminated (heap_pod ?c ! q))"
    by (rule worker_turn_effect [OF turn(5,3)], erule al) (use ae in simp)
  then have "stuck s' e ns"
    by (intro stuckI [OF st]) (use st in \<open>auto simp: turn(2) stuck_def\<close>)
  then show ?thesis by (simp add: turn(2))
qed (use st in \<open>auto simp: stuck_def\<close>)

lemma stuck_run:
  assumes "run gv sortf s ls s'" and "sys_ok s" and "stuck s e ns" and "\<forall>l \<in> set ls. \<not> reports_termination ns l"
  shows "stuck s' e ns \<and> s_pending s' = s_pending s"
  using assms
proof (induction rule: run_induct)
  case (run_Cons s l s1 ls s')
  from run_Cons.prems(3) have l: "\<not> reports_termination ns l" and ls: "\<forall>l \<in> set ls. \<not> reports_termination ns l" by simp_all
  note s1 = stuck_step [OF run_Cons.prems(1,2) l run_Cons.hyps(1)]
  from run_Cons.IH [OF sys_ok_step [OF run_Cons.hyps(1) run_Cons.prems(1)] s1 [THEN conjunct1] ls] s1 show ?case by simp
qed simp


section \<open>A run\<close>

text \<open>
  The witnesses share one run: a pool of one worker, three jobs of which the first is started,
  the second is in the channel and the third blocks \<open>AddPod\<close>; and its continuation with a
  single job, whose pod terminates.
\<close>

definition pool_cfg :: Config where "pool_cfg = sample_cfg\<lparr>PodPoolSize := 1\<rparr>"

definition the_id :: string where "the_id = ''202405170930''"

definition job_on :: "string \<Rightarrow> Job" where "job_on n = \<lparr>job_ID = the_id, job_Node = n\<rparr>"

definition the_ex :: "(string \<rightharpoonup> nat) \<Rightarrow> Job list \<Rightarrow> bool \<Rightarrow> worker \<Rightarrow> execution" where
  "the_ex ps b cl wk = \<lparr>ex_id = the_id, ex_pods = ps, chan_buf = b, chan_cap = 1, chan_closed = cl, ex_workers = [wk]\<rparr>"

definition started_pod :: pod where
  "started_pod = \<lparr>pod_node = ''n1'', started = 7, terminated = None, reportReceived = None, status = ''Started''\<rparr>"

abbreviation pool_init where "pool_init \<equiv> init pool_cfg (sample_collector sample_cfg) sample_fs"

abbreviation pstep where "pstep \<equiv> step map_gauge_vec by_mtime"
abbreviation prun where "prun \<equiv> run map_gauge_vec by_mtime"

lemma example_new:
  "\<exists>c1. NewExecution map_gauge_vec False sample_clock (NewController pool_cfg (sample_collector sample_cfg)) sample_fs n
      = Ret (the_id, c1, prepare_dirs False 5000000000 ''/var/www'' the_id sample_fs)
    \<and> heap_ex c1 = [the_ex Map.empty [] False WIdle] \<and> heap_pod c1 = [] \<and> executions c1 = [the_id \<mapsto> 0]
    \<and> reportDir c1 = ''/var/www'' \<and> reportHistory c1 = 3 \<and> col_wf map_gauge_vec (prom c1)"
proof -
  let ?c0 = "NewController pool_cfg (sample_collector sample_cfg)"
  have f0: "podPoolSize ?c0 = 1" "prom ?c0 = sample_collector sample_cfg" "executions ?c0 = Map.empty"
    "heap_ex ?c0 = []" "heap_pod ?c0 = []" "reportDir ?c0 = ''/var/www''" "reportHistory ?c0 = 3"
    by (simp_all add: NewController_def pool_cfg_def sample_cfg_def wrap64_id int64_range_def max_int64_def min_int64_def)
  have p: "0 \<le> podPoolSize ?c0" by (simp add: f0)
  have "col_wf map_gauge_vec (prom ?c0)" by (simp add: f0 sample_col_wf)
  from NewExecution_returns_wf [OF p gauge_laws_map_gauge_vec this] obtain eid c1 s1 where
    r: "NewExecution map_gauge_vec False sample_clock ?c0 sample_fs n = Ret (eid, c1, s1)"
    and wf: "col_wf map_gauge_vec (prom c1)" by blast
  have id: "time_Format_id (wall sample_clock) = the_id" by code_simp
  have n: "now sample_clock = 5000000000" by (simp add: sample_clock_def)
  have e: "eid = the_id" using r id by (auto elim: NewExecution_cases)
  have "s1 = prepare_dirs False 5000000000 ''/var/www'' the_id sample_fs" "heap_ex c1 = [the_ex Map.empty [] False WIdle]"
    "heap_pod c1 = []" "executions c1 = [the_id \<mapsto> 0]" "reportDir c1 = ''/var/www''" "reportHistory c1 = 3"
    using r by (auto elim!: NewExecution_cases simp: f0 id n e new_execution_def the_ex_def)
  with r wf e show ?thesis by simp
qed

text \<open>The first job is added.\<close>

lemma example_add:
  assumes "heap_ex c1 = [the_ex Map.empty [] False WIdle]" "heap_pod c1 = []" "executions c1 = [the_id \<mapsto> 0]"
    "reportDir c1 = d" "reportHistory c1 = h"
  shows "\<exists>c2. AddPod c1 (job_on ''n1'') = AddDone c2
    \<and> heap_ex c2 = [the_ex [''n1'' \<mapsto> 0] [job_on ''n1''] False WIdle] \<and> heap_pod c2 = [new_pod ''n1'']
    \<and> executions c2 = [the_id \<mapsto> 0] \<and> reportDir c2 = d \<and> reportHistory c2 = h \<and> prom c2 = prom c1"
proof -
  define c2 where "c2 = upd_ex 0 (\<lambda>x. x\<lparr>chan_buf := chan_buf x @ [job_on ''n1'']\<rparr>) (register_pod 0 (job_on ''n1'') c1)"
  have e: "forID c1 (job_ID (job_on ''n1'')) = Inr 0" by (simp add: forID_def assms job_on_def)
  have "heap_ex (register_pod 0 (job_on ''n1'') c1) = [the_ex [''n1'' \<mapsto> 0] [] False WIdle]"
    by (simp add: register_pod_def upd_ex_def assms the_ex_def job_on_def)
  then have "AddPod c1 (job_on ''n1'') = AddDone c2"
    unfolding AddPod_def e by (simp add: chan_send_def the_ex_def Let_def c2_def)
  moreover have "heap_ex c2 = [the_ex [''n1'' \<mapsto> 0] [job_on ''n1''] False WIdle]" "heap_pod c2 = [new_pod ''n1'']"
    "executions c2 = [the_id \<mapsto> 0]" "reportDir c2 = d" "reportHistory c2 = h" "prom c2 = prom c1"
    by (simp_all add: c2_def register_pod_def upd_ex_def assms the_ex_def job_on_def new_pod_def)
  ultimately show ?thesis by blast
qed

text \<open>The first job is started and its worker waits.\<close>

lemma example_mid:
  "\<exists>s. prun pool_init [LNew sample_clock 1, LAdd (job_on ''n1''), LTurn 7 0 0, LTurn 7 0 0, LTurn 7 0 0] s
    \<and> heap_ex (s_ctl s) = [the_ex [''n1'' \<mapsto> 0] [] False (WWait (job_on ''n1'') 0)]
    \<and> heap_pod (s_ctl s) = [started_pod] \<and> executions (s_ctl s) = [the_id \<mapsto> 0]
    \<and> s_pending s = None \<and> s_created s = [(0, job_on ''n1'')]
    \<and> col_wf map_gauge_vec (prom (s_ctl s)) \<and> reportDir (s_ctl s) = ''/var/www'' \<and> reportHistory (s_ctl s) = 3
    \<and> s_fs s = prepare_dirs False 5000000000 ''/var/www'' the_id sample_fs"
proof -
  let ?c0 = "NewController pool_cfg (sample_collector sample_cfg)"
  obtain c1 where c1: "NewExecution map_gauge_vec False sample_clock ?c0 sample_fs 1
      = Ret (the_id, c1, prepare_dirs False 5000000000 ''/var/www'' the_id sample_fs)"
    and h1: "heap_ex c1 = [the_ex Map.empty [] False WIdle]" "heap_pod c1 = []" "executions c1 = [the_id \<mapsto> 0]"
      "reportDir c1 = ''/var/www''" "reportHistory c1 = 3" and wf1: "col_wf map_gauge_vec (prom c1)"
    using example_new by blast
  define s1 where "s1 = pool_init\<lparr>s_ctl := c1, s_fs := prepare_dirs False 5000000000 ''/var/www'' the_id sample_fs\<rparr>"
  have st1: "pstep pool_init (LNew sample_clock 1) s1"
    unfolding s1_def by (rule step.new [where eid = the_id]) (simp_all add: init_def c1)
  obtain c2 where a2: "AddPod c1 (job_on ''n1'') = AddDone c2"
    and h2: "heap_ex c2 = [the_ex [''n1'' \<mapsto> 0] [job_on ''n1''] False WIdle]" "heap_pod c2 = [new_pod ''n1'']"
      "executions c2 = [the_id \<mapsto> 0]" "reportDir c2 = ''/var/www''" "reportHistory c2 = 3" "prom c2 = prom c1"
    using example_add [OF h1] by blast
  have st2: "pstep s1 (LAdd (job_on ''n1'')) (s1\<lparr>s_ctl := c2\<rparr>)"
  proof (rule step.add)
    have "fresh_job c1 (job_on ''n1'')" by (simp add: fresh_job_def forID_def job_on_def h1 the_ex_def)
    then show "fresh_job (s_ctl s1) (job_on ''n1'')" by (simp add: s1_def)
  qed (simp_all add: s1_def init_def a2)
  define c3 where "c3 = set_worker 0 0 (WCreate (job_on ''n1'')) (upd_ex 0 (\<lambda>x. x\<lparr>chan_buf := []\<rparr>) c2)"
  have h3: "heap_ex c3 = [the_ex [''n1'' \<mapsto> 0] [] False (WCreate (job_on ''n1''))]" "heap_pod c3 = [new_pod ''n1'']"
    "executions c3 = [the_id \<mapsto> 0]" "reportDir c3 = ''/var/www''" "reportHistory c3 = 3" "prom c3 = prom c1"
    by (simp_all add: c3_def h2 set_worker_def upd_ex_def the_ex_def)
  have st3: "pstep (s1\<lparr>s_ctl := c2\<rparr>) (LTurn 7 0 0) (s1\<lparr>s_ctl := c3, s_created := []\<rparr>)"
    using step.turn [of 0 "s1\<lparr>s_ctl := c2\<rparr>" 0 7 c3 None map_gauge_vec by_mtime]
    by (simp add: h2 the_ex_def worker_turn_def c3_def s1_def init_def)
  define c4 where "c4 = set_worker 0 0 (WStart (job_on ''n1'')) c3"
  have h4: "heap_ex c4 = [the_ex [''n1'' \<mapsto> 0] [] False (WStart (job_on ''n1''))]" "heap_pod c4 = [new_pod ''n1'']"
    "executions c4 = [the_id \<mapsto> 0]" "reportDir c4 = ''/var/www''" "reportHistory c4 = 3" "prom c4 = prom c1"
    by (simp_all add: c4_def h3 set_worker_def upd_ex_def the_ex_def)
  have st4: "pstep (s1\<lparr>s_ctl := c3, s_created := []\<rparr>) (LTurn 7 0 0) (s1\<lparr>s_ctl := c4, s_created := [(0, job_on ''n1'')]\<rparr>)"
    using step.turn [of 0 "s1\<lparr>s_ctl := c3, s_created := []\<rparr>" 0 7 c4 "Some (job_on ''n1'')" map_gauge_vec by_mtime]
    by (simp add: h3 the_ex_def worker_turn_def c4_def)
  define c5 where "c5 = addProgress 1 (set_worker 0 0 (WWait (job_on ''n1'') 0)
      (upd_pod 0 (\<lambda>p. p\<lparr>started := 7, status := ''Started''\<rparr>) c4))"
  have h5: "heap_ex c5 = [the_ex [''n1'' \<mapsto> 0] [] False (WWait (job_on ''n1'') 0)]" "heap_pod c5 = [started_pod]"
    "executions c5 = [the_id \<mapsto> 0]" "reportDir c5 = ''/var/www''" "reportHistory c5 = 3" "prom c5 = prom c1"
    by (simp_all add: c5_def h4 set_worker_def upd_ex_def upd_pod_def addProgress_def the_ex_def new_pod_def started_pod_def)
  have st5: "pstep (s1\<lparr>s_ctl := c4, s_created := [(0, job_on ''n1'')]\<rparr>) (LTurn 7 0 0)
      (s1\<lparr>s_ctl := c5, s_created := [(0, job_on ''n1'')]\<rparr>)"
    using step.turn [of 0 "s1\<lparr>s_ctl := c4, s_created := [(0, job_on ''n1'')]\<rparr>" 0 7 c5 None map_gauge_vec by_mtime]
    by (simp add: h4 the_ex_def worker_turn_def c5_def ex_pod_def job_on_def)
  have "prun pool_init [LNew sample_clock 1, LAdd (job_on ''n1''), LTurn 7 0 0, LTurn 7 0 0, LTurn 7 0 0]
      (s1\<lparr>s_ctl := c5, s_created := [(0, job_on ''n1'')]\<rparr>)"
    by (intro run_Cons [OF st1] run_Cons [OF st2] run_Cons [OF st3] run_Cons [OF st4] run_Cons [OF st5] run_Nil)
  with h5 wf1 show ?thesis
    by (intro exI [of _ "s1\<lparr>s_ctl := c5, s_created := [(0, job_on ''n1'')]\<rparr>"]) (simp add: s1_def init_def)
qed

text \<open>The channel fills up and the third job blocks.\<close>

lemma example_stuck:
  "\<exists>ls s. prun pool_init ls s \<and> stuck s 0 {''n1''}"
proof -
  obtain s where s: "prun pool_init [LNew sample_clock 1, LAdd (job_on ''n1''), LTurn 7 0 0, LTurn 7 0 0, LTurn 7 0 0] s"
    and h: "heap_ex (s_ctl s) = [the_ex [''n1'' \<mapsto> 0] [] False (WWait (job_on ''n1'') 0)]"
      "heap_pod (s_ctl s) = [started_pod]" "executions (s_ctl s) = [the_id \<mapsto> 0]" "s_pending s = None"
    using example_mid by blast
  let ?c = "s_ctl s"
  have e: "forID ?c (job_ID (job_on n)) = Inr 0" for n by (simp add: forID_def h job_on_def)
  define r1 where "r1 = register_pod 0 (job_on ''n2'') ?c"
  have hr1: "heap_ex r1 = [the_ex [''n1'' \<mapsto> 0, ''n2'' \<mapsto> 1] [] False (WWait (job_on ''n1'') 0)]"
    "heap_pod r1 = [started_pod, new_pod ''n2'']" "executions r1 = [the_id \<mapsto> 0]"
    by (simp_all add: r1_def register_pod_def upd_ex_def h the_ex_def job_on_def new_pod_def)
  define c1 where "c1 = upd_ex 0 (\<lambda>x. x\<lparr>chan_buf := chan_buf x @ [job_on ''n2'']\<rparr>) r1"
  have a1: "AddPod ?c (job_on ''n2'') = AddDone c1"
    unfolding AddPod_def e by (simp add: r1_def [symmetric]) (simp add: chan_send_def hr1 the_ex_def Let_def c1_def)
  have h1: "heap_ex c1 = [the_ex [''n1'' \<mapsto> 0, ''n2'' \<mapsto> 1] [job_on ''n2''] False (WWait (job_on ''n1'') 0)]"
    "heap_pod c1 = [started_pod, new_pod ''n2'']" "executions c1 = [the_id \<mapsto> 0]"
    by (simp_all add: c1_def upd_ex_def hr1 the_ex_def)
  have st1: "pstep s (LAdd (job_on ''n2'')) (s\<lparr>s_ctl := c1\<rparr>)"
    by (rule step.add [OF h(4) _ a1]) (simp add: fresh_job_def e, simp add: h the_ex_def job_on_def)
  have e1: "forID c1 (job_ID (job_on n)) = Inr 0" for n by (simp add: forID_def h1 job_on_def)
  define c2 where "c2 = register_pod 0 (job_on ''n3'') c1"
  have h2: "heap_ex c2 = [the_ex [''n1'' \<mapsto> 0, ''n2'' \<mapsto> 1, ''n3'' \<mapsto> 2] [job_on ''n2''] False (WWait (job_on ''n1'') 0)]"
    "heap_pod c2 = [started_pod, new_pod ''n2'', new_pod ''n3'']"
    by (simp_all add: c2_def register_pod_def upd_ex_def h1 the_ex_def job_on_def new_pod_def numeral_2_eq_2)
  have a2: "AddPod c1 (job_on ''n3'') = AddBlocked 0 c2"
    unfolding AddPod_def e1 by (simp add: c2_def [symmetric]) (simp add: chan_send_def h2 the_ex_def Let_def)
  have st2: "pstep (s\<lparr>s_ctl := c1\<rparr>) (LAdd (job_on ''n3'')) (s\<lparr>s_ctl := c2, s_pending := Some (0, job_on ''n3'')\<rparr>)"
    using step.add_blocks [of "s\<lparr>s_ctl := c1\<rparr>" "job_on ''n3''" 0 c2 map_gauge_vec by_mtime] a2
    by (simp add: h(4) fresh_job_def e1 h1 the_ex_def) (simp add: job_on_def)
  have "stuck (s\<lparr>s_ctl := c2, s_pending := Some (0, job_on ''n3'')\<rparr>) 0 {''n1''}"
    by (simp add: stuck_def h2 the_ex_def started_pod_def)
  then show ?thesis using run_snoc [OF run_snoc [OF s st1] st2] by blast
qed

text \<open>The other continuation: the pod succeeds, all jobs are added, the worker returns.\<close>

definition dirs_fs :: fs where
  "dirs_fs = prepare_dirs False 5000000000 ''/var/www'' the_id sample_fs"

lemma dirs_ReadDir: "os_ReadDir dirs_fs ''/var/www'' =
    Inr [\<lparr>de_name = the_id, de_info = \<lparr>i_kind = Dir, i_mtime = 5000000000\<rparr>\<rparr>,
         \<lparr>de_name = ''latest'', de_info = \<lparr>i_kind = Link (''/var/www/'' @ the_id), i_mtime = 5000000000\<rparr>\<rparr>]"
  by code_simp

lemma example_closed:
  "\<exists>ls s. prun pool_init ls s \<and> heap_ex (s_ctl s) = [the_ex [''n1'' \<mapsto> 0] [] True WIdle]
     \<and> is_terminated (s_ctl s) 0 \<and> s_created s = [(0, job_on ''n1'')] \<and> s_pending s = None"
proof -
  obtain s where s: "prun pool_init [LNew sample_clock 1, LAdd (job_on ''n1''), LTurn 7 0 0, LTurn 7 0 0, LTurn 7 0 0] s"
    and h: "heap_ex (s_ctl s) = [the_ex [''n1'' \<mapsto> 0] [] False (WWait (job_on ''n1'') 0)]"
      "heap_pod (s_ctl s) = [started_pod]" "executions (s_ctl s) = [the_id \<mapsto> 0]" "s_pending s = None"
      "s_created s = [(0, job_on ''n1'')]" "col_wf map_gauge_vec (prom (s_ctl s))"
      "reportDir (s_ctl s) = ''/var/www''" "reportHistory (s_ctl s) = 3" "s_fs s = dirs_fs"
    using example_mid unfolding dirs_fs_def by blast
  let ?c = "s_ctl s"
  have u: "list_all (gv_utf8 map_gauge_vec) xs" for xs by (simp add: list_all_iff)
  obtain c1 r where c1: "PodTerminated map_gauge_vec 9 ?c the_id ''n1'' PodSucceeded = Ret (c1, r)"
    using PodTerminated_returns [OF h(6) u] by blast
  have p: "podForID ?c the_id ''n1'' = Inr 0" by (simp add: podForID_Inr h the_ex_def)
  from c1 have h1: "heap_ex c1 = [the_ex [''n1'' \<mapsto> 0] [] False (WWait (job_on ''n1'') 0)]"
    "is_terminated c1 0" "executions c1 = [the_id \<mapsto> 0]" "reportDir c1 = ''/var/www''" "reportHistory c1 = 3"
    by (cases rule: PodTerminated_cases; use p in \<open>auto simp: h is_terminated_def started_pod_def\<close>)+
  have st1: "pstep s (LTerm 9 the_id ''n1'' PodSucceeded) (s\<lparr>s_ctl := c1\<rparr>)" by (rule step.terminates [OF c1])
  define c2 where "c2 = addProgress 1 (set_worker 0 0 WIdle c1)"
  have h2: "heap_ex c2 = [the_ex [''n1'' \<mapsto> 0] [] False WIdle]" "heap_pod c2 = heap_pod c1"
    "executions c2 = [the_id \<mapsto> 0]" "reportDir c2 = ''/var/www''" "reportHistory c2 = 3"
    by (simp_all add: c2_def set_worker_def upd_ex_def h1 the_ex_def addProgress_def)
  have st2: "pstep (s\<lparr>s_ctl := c1\<rparr>) (LTurn 9 0 0) (s\<lparr>s_ctl := c2\<rparr>)"
    using step.turn [of 0 "s\<lparr>s_ctl := c1\<rparr>" 0 9 c2 None map_gauge_vec by_mtime] h1(2)
    by (simp add: h1 the_ex_def worker_turn_def c2_def is_terminated_def)
  define c3 where "c3 = upd_ex 0 (\<lambda>x. x\<lparr>chan_closed := True\<rparr>) c2"
  have "length (by_mtime xs) = length xs" for xs by (simp add: by_mtime_def)
  then have a: "AllAdded map_gauge_vec by_mtime 9 c2 dirs_fs the_id = Ret (c3, dirs_fs, None)"
    by (simp add: AllAdded_def forID_def h2 dirs_ReadDir Let_def close_chan_def c3_def the_ex_def)
  have st3: "pstep (s\<lparr>s_ctl := c2\<rparr>) (LAllAdded 9 the_id) (s\<lparr>s_ctl := c3\<rparr>)"
    using step.all_added [of "s\<lparr>s_ctl := c2\<rparr>" map_gauge_vec by_mtime 9 the_id c3 dirs_fs None] a h(9)
    by (simp add: h(4)) (metis fs.surjective sys.surjective sys.update_convs(1,2))
  have h3: "heap_ex c3 = [the_ex [''n1'' \<mapsto> 0] [] True WIdle]" "is_terminated c3 0"
    using h1(2) by (simp_all add: c3_def upd_ex_def h2 the_ex_def is_terminated_def)
  have "prun pool_init ([LNew sample_clock 1, LAdd (job_on ''n1''), LTurn 7 0 0, LTurn 7 0 0, LTurn 7 0 0]
      @ [LTerm 9 the_id ''n1'' PodSucceeded] @ [LTurn 9 0 0] @ [LAllAdded 9 the_id]) (s\<lparr>s_ctl := c3\<rparr>)"
    using run_snoc [OF run_snoc [OF run_snoc [OF s st1] st2] st3] by simp
  then obtain ls where "prun pool_init ls (s\<lparr>s_ctl := c3\<rparr>)" by blast
  then show ?thesis
    using h3 h(4,5) by (intro exI [of _ ls] exI [of _ "s\<lparr>s_ctl := c3\<rparr>"]) simp
qed

lemma example_exited:
  "\<exists>ls s. prun pool_init ls s \<and> heap_ex (s_ctl s) = [the_ex [''n1'' \<mapsto> 0] [] True WExit]
     \<and> is_terminated (s_ctl s) 0 \<and> s_created s = [(0, job_on ''n1'')]"
proof -
  obtain ls s where s: "prun pool_init ls s" "heap_ex (s_ctl s) = [the_ex [''n1'' \<mapsto> 0] [] True WIdle]"
    "is_terminated (s_ctl s) 0" "s_created s = [(0, job_on ''n1'')]" using example_closed by blast
  define c1 where "c1 = set_worker 0 0 WExit (s_ctl s)"
  have "pstep s (LTurn 9 0 0) (s\<lparr>s_ctl := c1\<rparr>)"
    using step.turn [of 0 s 0 9 c1 None map_gauge_vec by_mtime]
    by (simp add: s(2) the_ex_def worker_turn_def c1_def)
  moreover have "heap_ex c1 = [the_ex [''n1'' \<mapsto> 0] [] True WExit]" "is_terminated c1 0"
    using s(3) by (simp_all add: c1_def set_worker_def upd_ex_def s(2) the_ex_def is_terminated_def)
  ultimately show ?thesis using run_snoc [OF s(1)] s(4) by fastforce
qed

section \<open>Witnesses\<close>

theorem pool_exactly_once_witness:
  "\<exists>ls s. prun pool_init ls s \<and> created_nodes 0 s = [''n1'']
     \<and> set (created_nodes 0 s @ concat (map todo (ex_workers (heap_ex (s_ctl s) ! 0)))
         @ map job_Node (chan_buf (heap_ex (s_ctl s) ! 0)) @ pending_nodes 0 s) = {''n1''}"
proof -
  obtain ls s where s: "prun pool_init ls s" "heap_ex (s_ctl s) = [the_ex [''n1'' \<mapsto> 0] [] True WExit]"
    "s_created s = [(0, job_on ''n1'')]" using example_exited by blast
  have "0 < length (heap_ex (s_ctl s))" by (simp add: s(2))
  from pool_exactly_once [OF s(1) this] s show ?thesis
    by (intro exI [of _ ls] exI [of _ s]) (simp add: created_nodes_def job_on_def the_ex_def)
qed

theorem pool_bound_witness:
  "\<exists>ls s. prun pool_init ls s \<and> card {n \<in> set (created_nodes 0 s).
      \<not> (\<exists>pa. ex_pods (heap_ex (s_ctl s) ! 0) n = Some pa \<and> is_terminated (s_ctl s) pa)} \<le> 1"
proof -
  obtain ls s where s: "prun pool_init ls s" "stuck s 0 {''n1''}" using example_stuck by blast
  have "0 < length (heap_ex (s_ctl s))" using s(2) by (simp add: stuck_def)
  moreover have "nat (PodPoolSize pool_cfg) = 1" by (simp add: pool_cfg_def)
  ultimately have "card {n \<in> set (created_nodes 0 s).
      \<not> (\<exists>pa. ex_pods (heap_ex (s_ctl s) ! 0) n = Some pa \<and> is_terminated (s_ctl s) pa)} \<le> 1"
    using pool_bound [OF s(1), of 0] by metis
  with s(1) show ?thesis by blast
qed

theorem pool_completes_witness:
  "\<exists>ls s. prun pool_init ls s \<and> ex_workers (heap_ex (s_ctl s) ! 0) = [WExit]
     \<and> ''n1'' \<in> set (created_nodes 0 s) \<and> is_terminated (s_ctl s) 0"
proof -
  obtain ls s where s: "prun pool_init ls s" "heap_ex (s_ctl s) = [the_ex [''n1'' \<mapsto> 0] [] True WExit]"
    using example_exited by blast
  have h: "0 < length (heap_ex (s_ctl s))" "0 < PodPoolSize pool_cfg"
    "\<forall>wk \<in> set (ex_workers (heap_ex (s_ctl s) ! 0)). wk = WExit" "ex_pods (heap_ex (s_ctl s) ! 0) ''n1'' = Some 0"
    by (simp_all add: s(2) the_ex_def pool_cfg_def)
  from pool_completes [OF s(1) h] s show ?thesis
    by (intro exI [of _ ls] exI [of _ s]) (simp add: the_ex_def)
qed

theorem pool_drains_witness:
  "\<exists>ls0 s. prun pool_init ls0 s \<and> (\<exists>ls s'. turns_of 0 ls \<and> prun s ls s'
      \<and> (\<forall>wk \<in> set (ex_workers (heap_ex (s_ctl s') ! 0)). wk = WExit))"
proof -
  obtain ls s where s: "prun pool_init ls s" "heap_ex (s_ctl s) = [the_ex [''n1'' \<mapsto> 0] [] True WIdle]"
    "is_terminated (s_ctl s) 0" using example_closed by blast
  have h: "0 < length (heap_ex (s_ctl s))" "chan_closed (heap_ex (s_ctl s) ! 0)"
    "\<forall>n pa. ex_pods (heap_ex (s_ctl s) ! 0) n = Some pa \<longrightarrow> is_terminated (s_ctl s) pa"
    using s(3) by (simp_all add: s(2) the_ex_def)
  from pool_drains [OF s(1) h] s(1) show ?thesis by blast
qed


end
