(* ===== verification/Json.thy ===== *)
theory Json
  imports Metrics_Model "HOL-Library.AList"
begin

text \<open>
  The JSON values that the callback server decodes and the client encodes, at the level of
  values: \<open>encoding/json\<close> for \<open>metrics.Results\<close> and \<open>http.Event\<close>. Object keys match a field
  up to case (ASCII), unknown keys are ignored, \<open>null\<close> leaves a field as it was, a value of
  another kind is an error (the decoder goes on, but the call fails), and of two equal keys
  the later one counts. A number outside the range of a float64 is read as an infinity, which
  is an error. The text syntax is an argument of the handlers.
\<close>

datatype json = JNull | JBool bool | JNum float64 | JStr string | JArr "json list" | JObj "(string \<times> json) list"

record Event =
  Waring :: bool
  Action :: string
  Reason :: string
  Message :: string
  Args :: "string list"

section \<open>Decoding\<close>

definition json_field :: "string \<Rightarrow> string \<Rightarrow> bool" where
  "json_field f k \<longleftrightarrow> map ascii_lower k = map ascii_lower f"

fun dec_string :: "string \<Rightarrow> json \<Rightarrow> string option" where
  "dec_string old (JStr s) = Some s"
| "dec_string old JNull = Some old"
| "dec_string old _ = None"

fun dec_bool :: "bool \<Rightarrow> json \<Rightarrow> bool option" where
  "dec_bool old (JBool b) = Some b"
| "dec_bool old JNull = Some old"
| "dec_bool old _ = None"

fun dec_float :: "float64 \<Rightarrow> json \<Rightarrow> float64 option" where
  "dec_float old (JNum (Fin x)) = Some (Fin x)"
| "dec_float old JNull = Some old"
| "dec_float old _ = None"

fun dec_list :: "(json \<Rightarrow> 'a option) \<Rightarrow> json list \<Rightarrow> 'a list option" where
  "dec_list d [] = Some []"
| "dec_list d (v # vs) =
     (case d v of None \<Rightarrow> None | Some x \<Rightarrow> (case dec_list d vs of None \<Rightarrow> None | Some xs \<Rightarrow> Some (x # xs)))"

text \<open>A slice: \<open>null\<close> gives the nil slice.\<close>

fun dec_slice :: "(json \<Rightarrow> 'a option) \<Rightarrow> json \<Rightarrow> 'a list option" where
  "dec_slice d JNull = Some []"
| "dec_slice d (JArr vs) = dec_list d vs"
| "dec_slice d _ = None"

text \<open>A map: the entries of the object are stored one after the other.\<close>

fun dec_entries :: "(json \<Rightarrow> 'a option) \<Rightarrow> (string \<times> 'a) list \<Rightarrow> (string \<times> json) list \<Rightarrow> (string \<times> 'a) list option" where
  "dec_entries d m [] = Some m"
| "dec_entries d m ((k, v) # kvs) =
     (case d v of None \<Rightarrow> None | Some x \<Rightarrow> dec_entries d (AList.update k x m) kvs)"

text \<open>A struct: the fields of the object are set one after the other.\<close>

fun dec_struct :: "(string \<Rightarrow> json \<Rightarrow> 'r \<Rightarrow> 'r option) \<Rightarrow> 'r \<Rightarrow> (string \<times> json) list \<Rightarrow> 'r option" where
  "dec_struct f r [] = Some r"
| "dec_struct f r ((k, v) # kvs) = (case f k v r of None \<Rightarrow> None | Some r' \<Rightarrow> dec_struct f r' kvs)"

fun dec_labels :: "(string \<times> string) list \<Rightarrow> json \<Rightarrow> (string \<times> string) list option" where
  "dec_labels old JNull = Some []"
| "dec_labels old (JObj kvs) = dec_entries (dec_string []) old kvs"
| "dec_labels old _ = None"

definition Result_field :: "string \<Rightarrow> json \<Rightarrow> Result \<Rightarrow> Result option" where
  "Result_field k v r =
     (if json_field ''value'' k then map_option (\<lambda>x. r\<lparr>Value := x\<rparr>) (dec_float (Value r) v)
      else if json_field ''labels'' k then map_option (\<lambda>x. r\<lparr>res_Labels := x\<rparr>) (dec_labels (res_Labels r) v)
      else Some r)"

definition zero_Result :: Result where
  "zero_Result = \<lparr>Value = Fin 0, res_Labels = []\<rparr>"

fun dec_Result :: "json \<Rightarrow> Result option" where
  "dec_Result JNull = Some zero_Result"
| "dec_Result (JObj kvs) = dec_struct Result_field zero_Result kvs"
| "dec_Result _ = None"

text \<open>
  \<open>Decode(&results)\<close> into a pointer: \<open>null\<close> makes the pointer nil. The outer option is the
  error, the inner one the pointer.
\<close>

fun dec_Results :: "json \<Rightarrow> Results option option" where
  "dec_Results JNull = Some None"
| "dec_Results (JObj kvs) = map_option Some (dec_entries (dec_slice dec_Result) [] kvs)"
| "dec_Results _ = None"

definition Event_field :: "string \<Rightarrow> json \<Rightarrow> Event \<Rightarrow> Event option" where
  "Event_field k v e =
     (if json_field ''warning'' k then map_option (\<lambda>x. e\<lparr>Waring := x\<rparr>) (dec_bool (Waring e) v)
      else if json_field ''action'' k then map_option (\<lambda>x. e\<lparr>Action := x\<rparr>) (dec_string (Action e) v)
      else if json_field ''reason'' k then map_option (\<lambda>x. e\<lparr>Reason := x\<rparr>) (dec_string (Reason e) v)
      else if json_field ''message'' k then map_option (\<lambda>x. e\<lparr>Message := x\<rparr>) (dec_string (Message e) v)
      else if json_field ''args'' k then map_option (\<lambda>x. e\<lparr>Args := x\<rparr>) (dec_slice (dec_string []) v)
      else Some e)"

definition zero_Event :: Event where
  "zero_Event = \<lparr>Waring = False, Action = [], Reason = [], Message = [], Args = []\<rparr>"

fun dec_Event :: "json \<Rightarrow> Event option option" where
  "dec_Event JNull = Some None"
| "dec_Event (JObj kvs) = map_option Some (dec_struct Event_field zero_Event kvs)"
| "dec_Event _ = None"

section \<open>Encoding\<close>

text \<open>Marshalling: \<open>omitempty\<close> fields are left out where empty; an infinity or NaN is an error.\<close>

fun enc_float :: "float64 \<Rightarrow> json option" where
  "enc_float (Fin x) = Some (JNum (Fin x))"
| "enc_float _ = None"

definition enc_Result :: "Result \<Rightarrow> json option" where
  "enc_Result r = map_option (\<lambda>v. JObj ((''value'', v) #
     (if res_Labels r = [] then [] else [(''labels'', JObj (map (\<lambda>(k, s). (k, JStr s)) (res_Labels r)))])))
     (enc_float (Value r))"

fun enc_all :: "('a \<Rightarrow> json option) \<Rightarrow> 'a list \<Rightarrow> json list option" where
  "enc_all f [] = Some []"
| "enc_all f (x # xs) =
     (case f x of None \<Rightarrow> None | Some v \<Rightarrow> (case enc_all f xs of None \<Rightarrow> None | Some vs \<Rightarrow> Some (v # vs)))"

fun enc_entries :: "Results \<Rightarrow> (string \<times> json) list option" where
  "enc_entries [] = Some []"
| "enc_entries ((k, rr) # rs) =
     (case enc_all enc_Result rr of None \<Rightarrow> None | Some vs \<Rightarrow>
        (case enc_entries rs of None \<Rightarrow> None | Some kvs \<Rightarrow> Some ((k, JArr vs) # kvs)))"

definition enc_Results :: "Results \<Rightarrow> json option" where
  "enc_Results rs = map_option JObj (enc_entries rs)"

definition enc_Event :: "Event \<Rightarrow> json" where
  "enc_Event e = JObj ([(''warning'', JBool (Waring e)), (''action'', JStr (Action e)), (''reason'', JStr (Reason e))]
     @ (if Message e = [] then [] else [(''message'', JStr (Message e))])
     @ (if Args e = [] then [] else [(''args'', JArr (map JStr (Args e)))]))"

section \<open>Round trips\<close>

lemma json_fields [simp]:
  "json_field ''value'' ''value''" "\<not> json_field ''value'' ''labels''" "json_field ''labels'' ''labels''"
  "json_field ''warning'' ''warning''" "json_field ''action'' ''action''" "json_field ''reason'' ''reason''"
  "json_field ''message'' ''message''" "json_field ''args'' ''args''"
  "\<not> json_field ''warning'' ''action''" "\<not> json_field ''warning'' ''reason''" "\<not> json_field ''warning'' ''message''"
  "\<not> json_field ''warning'' ''args''" "\<not> json_field ''action'' ''reason''" "\<not> json_field ''action'' ''message''"
  "\<not> json_field ''action'' ''args''" "\<not> json_field ''reason'' ''message''" "\<not> json_field ''reason'' ''args''"
  "\<not> json_field ''message'' ''args''"
  by code_simp+

lemma dec_list_strings: "dec_list (dec_string []) (map JStr xs) = Some xs"
  by (induction xs) auto

lemma update_fresh: "k \<notin> fst ` set m \<Longrightarrow> AList.update k v m = m @ [(k, v)]"
  by (induction m) auto

lemma dec_entries_strings:
  "distinct (map fst (m @ ls)) \<Longrightarrow> dec_entries (dec_string []) m (map (\<lambda>(k, s). (k, JStr s)) ls) = Some (m @ ls)"
  by (induction ls arbitrary: m) (auto simp: update_fresh)

definition result_ok :: "Result \<Rightarrow> bool" where
  "result_ok r \<longleftrightarrow> (\<exists>x. Value r = Fin x) \<and> distinct (map fst (res_Labels r))"

lemma dec_enc_Result: "result_ok r \<Longrightarrow> \<exists>v. enc_Result r = Some v \<and> dec_Result v = Some r"
  using dec_entries_strings [of "[]" "res_Labels r"]
  by (cases r) (auto simp: result_ok_def enc_Result_def Result_field_def zero_Result_def)

lemma dec_enc_all: "\<forall>r \<in> set rr. result_ok r \<Longrightarrow> \<exists>vs. enc_all enc_Result rr = Some vs \<and> dec_list dec_Result vs = Some rr"
proof (induction rr)
  case (Cons r rr)
  from dec_enc_Result [of r] Cons show ?case by fastforce
qed simp

lemma dec_enc_entries:
  "distinct (map fst (m @ rs)) \<Longrightarrow> \<forall>(k, rr) \<in> set rs. \<forall>r \<in> set rr. result_ok r \<Longrightarrow>
   \<exists>kvs. enc_entries rs = Some kvs \<and> dec_entries (dec_slice dec_Result) m kvs = Some (m @ rs)"
proof (induction rs arbitrary: m)
  case (Cons e rs)
  obtain k rr where e: "e = (k, rr)" by (cases e)
  obtain vs where vs: "enc_all enc_Result rr = Some vs" "dec_list dec_Result vs = Some rr"
    using dec_enc_all [of rr] Cons.prems(2) e by auto
  obtain kvs where "enc_entries rs = Some kvs"
    "dec_entries (dec_slice dec_Result) (m @ [(k, rr)]) kvs = Some ((m @ [(k, rr)]) @ rs)"
    using Cons.IH [of "m @ [(k, rr)]"] Cons.prems e by auto
  with vs show ?case using Cons.prems(1) by (auto simp: e update_fresh)
qed simp

definition results_ok :: "Results \<Rightarrow> bool" where
  "results_ok rs \<longleftrightarrow> distinct (map fst rs) \<and> (\<forall>(k, rr) \<in> set rs. \<forall>r \<in> set rr. result_ok r)"

lemma dec_enc_Results: "results_ok rs \<Longrightarrow> \<exists>v. enc_Results rs = Some v \<and> dec_Results v = Some (Some rs)"
  using dec_enc_entries [of "[]" rs] by (auto simp: results_ok_def enc_Results_def)

lemma dec_enc_Event: "dec_Event (enc_Event e) = Some (Some e)"
  by (cases e) (simp add: enc_Event_def Event_field_def zero_Event_def dec_list_strings)

end
