(* ===== verification/Kube.thy ===== *)
theory Kube
  imports Config
begin

text \<open>
  The parts of the Kubernetes objects that the code reads and writes: environment variables,
  containers, pods and nodes. What the code passes through without looking at it is kept in an
  opaque field. A Go map that may be nil is an option.
\<close>

record EnvVar =
  ev_Name :: string
  ev_Value :: string
  ev_ValueFrom :: "string option"

record Container =
  cn_Name :: string
  cn_Env :: "EnvVar list"
  cn_rest :: string

record Pod =
  pd_Name :: string
  pd_Namespace :: string
  pd_Labels :: "(string \<rightharpoonup> string) option"
  pd_OwnerReferences :: "owner_ref list"
  pd_NodeName :: string
  pd_ServiceAccountName :: string
  pd_ImagePullSecrets :: "string list"
  pd_RestartPolicy :: string
  pd_Containers :: "Container list"
  pd_InitContainers :: "Container list"
  pd_Phase :: string
  pd_rest :: string

record NodeCondition =
  nc_Type :: string
  nc_Status :: string

record Node =
  nd_Name :: string
  nd_Unschedulable :: bool
  nd_Conditions :: "NodeCondition list"

text \<open>\<open>obj.GetLabels()[key]\<close>: a missing label, also of a nil map, reads as the empty string.\<close>

definition label_of :: "Pod \<Rightarrow> string \<Rightarrow> string" where
  "label_of p k = (case pd_Labels p of None \<Rightarrow> [] | Some m \<Rightarrow> (case m k of None \<Rightarrow> [] | Some v \<Rightarrow> v))"

definition zero_Pod :: Pod where
  "zero_Pod = \<lparr>pd_Name = [], pd_Namespace = [], pd_Labels = None, pd_OwnerReferences = [], pd_NodeName = [],
     pd_ServiceAccountName = [], pd_ImagePullSecrets = [], pd_RestartPolicy = [], pd_Containers = [],
     pd_InitContainers = [], pd_Phase = [], pd_rest = []\<rparr>"

end
