(* ===== verification/Reconciler.thy ===== *)
theory Reconciler
  imports Kube Lifecycle_Properties
begin

text \<open>
  \<open>pkg/controller\<close>: the event filter and the reconciler that turns terminated pods into
  \<open>PodTerminated\<close> calls and saves their logs. The reconciler works on the Go interface
  \<open>lifecycle.Controller\<close>, so its operations are arguments here; \<open>lifecycle_controller\<close> has the
  laws its lemmas need, and the properties instantiate them with the controller of
  \<open>Lifecycle\<close>. The API server is an argument.
\<close>

section \<open>predicate.go\<close>

definition LabelOwner :: string where
  "LabelOwner = ''batch-job-controller.bakito.github.com/owner''"

definition LabelExecutionID :: string where
  "LabelExecutionID = ''batch-job-controller.bakito.github.com/execution-id''"

definition matches :: "Pod \<Rightarrow> bool" where
  "matches m \<longleftrightarrow> label_of m LabelExecutionID \<noteq> [] \<and> label_of m LabelOwner \<noteq> []"

datatype pod_event = CreateEvent Pod | UpdateEvent Pod Pod | DeleteEvent Pod | GenericEvent Pod

fun podPredicate :: "pod_event \<Rightarrow> bool" where
  "podPredicate (CreateEvent obj) = matches obj"
| "podPredicate (UpdateEvent objOld objNew) = matches objNew"
| "podPredicate (DeleteEvent obj) = matches obj"
| "podPredicate (GenericEvent obj) = matches obj"

section \<open>controller.go\<close>

text \<open>
  The API server: reading a pod, and the log of a container as a stream: opening it fails, or
  \<open>io.Copy\<close> reads some text and may fail after it. Closing the stream has no effect here.
\<close>

record pod_api =
  pa_Get :: "string \<times> string \<Rightarrow> err + Pod"
  pa_Stream :: "string \<Rightarrow> string \<Rightarrow> string \<Rightarrow> err + (string \<times> err option)"

definition getPodLog :: "pod_api \<Rightarrow> string \<Rightarrow> string \<Rightarrow> string \<Rightarrow> err + string" where
  "getPodLog api namespace name containerName =
     (case pa_Stream api namespace name containerName of
        Inl e \<Rightarrow> Inl e
      | Inr (buf, Some e) \<Rightarrow> Inl e
      | Inr (buf, None) \<Rightarrow> Inr buf)"

text \<open>
  \<open>SetupWithManager\<close> registers the reconciler: for pods, with a second watch on pods, behind the
  event filter. \<open>newForConfig\<close> is the making of the client set, \<open>buildComplete\<close> the builder's end.
\<close>

record registration =
  rg_For :: string
  rg_Watches :: "string list"
  rg_EventFilter :: "pod_event \<Rightarrow> bool"

definition SetupWithManager :: "err option \<Rightarrow> (registration \<Rightarrow> err option) \<Rightarrow> err option" where
  "SetupWithManager newForConfig buildComplete =
     (case newForConfig of
        Some e \<Rightarrow> Some e
      | None \<Rightarrow> buildComplete \<lparr>rg_For = ''Pod'', rg_Watches = [''Pod''], rg_EventFilter = podPredicate\<rparr>)"

definition log_file :: "string \<Rightarrow> string \<Rightarrow> string" where
  "log_file node name = node @ ''-container-'' @ name @ ''.log''"

definition savePodLog ::
  "instant \<Rightarrow> Config \<Rightarrow> fs \<Rightarrow> string \<Rightarrow> string \<Rightarrow> string \<Rightarrow> string \<Rightarrow> (os_error + unit) \<times> fs" where
  "savePodLog t cfg s node executionID name data =
     (case MkReportDir t cfg s executionID of
        (Inl e, s') \<Rightarrow> (Inl e, s')
      | (Inr _, s') \<Rightarrow> os_WriteFile t s' (ReportFileName cfg executionID (log_file node name)) data)"

text \<open>Every container's log is fetched and saved; errors are logged and the loop goes on.\<close>

definition savePodLogs :: "pod_api \<Rightarrow> instant \<Rightarrow> Config \<Rightarrow> fs \<Rightarrow> Pod \<Rightarrow> string \<Rightarrow> fs" where
  "savePodLogs api t cfg s pod executionID =
     fold (\<lambda>c s. case getPodLog api (pd_Namespace pod) (pd_Name pod) (cn_Name c) of
             Inl _ \<Rightarrow> s
           | Inr l \<Rightarrow> snd (savePodLog t cfg s (pd_NodeName pod) executionID (cn_Name c) l))
       (pd_Containers pod) s"

fun is_ExecutionIDNotFound :: "err \<Rightarrow> bool" where
  "is_ExecutionIDNotFound (ExecutionIDNotFound _) = True"
| "is_ExecutionIDNotFound _ = False"

definition Reconcile ::
  "('c \<Rightarrow> Config) \<Rightarrow> ('c \<Rightarrow> string \<Rightarrow> string \<Rightarrow> bool) \<Rightarrow>
   (instant \<Rightarrow> 'c \<Rightarrow> string \<Rightarrow> string \<Rightarrow> string \<Rightarrow> ('c \<times> err option) go) \<Rightarrow>
   pod_api \<Rightarrow> instant \<Rightarrow> 'c \<Rightarrow> fs \<Rightarrow> string \<times> string \<Rightarrow> ('c \<times> fs \<times> err option) go" where
  "Reconcile config has podTerminated api t c s req =
     (case pa_Get api req of
        Inl e \<Rightarrow> if e = ApiNotFound then Ret (c, s, None) else Ret (c, s, Some e)
      | Inr pod \<Rightarrow>
          let executionID = label_of pod LabelExecutionID; node = pd_NodeName pod in
          if pd_Phase pod = PodSucceeded \<or> pd_Phase pod = PodFailed then
            let s' = (if SavePodLog (config c) \<and> has c node executionID
                      then savePodLogs api t (config c) s pod executionID else s)
            in go_bind (podTerminated t c executionID node (pd_Phase pod)) (\<lambda>(c', r).
                 case r of
                   None \<Rightarrow> Ret (c', s', None)
                 | Some e \<Rightarrow> Ret (c', s', if is_ExecutionIDNotFound e then None else Some e))
          else Ret (c, s, None))"

section \<open>Lemmas on the interface\<close>

context pod_sink
begin

lemma reconcile_error:
  assumes "Reconcile config has podTerminated api t c s req = Ret (c', s', Some e)"
  shows "pa_Get api req = Inl e \<and> e \<noteq> ApiNotFound \<and> c' = c \<and> s' = s"
  using assms podTerminated_error
  by (fastforce simp: Reconcile_def Let_def split: sum.splits if_splits option.splits)

lemma reconcile_again:
  assumes "inv c" and "Reconcile config has podTerminated api t c s req = Ret (c', s', r)"
  shows "\<exists>s''. Reconcile config has podTerminated api t' c' s' req = Ret (c', s'', r)"
proof (cases "pa_Get api req")
  case (Inl e)
  with assms(2) show ?thesis by (auto simp: Reconcile_def split: if_splits)
next
  case (Inr pod)
  let ?e = "label_of pod LabelExecutionID" and ?n = "pd_NodeName pod" and ?ph = "pd_Phase pod"
  show ?thesis
  proof (cases "?ph = PodSucceeded \<or> ?ph = PodFailed")
    case False
    with Inr assms(2) show ?thesis by (auto simp: Reconcile_def Let_def)
  next
    case True
    with Inr assms(2) obtain x where p: "podTerminated t c ?e ?n ?ph = Ret (c', x)"
      and r: "r = (case x of None \<Rightarrow> None | Some e \<Rightarrow> if is_ExecutionIDNotFound e then None else Some e)"
      by (auto simp: Reconcile_def Let_def split: option.splits)
    from podTerminated_again [OF assms(1) p, of t' ?ph] True Inr r show ?thesis
      by (auto simp: Reconcile_def Let_def split: option.splits)
  qed
qed

lemma reconcile_inv:
  assumes "inv c" and "Reconcile config has podTerminated api t c s req = Ret (c', s', r)"
  shows "inv c'"
  using assms podTerminated_inv
  by (fastforce simp: Reconcile_def Let_def split: sum.splits if_splits option.splits)

end

section \<open>Saving logs\<close>

text \<open>
  \<open>writable s d\<close>: the file system refuses nothing, the directory \<open>d\<close> exists, and its entries
  are no directories.
\<close>

definition writable :: "fs \<Rightarrow> fpath \<Rightarrow> bool" where
  "writable s d \<longleftrightarrow> fs_ro s = [] \<and> is_dir s d \<and> (\<forall>n. \<not> is_dir s (fst d, snd d @ [n]))"

lemma fs_ro_WriteFile: "fs_ro (snd (os_WriteFile t s p data)) = fs_ro s"
  by (auto simp: os_WriteFile_def Let_def fs_put_def touch_def split: option.splits)

lemma WriteFile_writable:
  assumes w: "writable s d" and p: "fpath_of p = (fst d, snd d @ [n])"
  shows "fst (os_WriteFile t s p data) = Inr ()" and "writable (snd (os_WriteFile t s p data)) d"
proof -
  let ?q = "(fst d, snd d @ [n])"
  have nd: "\<not> denied s q" for q using w by (simp add: writable_def denied_def)
  have par: "parent ?q = d" by (simp add: parent_def)
  have "\<not> is_dir s ?q" using w unfolding writable_def by blast
  then have k: "fs_get s ?q = Some i \<Longrightarrow> i_kind i \<noteq> Dir" for i
    by (simp add: is_dir_def)
  show s: "fst (os_WriteFile t s p data) = Inr ()"
    using nd k w par by (auto simp: os_WriteFile_def Let_def p writable_def split: option.splits)
  have dir: "is_dir (snd (os_WriteFile t s p data)) r = is_dir s r" if "r \<noteq> ?q" for r
    using that nd k par
    by (auto simp: os_WriteFile_def Let_def p is_dir_def fs_get_put fs_get_touch split: option.splits)
  have "\<not> is_dir (snd (os_WriteFile t s p data)) ?q"
    using WriteFile_get [OF s] by (auto simp: p is_dir_def)
  then have "\<not> is_dir (snd (os_WriteFile t s p data)) (fst d, snd d @ [m])" for m
    using dir [of "(fst d, snd d @ [m])"] w by (cases "m = n") (auto simp: writable_def)
  moreover have "is_dir (snd (os_WriteFile t s p data)) d"
    using dir [of d] w by (cases d) (auto simp: writable_def)
  moreover have "fs_ro (snd (os_WriteFile t s p data)) = []" using w by (simp add: fs_ro_WriteFile writable_def)
  ultimately show "writable (snd (os_WriteFile t s p data)) d" unfolding writable_def by blast
qed

text \<open>The directory of an execution's reports.\<close>

definition report_path :: "Config \<Rightarrow> string \<Rightarrow> fpath" where
  "report_path cfg e = (is_rooted (ReportDirectory cfg), path_comps (ReportDirectory cfg) @ [e])"

lemma savePodLog_writes:
  fixes cfg :: Config and t :: instant and data :: string
  assumes d: "ReportDirectory cfg \<noteq> []" "plain_name e" "plain_name (log_file node name)"
    and w: "writable s (report_path cfg e)"
  defines "s' \<equiv> snd (savePodLog t cfg s node e name data)"
  shows "writable s' (report_path cfg e)"
    and "\<exists>i. fs_get s' (fst (report_path cfg e), snd (report_path cfg e) @ [log_file node name]) = Some i \<and> i_kind i = File data"
    and "q \<noteq> (fst (report_path cfg e), snd (report_path cfg e) @ [log_file node name]) \<Longrightarrow> fs_get s q = Some j \<Longrightarrow>
      \<exists>i. fs_get s' q = Some i \<and> i_kind i = i_kind j"
proof -
  let ?p = "ReportFileName cfg e (log_file node name)"
  have m: "MkReportDir t cfg s e = (Inr (), s)"
    using MkdirAll_existing [of s "filepath_Join [ReportDirectory cfg, e]" t] w MkReportDir_path [OF d(1,2)]
    by (simp add: MkReportDir_def writable_def report_path_def)
  have p: "fpath_of ?p = (fst (report_path cfg e), snd (report_path cfg e) @ [log_file node name])"
    using ReportFileName_path [OF d] by (simp add: report_path_def)
  have s': "s' = snd (os_WriteFile t s ?p data)" by (simp add: s'_def savePodLog_def m)
  note wf = WriteFile_writable [OF w p]
  show "writable s' (report_path cfg e)" unfolding s' by (rule wf(2))
  show "\<exists>i. fs_get s' (fst (report_path cfg e), snd (report_path cfg e) @ [log_file node name]) = Some i \<and> i_kind i = File data"
    using WriteFile_get [OF wf(1)] by (simp add: s' p)
  show "q \<noteq> (fst (report_path cfg e), snd (report_path cfg e) @ [log_file node name]) \<Longrightarrow> fs_get s q = Some j \<Longrightarrow>
      \<exists>i. fs_get s' q = Some i \<and> i_kind i = i_kind j"
    using WriteFile_frame [of q ?p s j t data] by (auto simp: s' p)
qed

lemma log_file_inject: "log_file n a = log_file n b \<longleftrightarrow> a = b"
  by (simp add: log_file_def)

lemma log_file_plain: "CHR ''/'' \<notin> set n \<Longrightarrow> CHR ''/'' \<notin> set a \<Longrightarrow> plain_name (log_file n a)"
  unfolding plain_name_def
proof (intro conjI)
  have "15 \<le> length (log_file n a)" by (simp add: log_file_def)
  then show "log_file n a \<noteq> []" "log_file n a \<noteq> ''.''" "log_file n a \<noteq> ''..''" by auto
qed (simp add: log_file_def)

lemma savePodLogs_fold:
  fixes cfg :: Config and t :: instant and get :: "Container \<Rightarrow> err + string"
  assumes d: "ReportDirectory cfg \<noteq> []" "plain_name e" "CHR ''/'' \<notin> set node"
    and c: "\<forall>c \<in> set cs. CHR ''/'' \<notin> set (cn_Name c)" "distinct (map cn_Name cs)"
    and w: "writable s (report_path cfg e)"
  defines "s' \<equiv> fold (\<lambda>c s. case get c of Inl _ \<Rightarrow> s | Inr l \<Rightarrow> snd (savePodLog t cfg s node e (cn_Name c) l)) cs s"
  shows "c \<in> set cs \<Longrightarrow> get c = Inr l \<Longrightarrow>
      \<exists>i. fs_get s' (fst (report_path cfg e), snd (report_path cfg e) @ [log_file node (cn_Name c)]) = Some i \<and> i_kind i = File l"
    and "\<forall>c \<in> set cs. q \<noteq> (fst (report_path cfg e), snd (report_path cfg e) @ [log_file node (cn_Name c)]) \<Longrightarrow>
      fs_get s q = Some j \<Longrightarrow> \<exists>i. fs_get s' q = Some i \<and> i_kind i = i_kind j"
proof -
  let ?P = "\<lambda>c. (fst (report_path cfg e), snd (report_path cfg e) @ [log_file node (cn_Name c)])"
  have "(\<forall>c \<in> set cs. \<forall>l. get c = Inr l \<longrightarrow> (\<exists>i. fs_get s' (?P c) = Some i \<and> i_kind i = File l))
    \<and> (\<forall>q j. (\<forall>c \<in> set cs. q \<noteq> ?P c) \<longrightarrow> fs_get s q = Some j \<longrightarrow> (\<exists>i. fs_get s' q = Some i \<and> i_kind i = i_kind j))"
    using c w unfolding s'_def
  proof (induction cs arbitrary: s)
    case Nil
    then show ?case by simp
  next
    case (Cons a cs)
    have pl: "plain_name (log_file node (cn_Name a))" using log_file_plain d(3) Cons.prems(1) by simp
    let ?s1 = "case get a of Inl _ \<Rightarrow> s | Inr l \<Rightarrow> snd (savePodLog t cfg s node e (cn_Name a) l)"
    note sv = savePodLog_writes [OF d(1,2) pl Cons.prems(3)]
    have w1: "writable ?s1 (report_path cfg e)" using Cons.prems(3) sv(1) by (simp split: sum.split)
    have fr: "\<exists>i. fs_get ?s1 q = Some i \<and> i_kind i = i_kind j" if "q \<noteq> ?P a" "fs_get s q = Some j" for q j
      using sv(3) that by (auto split: sum.split)
    have ne: "?P a \<noteq> ?P c" if "c \<in> set cs" for c
      using Cons.prems(2) that by (auto simp: log_file_inject)
    from Cons.IH [OF _ _ w1] Cons.prems(1,2) have ih:
      "\<forall>c \<in> set cs. \<forall>l. get c = Inr l \<longrightarrow> (\<exists>i. fs_get (fold (\<lambda>c s. case get c of Inl _ \<Rightarrow> s
          | Inr l \<Rightarrow> snd (savePodLog t cfg s node e (cn_Name c) l)) cs ?s1) (?P c) = Some i \<and> i_kind i = File l)"
      "\<forall>q j. (\<forall>c \<in> set cs. q \<noteq> ?P c) \<longrightarrow> fs_get ?s1 q = Some j \<longrightarrow> (\<exists>i. fs_get (fold (\<lambda>c s. case get c of Inl _ \<Rightarrow> s
          | Inr l \<Rightarrow> snd (savePodLog t cfg s node e (cn_Name c) l)) cs ?s1) q = Some i \<and> i_kind i = i_kind j)"
      by auto
    have "\<exists>i. fs_get (fold (\<lambda>c s. case get c of Inl _ \<Rightarrow> s
          | Inr l \<Rightarrow> snd (savePodLog t cfg s node e (cn_Name c) l)) cs ?s1) (?P a) = Some i \<and> i_kind i = File l"
      if g: "get a = Inr l" for l
    proof -
      obtain i where i: "fs_get ?s1 (?P a) = Some i" "i_kind i = File l" using sv(2) [of t l] g by auto
      from ih(2) [THEN spec, THEN spec, THEN mp, THEN mp, OF ballI, OF ne i(1)] i(2) show ?thesis by simp
    qed
    moreover have "\<exists>i. fs_get (fold (\<lambda>c s. case get c of Inl _ \<Rightarrow> s
          | Inr l \<Rightarrow> snd (savePodLog t cfg s node e (cn_Name c) l)) cs ?s1) q = Some i \<and> i_kind i = i_kind j"
      if q: "\<forall>c \<in> set (a # cs). q \<noteq> ?P c" "fs_get s q = Some j" for q j
    proof -
      obtain i where i: "fs_get ?s1 q = Some i" "i_kind i = i_kind j" using fr [of q j] q by auto
      have "\<forall>c \<in> set cs. q \<noteq> ?P c" using q(1) by simp
      from ih(2) [THEN spec, THEN spec, THEN mp, THEN mp, OF this i(1)] i(2) show ?thesis by simp
    qed
    ultimately show ?case using ih(1) by simp
  qed
  then show "c \<in> set cs \<Longrightarrow> get c = Inr l \<Longrightarrow> \<exists>i. fs_get s' (?P c) = Some i \<and> i_kind i = File l"
    and "\<forall>c \<in> set cs. q \<noteq> ?P c \<Longrightarrow> fs_get s q = Some j \<Longrightarrow> \<exists>i. fs_get s' q = Some i \<and> i_kind i = i_kind j"
    by blast+
qed

end
