(* ===== verification/Http.thy ===== *)
theory Http
  imports Json Reconciler
begin

text \<open>
  \<open>pkg/http\<close>: the callback server, through which job pods deliver results, files and events,
  the checks in front of it, the health check of the servers, and the mock server. Handlers
  return the new state and the HTTP status (200 where the code writes none); the bodies of
  error responses and the log are left out. Arguments are the controller interface, the JSON
  text parser, the validation library, \<open>mime\<close>, the UUID generator, gin's \<open>SaveUploadedFile\<close>
  and the API reader.
\<close>

section \<open>postserver.go\<close>

definition CallbackBaseResultSubPath :: string where "CallbackBaseResultSubPath = ''/result''"
definition CallbackBaseFileSubPath :: string where "CallbackBaseFileSubPath = ''/file''"
definition CallbackBaseEventSubPath :: string where "CallbackBaseEventSubPath = ''/event''"

type_synonym http_status = nat

definition StatusOK :: http_status where "StatusOK = 200"
definition StatusBadRequest :: http_status where "StatusBadRequest = 400"
definition StatusNotFound :: http_status where "StatusNotFound = 404"
definition StatusNotAcceptable :: http_status where "StatusNotAcceptable = 406"
definition StatusInternalServerError :: http_status where "StatusInternalServerError = 500"

definition SaveFile :: "instant \<Rightarrow> Config \<Rightarrow> fs \<Rightarrow> string \<Rightarrow> string \<Rightarrow> string \<Rightarrow> string \<times> (os_error + unit) \<times> fs" where
  "SaveFile t cfg s executionID name data =
     (case MkReportDir t cfg s executionID of
        (Inl e, s') \<Rightarrow> ([], Inl e, s')
      | (Inr _, s') \<Rightarrow>
          let fileName = filepath_Clean (ReportFileName cfg executionID name)
          in (fileName, os_WriteFile t s' fileName data))"

section \<open>middleware.go\<close>

text \<open>\<^term>\<open>None\<close>: the request goes on to its handler.\<close>

definition middleware ::
  "('c \<Rightarrow> string \<Rightarrow> string \<Rightarrow> bool) \<Rightarrow> Config \<Rightarrow> 'c option \<Rightarrow> string \<Rightarrow> string \<Rightarrow> http_status option" where
  "middleware has cfg ctl node executionID =
     (case ctl of
        None \<Rightarrow> None
      | Some c \<Rightarrow>
          if \<not> has c node executionID \<and> \<not> DevMode cfg then Some StatusNotAcceptable else None)"

text \<open>\<open>gin.Recovery\<close> in front of the middleware: a panic of the handler answers 500.\<close>

definition recovered :: "('s \<times> http_status) go \<Rightarrow> 's option \<times> http_status" where
  "recovered r = (case r of Ret (s, st) \<Rightarrow> (Some s, st) | Panic _ \<Rightarrow> (None, StatusInternalServerError))"

definition endpoint ::
  "('c \<Rightarrow> string \<Rightarrow> string \<Rightarrow> bool) \<Rightarrow> Config \<Rightarrow> ('c \<times> fs \<Rightarrow> (('c \<times> fs) \<times> http_status) go) \<Rightarrow>
   'c \<times> fs \<Rightarrow> string \<Rightarrow> string \<Rightarrow> ('c \<times> fs) option \<times> http_status" where
  "endpoint has cfg handler st node executionID =
     (case middleware has cfg (Some (fst st)) node executionID of
        Some code \<Rightarrow> (Some st, code)
      | None \<Rightarrow> recovered (handler st))"

section \<open>postserver-results.go\<close>

definition postResultCallback ::
  "(instant \<Rightarrow> 'c \<Rightarrow> string \<Rightarrow> string \<Rightarrow> bool \<Rightarrow> Results \<Rightarrow> 'c go) \<Rightarrow> instant \<Rightarrow> Config \<Rightarrow>
   string \<Rightarrow> string \<Rightarrow> Results \<Rightarrow> string \<Rightarrow> 'c \<times> fs \<Rightarrow> (('c \<times> fs) \<times> http_status option) go" where
  "postResultCallback report_received t cfg node executionID results body cs =
     (case SaveFile t cfg (snd cs) executionID (node @ ''.json'') body of
        (_, Inl e, s') \<Rightarrow> Ret ((fst cs, s'), Some StatusInternalServerError)
      | (_, Inr _, s') \<Rightarrow>
          go_bind (report_received t (fst cs) executionID node False results)
            (\<lambda>c'. Ret ((c', s'), None)))"

text \<open>
  \<open>processPostResult\<close>: \<open>body\<close> is what \<open>GetRawData\<close> returns; the callback answers with the
  status it wrote, if it failed. Validating a nil pointer (the body \<open>null\<close>) panics.
\<close>

definition processPostResult ::
  "(string \<Rightarrow> string + json) \<Rightarrow> (string \<Rightarrow> bool) \<Rightarrow> Config \<Rightarrow> err + string \<Rightarrow>
   (Results \<Rightarrow> string \<Rightarrow> 's \<Rightarrow> ('s \<times> http_status option) go) \<Rightarrow> 's \<Rightarrow> ('s \<times> http_status) go" where
  "processPostResult parse isValidMetricName cfg body callback s =
     (case body of
        Inl e \<Rightarrow> Ret (s, StatusBadRequest)
      | Inr b \<Rightarrow>
          (case parse b of
             Inl e \<Rightarrow> Ret (s, StatusBadRequest)
           | Inr v \<Rightarrow>
               (case dec_Results v of
                  None \<Rightarrow> Ret (s, StatusBadRequest)
                | Some None \<Rightarrow> Panic ''invalid memory address or nil pointer dereference''
                | Some (Some results) \<Rightarrow>
                    if Validate isValidMetricName results cfg \<noteq> None then Ret (s, StatusBadRequest)
                    else go_bind (callback results b s) (\<lambda>(s', st).
                      Ret (s', case st of None \<Rightarrow> StatusOK | Some code \<Rightarrow> code)))))"

definition postResult ::
  "(instant \<Rightarrow> 'c \<Rightarrow> string \<Rightarrow> string \<Rightarrow> bool \<Rightarrow> Results \<Rightarrow> 'c go) \<Rightarrow> (string \<Rightarrow> string + json) \<Rightarrow> (string \<Rightarrow> bool) \<Rightarrow>
   instant \<Rightarrow> Config \<Rightarrow> string \<Rightarrow> string \<Rightarrow> err + string \<Rightarrow> 'c \<times> fs \<Rightarrow> (('c \<times> fs) \<times> http_status) go" where
  "postResult report_received parse isValidMetricName t cfg node executionID body =
     processPostResult parse isValidMetricName cfg body (postResultCallback report_received t cfg node executionID)"

section \<open>types.go\<close>

definition EventTypeWarning :: string where "EventTypeWarning = ''Warning''"
definition EventTypeNormal :: string where "EventTypeNormal = ''Normal''"

definition Event_Type :: "Event \<Rightarrow> string" where
  "Event_Type e = (if Waring e then EventTypeWarning else EventTypeNormal)"

text \<open>\<open>rune(reason[0])\<close>: the first byte as a code point; an empty string panics.\<close>

definition firstIsUpper :: "string \<Rightarrow> bool go" where
  "firstIsUpper reason =
     (case reason of [] \<Rightarrow> Panic ''index out of range [0] with length 0''
      | c # _ \<Rightarrow> Ret (unicode_IsUpper_byte c))"

text \<open>
  The validation library gets the custom check and the tagged fields of the struct; the value
  tells whether it returned no error.
\<close>

type_synonym validator = "(string \<Rightarrow> bool go) \<Rightarrow> (string list \<times> string) list \<Rightarrow> bool go"

definition Event_fields :: "Event \<Rightarrow> (string list \<times> string) list" where
  "Event_fields e = [([''required'', ''first_char_must_be_uppercase''], Reason e), ([''required''], Message e)]"

definition Event_Validate :: "validator \<Rightarrow> Event \<Rightarrow> bool go" where
  "Event_Validate validate e = validate firstIsUpper (Event_fields e)"

text \<open>
  What the library documents for these tags: the tags of a field are checked in order up to the
  first that fails, \<open>required\<close> fails on an empty string, and every field is checked.
\<close>

fun check_tags :: "(string \<Rightarrow> bool go) \<Rightarrow> string list \<Rightarrow> string \<Rightarrow> bool go" where
  "check_tags custom [] v = Ret True"
| "check_tags custom (t # ts) v =
     (if t = ''required'' then (if v = [] then Ret False else check_tags custom ts v)
      else go_bind (custom v) (\<lambda>b. if b then check_tags custom ts v else Ret False))"

fun check_fields :: "(string \<Rightarrow> bool go) \<Rightarrow> (string list \<times> string) list \<Rightarrow> bool go" where
  "check_fields custom [] = Ret True"
| "check_fields custom ((ts, v) # fs) =
     go_bind (check_tags custom ts v) (\<lambda>b. go_bind (check_fields custom fs) (\<lambda>b'. Ret (b \<and> b')))"

definition validator_law :: "validator \<Rightarrow> bool" where
  "validator_law validate \<longleftrightarrow> (\<forall>custom fields. validate custom fields = check_fields custom fields)"

section \<open>postserver-event.go\<close>

definition eventActionNotAvailable :: string where "eventActionNotAvailable = ''n/a''"

text \<open>A call of the event recorder: pod, type, reason, action, message and arguments.\<close>

record recorded_event =
  re_pod :: Pod
  re_type :: string
  re_reason :: string
  re_action :: string
  re_note :: string
  re_args :: "string list"

text \<open>\<open>Event.args\<close>: the arguments, one after the other, as values of any type.\<close>

definition Event_args :: "Event \<Rightarrow> string list" where
  "Event_args e = fold (\<lambda>a args. args @ [a]) (Args e) []"

lemma Event_args_eq [simp]: "Event_args e = Args e"
proof -
  have "fold (\<lambda>a args. args @ [a]) xs ys = ys @ xs" for xs ys :: "string list"
    by (induction xs arbitrary: ys) simp_all
  then show ?thesis by (simp add: Event_args_def)
qed

definition postEventCallback ::
  "(string \<times> string \<Rightarrow> err + Pod) \<Rightarrow> Config \<Rightarrow> string \<Rightarrow> Event \<Rightarrow> recorded_event list \<Rightarrow>
   recorded_event list \<times> http_status option" where
  "postEventCallback get cfg podName event rec =
     (case get (Namespace cfg, podName) of
        Inl e \<Rightarrow> (rec, Some StatusNotFound)
      | Inr pod \<Rightarrow>
          let action = (if Action event = [] then eventActionNotAvailable else Action event)
          in (rec @ [\<lparr>re_pod = pod, re_type = Event_Type event, re_reason = Reason event, re_action = action,
                      re_note = Message event, re_args = (if Args event \<noteq> [] then Event_args event else [])\<rparr>], None))"

text \<open>A nil event (the body \<open>null\<close>) is rejected by the validation library.\<close>

definition processPostedEvent ::
  "(string \<Rightarrow> string + json) \<Rightarrow> validator \<Rightarrow> Config \<Rightarrow> string \<Rightarrow> string \<Rightarrow> err + string \<Rightarrow>
   (string \<Rightarrow> Event \<Rightarrow> 's \<Rightarrow> 's \<times> http_status option) \<Rightarrow> 's \<Rightarrow> ('s \<times> http_status) go" where
  "processPostedEvent parse validate cfg node executionID body callback s =
     (case body of
        Inl e \<Rightarrow> Ret (s, StatusBadRequest)
      | Inr b \<Rightarrow>
          (case parse b of
             Inl e \<Rightarrow> Ret (s, StatusBadRequest)
           | Inr v \<Rightarrow>
               (case dec_Event v of
                  None \<Rightarrow> Ret (s, StatusBadRequest)
                | Some None \<Rightarrow> Ret (s, StatusBadRequest)
                | Some (Some event) \<Rightarrow>
                    go_bind (Event_Validate validate event) (\<lambda>ok.
                      if \<not> ok then Ret (s, StatusBadRequest)
                      else (case callback (PodName cfg node executionID) event s of
                              (s', Some code) \<Rightarrow> Ret (s', code)
                            | (s', None) \<Rightarrow> Ret (s', StatusOK))))))"

definition postEvent ::
  "(string \<Rightarrow> string + json) \<Rightarrow> validator \<Rightarrow> (string \<times> string \<Rightarrow> err + Pod) \<Rightarrow> Config \<Rightarrow> string \<Rightarrow> string \<Rightarrow>
   err + string \<Rightarrow> recorded_event list \<Rightarrow> (recorded_event list \<times> http_status) go" where
  "postEvent parse validate get cfg node executionID body =
     processPostedEvent parse validate cfg node executionID body (postEventCallback get cfg)"

section \<open>postserver-file.go\<close>

record mime =
  mm_ParseMediaType :: "string \<Rightarrow> string \<times> (string \<rightharpoonup> string)"
  mm_ExtensionsByType :: "string \<Rightarrow> string list"

text \<open>
  A request: the multipart form, if it is one, as the uploaded files in the order in which the
  map of the form is iterated, with the names their parts give (\<open>mime/multipart\<close> keeps the last path component of a name), the body, the query
  parameter \<open>name\<close> and the two headers (\<open>""\<close> where they are missing).
\<close>

record file_request =
  rq_form :: "(string \<times> string) list option"
  rq_body :: "err + string"
  rq_name :: string
  rq_ContentDisposition :: string
  rq_ContentType :: string

definition part_FileName :: "string \<Rightarrow> string" where
  "part_FileName n = (if n = [] then [] else filepath_Base n)"

definition evaluateExtension :: "mime \<Rightarrow> string \<Rightarrow> string" where
  "evaluateExtension mm ct =
     (if fst (mm_ParseMediaType mm ct) = ''text/plain'' then ''.txt''
      else (case mm_ExtensionsByType mm ct of e # _ \<Rightarrow> e | [] \<Rightarrow> ''.file''))"

definition upload_name :: "string \<Rightarrow> string \<Rightarrow> string" where
  "upload_name node name = node @ ''-'' @ name"

definition saveFormFilesCallback ::
  "(fs \<Rightarrow> string \<Rightarrow> string \<Rightarrow> (os_error + unit) \<times> fs) \<Rightarrow> instant \<Rightarrow> Config \<Rightarrow> string \<Rightarrow> string \<Rightarrow> string \<Rightarrow> string \<Rightarrow>
   fs \<Rightarrow> fs \<times> http_status option" where
  "saveFormFilesCallback saveUploadedFile t cfg executionID node fileName data s =
     (case MkReportDir t cfg s executionID of
        (Inl e, s') \<Rightarrow> (s', Some StatusInternalServerError)
      | (Inr _, s') \<Rightarrow>
          (case saveUploadedFile s' (ReportFileName cfg executionID (upload_name node fileName)) data of
             (Inl e, s'') \<Rightarrow> (s'', Some StatusInternalServerError)
           | (Inr _, s'') \<Rightarrow> (s'', None)))"

definition saveBodyFileCallback ::
  "instant \<Rightarrow> Config \<Rightarrow> string \<Rightarrow> string \<Rightarrow> string \<Rightarrow> string \<Rightarrow> fs \<Rightarrow> fs \<times> http_status option" where
  "saveBodyFileCallback t cfg executionID node fileName body s =
     (case SaveFile t cfg s executionID (upload_name node fileName) body of
        (_, Inl e, s') \<Rightarrow> (s', Some StatusInternalServerError)
      | (_, Inr _, s') \<Rightarrow> (s', None))"

fun save_form :: "(string \<Rightarrow> string \<Rightarrow> 's \<Rightarrow> 's \<times> http_status option) \<Rightarrow> (string \<times> string) list \<Rightarrow> 's \<Rightarrow> 's \<times> http_status" where
  "save_form ff [] s = (s, StatusOK)"
| "save_form ff ((n, d) # fs) s =
     (case ff (part_FileName n) d s of
        (s', Some code) \<Rightarrow> (s', code)
      | (s', None) \<Rightarrow> save_form ff fs s')"

definition body_file_name :: "mime \<Rightarrow> string \<Rightarrow> file_request \<Rightarrow> string" where
  "body_file_name mm uuid rq =
     (let n1 = rq_name rq;
          n2 = (if n1 = [] then (case snd (mm_ParseMediaType mm (rq_ContentDisposition rq)) ''filename'' of
                  None \<Rightarrow> [] | Some v \<Rightarrow> v) else n1)
      in if n2 = [] then uuid @ evaluateExtension mm (rq_ContentType rq) else n2)"

definition processPostedFiles ::
  "mime \<Rightarrow> string \<Rightarrow> file_request \<Rightarrow> (string \<Rightarrow> string \<Rightarrow> 's \<Rightarrow> 's \<times> http_status option) \<Rightarrow>
   (string \<Rightarrow> string \<Rightarrow> 's \<Rightarrow> 's \<times> http_status option) \<Rightarrow> 's \<Rightarrow> 's \<times> http_status" where
  "processPostedFiles mm uuid rq ffCallback bfCallback s =
     (case rq_form rq of
        Some files \<Rightarrow> save_form ffCallback files s
      | None \<Rightarrow>
          (case rq_body rq of
             Inl e \<Rightarrow> (s, StatusBadRequest)
           | Inr body \<Rightarrow>
               (case bfCallback (body_file_name mm uuid rq) body s of
                  (s', Some code) \<Rightarrow> (s', code)
                | (s', None) \<Rightarrow> (s', StatusOK))))"

definition postFile ::
  "(fs \<Rightarrow> string \<Rightarrow> string \<Rightarrow> (os_error + unit) \<times> fs) \<Rightarrow> mime \<Rightarrow> string \<Rightarrow> instant \<Rightarrow> Config \<Rightarrow>
   string \<Rightarrow> string \<Rightarrow> file_request \<Rightarrow> fs \<Rightarrow> fs \<times> http_status" where
  "postFile saveUploadedFile mm uuid t cfg node executionID rq =
     processPostedFiles mm uuid rq (saveFormFilesCallback saveUploadedFile t cfg executionID node)
       (saveBodyFileCallback t cfg executionID node)"

section \<open>fileserver.go\<close>

definition envHealthCheckTimeout :: string where
  "envHealthCheckTimeout = ''SELF_HEALTH_CHECK_CONNECTION_TIMEOUT''"

text \<open>
  \<open>ParseDuration\<close> returns the duration (0 with an error) and whether there was none; \<open>dial\<close>
  connects to an address within a timeout.
\<close>

definition health_timeout :: "(string \<Rightarrow> int \<times> bool) \<Rightarrow> env \<Rightarrow> int" where
  "health_timeout parseDuration env =
     (let timeout = 200 * 1000000 in
      case env envHealthCheckTimeout of
        None \<Rightarrow> timeout
      | Some to \<Rightarrow> (case parseDuration to of (d, ok) \<Rightarrow> if \<not> ok then d else timeout))"

definition HealthzCheck ::
  "(string \<Rightarrow> int \<times> bool) \<Rightarrow> (int \<Rightarrow> string \<Rightarrow> err option) \<Rightarrow> env \<Rightarrow> int \<Rightarrow> err option" where
  "HealthzCheck parseDuration dial env port =
     dial (health_timeout parseDuration env) (net_JoinHostPort ''127.0.0.1'' (strconv_Itoa port))"

definition Server_Name :: string where "Server_Name = ''file-server''"
definition PostServer_Name :: string where "PostServer_Name = ''api-server''"

section \<open>mock.go\<close>

definition mock_cfg :: Config where "mock_cfg = zero_Config\<lparr>cfg_Name := ''mock''\<rparr>"

definition mock_postResult ::
  "(string \<Rightarrow> string + json) \<Rightarrow> (string \<Rightarrow> bool) \<Rightarrow> err + string \<Rightarrow> (unit \<times> http_status) go" where
  "mock_postResult parse isValidMetricName body =
     processPostResult parse isValidMetricName mock_cfg body (\<lambda>_ _ u. Ret (u, None)) ()"

definition mock_postFile :: "mime \<Rightarrow> string \<Rightarrow> file_request \<Rightarrow> unit \<times> http_status" where
  "mock_postFile mm uuid rq = processPostedFiles mm uuid rq (\<lambda>_ _ u. (u, None)) (\<lambda>_ _ u. (u, None)) ()"

definition mock_postEvent ::
  "(string \<Rightarrow> string + json) \<Rightarrow> validator \<Rightarrow> string \<Rightarrow> string \<Rightarrow> err + string \<Rightarrow> (unit \<times> http_status) go" where
  "mock_postEvent parse validate node executionID body =
     processPostedEvent parse validate mock_cfg node executionID body (\<lambda>_ _ u. (u, None)) ()"

end
