(* ===== verification/Http_Properties.thy ===== *)
theory Http_Properties
  imports Http
begin

text \<open>
  The properties of the callback server: which requests change the state and how they are
  answered, where files are written, which events are recorded, and the health check.
\<close>

section \<open>Saving files\<close>

lemma SaveFile_path:
  assumes "ReportDirectory cfg \<noteq> []" and "plain_name e" and "plain_name n"
  shows "fpath_of (filepath_Clean (ReportFileName cfg e n)) = (fst (report_path cfg e), snd (report_path cfg e) @ [n])"
proof -
  note p = ReportFileName_path [OF assms]
  then have "ReportFileName cfg e n \<noteq> []"
    by (metis Nil_is_append_conv fpath_of_def is_rooted_code(1) list.discI path_comps_def
        prod.inject append_is_Nil_conv clean_comps.simps(1) clean_comps.simps(2) rev.simps(1) strings_Split.simps(1))
  then have "filepath_Clean (ReportFileName cfg e n) = ReportFileName cfg e n" using Clean_ReportFileName by blast
  then show ?thesis using p by (simp add: report_path_def)
qed

lemma SaveFile_writes:
  assumes d: "ReportDirectory cfg \<noteq> []" "plain_name e" "plain_name n" and w: "writable s (report_path cfg e)"
  obtains f s' where "SaveFile t cfg s e n data = (f, Inr (), s')"
    "fpath_of f = (fst (report_path cfg e), snd (report_path cfg e) @ [n])"
    "writable s' (report_path cfg e)"
    "\<exists>i. fs_get s' (fst (report_path cfg e), snd (report_path cfg e) @ [n]) = Some i \<and> i_kind i = File data"
    "\<And>q j. q \<noteq> (fst (report_path cfg e), snd (report_path cfg e) @ [n]) \<Longrightarrow> fs_get s q = Some j \<Longrightarrow>
        \<exists>i. fs_get s' q = Some i \<and> i_kind i = i_kind j"
proof -
  let ?f = "filepath_Clean (ReportFileName cfg e n)"
  have m: "MkReportDir t cfg s e = (Inr (), s)"
    using MkdirAll_existing [of s "filepath_Join [ReportDirectory cfg, e]" t] w MkReportDir_path [OF d(1,2)]
    by (simp add: MkReportDir_def writable_def report_path_def)
  note p = SaveFile_path [OF d]
  note wf = WriteFile_writable [OF w p, of t data]
  have "SaveFile t cfg s e n data = (?f, Inr (), snd (os_WriteFile t s ?f data))"
    using wf(1) by (simp add: SaveFile_def m Let_def) (metis prod.collapse)
  then show thesis
    by (rule that [OF _ p wf(2)]) (use WriteFile_get [OF wf(1)] WriteFile_frame [of _ ?f s _ t data] in \<open>auto simp: p\<close>)
qed

text \<open>A directory to write to: the report directory of the sample configuration.\<close>

definition report_fs :: fs where
  "report_fs = \<lparr>fs_tab = [((True, [''var'']), \<lparr>i_kind = Dir, i_mtime = 1\<rparr>),
     ((True, [''var'', ''www'']), \<lparr>i_kind = Dir, i_mtime = 1\<rparr>),
     ((True, [''var'', ''www'', ''e1'']), \<lparr>i_kind = Dir, i_mtime = 1\<rparr>),
     ((True, [''var'', ''www'', ''e1'', ''old'']), \<lparr>i_kind = File ''o'', i_mtime = 1\<rparr>)], fs_ro = []\<rparr>"

lemma sample_dir [simp]: "ReportDirectory sample_cfg = ''/var/www''"
  by (simp add: sample_cfg_def)

lemma sample_comps: "path_comps ''/var/www'' = [''var'', ''www'']" "is_rooted ''/var/www''"
  by code_simp+

lemma report_fs_writable: "writable report_fs (report_path sample_cfg ''e1'')"
  by (auto simp: writable_def report_fs_def report_path_def sample_comps is_dir_def fs_get_def)


definition sample_mime :: mime where
  "sample_mime = \<lparr>mm_ParseMediaType = (\<lambda>s. (s, Map.empty)), mm_ExtensionsByType = (\<lambda>_. [])\<rparr>"

definition sample_upload :: "string \<Rightarrow> file_request" where
  "sample_upload n = \<lparr>rq_form = None, rq_body = Inr ''data'', rq_name = n, rq_ContentDisposition = [], rq_ContentType = []\<rparr>"

lemma sample_upload_name [simp]: "n \<noteq> [] \<Longrightarrow> body_file_name mm u (sample_upload n) = n"
  by (simp add: body_file_name_def sample_upload_def)


definition dotdots :: "nat \<Rightarrow> string" where
  "dotdots k = concat (replicate k ''/..'')"

lemma Split_dotdots: "strings_Split CHR ''/'' (dotdots k @ ''/'' @ x) = [] # replicate k ''..'' @ strings_Split CHR ''/'' x"
  by (induction k) (simp_all add: dotdots_def)

lemma clean_pop:
  "length k = n \<Longrightarrow> \<forall>c \<in> set k. c \<noteq> ''..'' \<Longrightarrow> clean_comps r k (replicate n ''..'' @ cs) = clean_comps r [] cs"
proof (induction n arbitrary: k)
  case 0
  then show ?case by simp
next
  case (Suc n)
  then obtain a k' where k: "k = a # k'" by (cases k) auto
  with Suc show ?case by simp
qed

lemma Split_upload:
  assumes "CHR ''/'' \<notin> set node" and "0 < k"
  shows "strings_Split CHR ''/'' (upload_name node (dotdots k @ ''/'' @ x)) =
    (node @ ''-'') # replicate k ''..'' @ strings_Split CHR ''/'' x"
proof -
  obtain m where k: "k = Suc m" using assms(2) by (cases k) auto
  let ?r = "''..'' @ dotdots m @ ''/'' @ x"
  have "strings_Split CHR ''/'' (CHR ''/'' # ?r) = [] # replicate k ''..'' @ strings_Split CHR ''/'' x"
    using Split_dotdots [of k x] by (simp add: k dotdots_def)
  then have r: "strings_Split CHR ''/'' ?r = replicate k ''..'' @ strings_Split CHR ''/'' x" by simp
  have u: "upload_name node (dotdots k @ ''/'' @ x) = (node @ ''-'') @ CHR ''/'' # ?r"
    by (simp add: k upload_name_def dotdots_def)
  have "CHR ''/'' \<notin> set (node @ ''-'')" using assms(1) by simp
  from strings_Split_sep [OF this, of ?r] show ?thesis unfolding u r .
qed

text \<open>
  C39. Path traversal. The name of an uploaded file is not confined: with the query parameter
  \<open>name=/../../..(...)/x\<close>, enough \<open>..\<close> for the report directory, the file is written at the root
  of the file system, although the code calls \<open>filepath.Clean\<close> to sanitise the path.
\<close>

theorem upload_escapes:
  assumes "is_rooted (ReportDirectory cfg)" and "plain_name e" and "plain_name x" and "CHR ''/'' \<notin> set node"
    and "k = length (path_comps (ReportDirectory cfg)) + 2"
    and "SaveFile t cfg s e (upload_name node (dotdots k @ ''/'' @ x)) data = (f, Inr (), s')"
  shows "\<exists>i. fs_get s' (True, [x]) = Some i \<and> i_kind i = File data"
proof -
  let ?D = "ReportDirectory cfg" and ?n = "upload_name node (dotdots k @ ''/'' @ x)"
  have ne: "?D \<noteq> []" using assms(1) by auto
  have xs: "strings_Split CHR ''/'' x = [x]" using assms(3) by (simp add: plain_name_def strings_Split_id)
  have nd: "strings_Split CHR ''/'' ?n = (node @ ''-'') # replicate k ''..'' @ [x]"
  proof -
    have "0 < k" using assms(5) by simp
    from Split_upload [OF assms(4) this, of x] show ?thesis unfolding xs .
  qed
  have es: "strings_Split CHR ''/'' e = [e]" using assms(2) by (simp add: plain_name_def strings_Split_id)
  have j: "strings_Split CHR ''/'' (join_with ''/'' [?D, e, ?n]) =
      strings_Split CHR ''/'' ?D @ [e] @ (node @ ''-'') # replicate k ''..'' @ [x]"
    by (subst strings_Split_join) (use nd in \<open>simp_all add: es\<close>)
  have en: "plain_name (node @ ''-'')" using assms(4)
    by (auto simp: plain_name_def append_eq_Cons_conv)
  have pc: "\<forall>c \<in> set (path_comps ?D). c \<noteq> ''..''"
    using cleaned_path_comps [of ?D] assms(1) by (auto simp: cleaned_def plain_name_def)
  have "clean_comps True [] (strings_Split CHR ''/'' ?D @ [e] @ (node @ ''-'') # replicate k ''..'' @ [x])
      = clean_comps True (rev (path_comps ?D)) ([e, node @ ''-''] @ replicate k ''..'' @ [x])"
    by (subst clean_comps_app) (use assms(1) in \<open>simp add: path_comps_def\<close>)
  also have "\<dots> = clean_comps True ((node @ ''-'') # e # rev (path_comps ?D)) (replicate k ''..'' @ [x])"
    using assms(2) en by (simp add: plain_name_def)
  also have "\<dots> = clean_comps True [] [x]"
    by (rule clean_pop) (use pc assms(2,5) en in \<open>auto simp: plain_name_def\<close>)
  also have "\<dots> = [x]" using assms(3) by (simp add: plain_name_def)
  finally have c: "path_comps (join_with ''/'' [?D, e, ?n]) = [x]"
    using j assms(1) ne by (simp add: path_comps_def is_rooted_join_with del: join_with.simps)
  have R: "ReportFileName cfg e ?n = render_path True [x]"
    using ne c assms(1) unfolding ReportFileName_def filepath_Join_def filepath_Clean_def
    by (simp add: is_rooted_join_with Let_def del: join_with.simps)
  have "filepath_Clean (render_path True [x]) = render_path True [x]"
    using assms(3) by (simp add: filepath_Clean_def render_path_roundtrip cleanedI)
  moreover have "fpath_of (render_path True [x]) = (True, [x])"
    using assms(3) by (simp add: fpath_of_def render_path_roundtrip cleanedI)
  ultimately have p: "fpath_of (filepath_Clean (ReportFileName cfg e ?n)) = (True, [x])" unfolding R by simp
  obtain s1 where "os_WriteFile t s1 (filepath_Clean (ReportFileName cfg e ?n)) data = (Inr (), s')"
    using assms(6) by (auto simp: SaveFile_def Let_def split: prod.splits sum.splits)
  with WriteFile_get [of t s1 "filepath_Clean (ReportFileName cfg e ?n)" data] show ?thesis unfolding p by simp
qed

theorem upload_escapes_witness:
  "\<exists>f s'. SaveFile 5 sample_cfg report_fs ''e1'' (upload_name ''n1'' (dotdots 4 @ ''/'' @ ''passwd'')) ''x'' = (f, Inr (), s')
    \<and> (\<exists>i. fs_get s' (True, [''passwd'']) = Some i \<and> i_kind i = File ''x'')"
proof -
  let ?r = "SaveFile 5 sample_cfg report_fs ''e1'' (upload_name ''n1'' (dotdots 4 @ ''/'' @ ''passwd'')) ''x''"
  have "fst (snd ?r) = Inr ()" unfolding sample_cfg_def by code_simp
  then have r: "?r = (fst ?r, Inr (), snd (snd ?r))" by (metis prod.collapse)
  have p: "plain_name ''e1''" "plain_name ''passwd''" "CHR ''/'' \<notin> set ''n1''" by (simp_all add: plain_name_def)
  have k: "4 = length (path_comps (ReportDirectory sample_cfg)) + 2" by (simp add: sample_comps)
  have d: "is_rooted (ReportDirectory sample_cfg)" by (simp add: sample_comps)
  show ?thesis using r upload_escapes [OF d p k r] by blast
qed

end
