(* ===== verification/Reconciler_Properties.thy ===== *)
theory Reconciler_Properties
  imports Http_Properties
begin

text \<open>
  The properties of \<open>pkg/controller\<close> for the controller of \<open>Lifecycle\<close>: when a
  reconciliation fails, that it can be repeated, and what it stores.
\<close>

definition sample_pod :: "string \<Rightarrow> Pod" where
  "sample_pod ph = zero_Pod\<lparr>pd_Name := ''ctl-job-n1-e1'', pd_Namespace := ''ns'', pd_NodeName := ''n1'',
     pd_Labels := Some [LabelExecutionID \<mapsto> ''e1'', LabelOwner \<mapsto> ''ctl''], pd_Phase := ph,
     pd_Containers := [\<lparr>cn_Name = ''main'', cn_Env = [], cn_rest = []\<rparr>]\<rparr>"

definition sample_api :: pod_api where
  "sample_api = \<lparr>pa_Get = (\<lambda>k. if k = (''ns'', ''failed'') then Inr (sample_pod PodFailed)
       else if k = (''ns'', ''gone'') then Inl ApiNotFound else Inl (OtherErr ''timeout'')),
     pa_Stream = (\<lambda>ns p c. if c = ''main'' then Inr (''log line'', None) else Inl ApiNotFound)\<rparr>"

lemma sample_pod_simps [simp]:
  "label_of (sample_pod ph) LabelExecutionID = ''e1''" "pd_NodeName (sample_pod ph) = ''n1''" "pd_Phase (sample_pod ph) = ph"
  "label_of (sample_pod ph) LabelOwner = ''ctl''" "pd_Containers (sample_pod ph) = [\<lparr>cn_Name = ''main'', cn_Env = [], cn_rest = []\<rparr>]"
  by (simp_all add: sample_pod_def label_of_def LabelExecutionID_def LabelOwner_def zero_Pod_def)

abbreviation reconcile where
  "reconcile gv \<equiv> Reconcile ctl_config Has (PodTerminated gv)"

lemma reconcile_returns:
  assumes "pa_Get api req = Inr pod"
    and "PodTerminated gv t c (label_of pod LabelExecutionID) (pd_NodeName pod) (pd_Phase pod) = Ret (c1, x)"
  shows "\<exists>c' s' r. reconcile gv api t c s req = Ret (c', s', r)"
  using assms by (cases x) (auto simp: Reconcile_def Let_def)

lemma reconcile_sample:
  "\<exists>c'. reconcile map_gauge_vec sample_api t (started_controller sample_cfg) s (''ns'', ''failed'') = Ret (c', s, None)
     \<and> PodTerminated map_gauge_vec t (started_controller sample_cfg) ''e1'' ''n1'' PodFailed = Ret (c', None)"
proof -
  let ?c = "started_controller sample_cfg"
  obtain c' r where r: "PodTerminated map_gauge_vec t ?c ''e1'' ''n1'' PodFailed = Ret (c', r)"
    using started_returns by blast
  have nt: "terminated (heap_pod ?c ! 0) = None" by (simp add: started_controller_def)
  have n: "r = None" using PodTerminated_first(1) [OF _ started_podForID nt r] sample_col_ok by simp
  have "\<not> SavePodLog (ctl_config ?c)"
    by (simp add: started_controller_def sample_controller_def NewController_def sample_cfg_def zero_Config_def)
  with r n show ?thesis by (simp add: Reconcile_def sample_api_def)
qed

text \<open>
  Errors of a reconciliation. The only error it returns, which makes the manager try again,
  is an error of the API server other than not-found, and then nothing has changed: a pod
  that is gone and an execution that is unknown count as done.
\<close>

theorem reconcile_errors:
  assumes "reconcile gv api t c s req = Ret (c', s', Some e)"
  shows "pa_Get api req = Inl e \<and> e \<noteq> ApiNotFound \<and> c' = c \<and> s' = s"
  by (rule ps.reconcile_error [OF assms])

theorem reconcile_errors_witness:
  "reconcile map_gauge_vec sample_api 9 (started_controller sample_cfg) report_fs (''ns'', ''x'') =
     Ret (started_controller sample_cfg, report_fs, Some (OtherErr ''timeout''))
   \<and> pa_Get sample_api (''ns'', ''x'') = Inl (OtherErr ''timeout'')"
proof -
  have r: "reconcile map_gauge_vec sample_api 9 (started_controller sample_cfg) report_fs (''ns'', ''x'') =
     Ret (started_controller sample_cfg, report_fs, Some (OtherErr ''timeout''))"
    by (simp add: Reconcile_def sample_api_def)
  with reconcile_errors [OF r] show ?thesis by simp
qed

text \<open>
  Reconciling is idempotent: the same request reconciled again, at any later time and while
  the API server says the same, ends with the same controller state and the same result.
\<close>

theorem reconcile_idempotent:
  assumes "heap_ok c" and "reconcile gv api t c s req = Ret (c', s', r)"
  shows "\<exists>s''. reconcile gv api t' c' s' req = Ret (c', s'', r)"
  by (rule ps.reconcile_again [OF assms])

theorem reconcile_idempotent_witness:
  "\<exists>c' s''. reconcile map_gauge_vec sample_api 8 (started_controller sample_cfg) report_fs (''ns'', ''failed'') = Ret (c', report_fs, None)
     \<and> reconcile map_gauge_vec sample_api 9 c' report_fs (''ns'', ''failed'') = Ret (c', s'', None)"
proof -
  obtain c' where r: "reconcile map_gauge_vec sample_api 8 (started_controller sample_cfg) report_fs (''ns'', ''failed'') = Ret (c', report_fs, None)"
    using reconcile_sample by blast
  from reconcile_idempotent [OF started_controller_ok r, of 9] r show ?thesis by blast
qed


definition logging_controller :: "((string \<times> string \<times> string list) \<times> (string list \<rightharpoonup> float64)) controller" where
  "logging_controller = (started_controller sample_cfg)\<lparr>ctl_config := sample_cfg\<lparr>SavePodLog := True\<rparr>\<rparr>"


end
