(* ===== verification/Callback_Properties.thy ===== *)
theory Callback_Properties
  imports Http_Properties
begin

text \<open>
  The answers of the callback server: what a request must be for its result or event to be
  recorded, what it leaves alone otherwise, and the names of uploaded form files.
\<close>

section \<open>Results\<close>

lemma processPostResult_Ret:
  "processPostResult parse valid cfg body cb s = Ret (s', code) \<longleftrightarrow>
     (\<exists>b v rs s'' st. body = Inr b \<and> parse b = Inr v \<and> dec_Results v = Some (Some rs) \<and> Validate valid rs cfg = None
        \<and> cb rs b s = Ret (s'', st) \<and> s' = s'' \<and> code = (case st of None \<Rightarrow> StatusOK | Some c \<Rightarrow> c))
   \<or> s' = s \<and> code = StatusBadRequest
     \<and> ((\<exists>e. body = Inl e) \<or> (\<exists>b. body = Inr b \<and> ((\<exists>e. parse b = Inl e) \<or> (\<exists>v. parse b = Inr v \<and>
          (dec_Results v = None \<or> (\<exists>rs. dec_Results v = Some (Some rs) \<and> Validate valid rs cfg \<noteq> None))))))"
proof (cases body)
  case (Inl e)
  then show ?thesis by (auto simp: processPostResult_def)
next
  case (Inr b)
  show ?thesis
  proof (cases "parse b")
    case (Inl e)
    with Inr show ?thesis by (auto simp: processPostResult_def)
  next
    case v: (Inr v)
    show ?thesis
    proof (cases "dec_Results v")
      case None
      with Inr v show ?thesis by (auto simp: processPostResult_def)
    next
      case (Some r)
      with Inr v show ?thesis by (cases r) (auto simp: processPostResult_def)
    qed
  qed
qed

lemma Validate_None:
  "Validate valid rs cfg = None \<longleftrightarrow> rs \<noteq> [] \<and> (\<forall>(k, rr) \<in> set rs. valid (NameFor (cfg_Metrics cfg) k))"
proof -
  have "invalid_name valid cfg rs = None \<longleftrightarrow> (\<forall>(k, rr) \<in> set rs. valid (NameFor (cfg_Metrics cfg) k))"
    by (induction rs) (auto split: if_split_asm)
  then show ?thesis by (auto simp: Validate_def)
qed

lemma postResult_cases:
  assumes "postResult rr parse valid t cfg node eid body (c, s) = Ret ((c', s'), code)"
  obtains (rejected) "c' = c" "s' = s" "code = StatusBadRequest"
  | (unsaved) b v rs f e where "body = Inr b" "parse b = Inr v" "dec_Results v = Some (Some rs)"
      "Validate valid rs cfg = None" "SaveFile t cfg s eid (node @ ''.json'') b = (f, Inl e, s')"
      "c' = c" "code = StatusInternalServerError"
  | (saved) b v rs f where "body = Inr b" "parse b = Inr v" "dec_Results v = Some (Some rs)"
      "Validate valid rs cfg = None" "SaveFile t cfg s eid (node @ ''.json'') b = (f, Inr (), s')"
      "rr t c eid node False rs = Ret c'" "code = StatusOK"
  using assms unfolding postResult_def processPostResult_Ret
  by (elim disjE exE conjE) (auto simp: postResultCallback_def split: prod.splits sum.splits)

lemma status_distinct [simp]:
  "StatusOK \<noteq> StatusBadRequest" "StatusOK \<noteq> StatusInternalServerError" "StatusOK \<noteq> StatusNotFound"
  "StatusBadRequest \<noteq> StatusOK" "StatusInternalServerError \<noteq> StatusOK" "StatusNotFound \<noteq> StatusOK"
  "StatusOK \<noteq> StatusNotAcceptable" "StatusNotAcceptable \<noteq> StatusOK" "StatusNotAcceptable \<noteq> StatusInternalServerError"
  "StatusNotAcceptable \<noteq> StatusBadRequest" "StatusNotAcceptable \<noteq> StatusNotFound"
  by (simp_all add: StatusOK_def StatusBadRequest_def StatusInternalServerError_def StatusNotFound_def StatusNotAcceptable_def)


definition sample_body :: json where
  "sample_body = JObj [(''unconfigured'', JArr [JObj [(''value'', JNum (Fin 4))]])]"

lemma sample_body_dec: "dec_Results sample_body = Some (Some [(''unconfigured'', [\<lparr>Value = Fin 4, res_Labels = []\<rparr>])])"
proof -
  have "map ascii_lower ''value'' = ''value''" by code_simp
  then show ?thesis by (simp add: sample_body_def Result_field_def zero_Result_def json_field_def)
qed

definition sample_parse :: "string \<Rightarrow> string + json" where
  "sample_parse b = (if b = ''null'' then Inr JNull else if b = ''ok'' then Inr sample_body else Inl ''invalid'')"

lemma record_results_unknown:
  "\<forall>(k, rr) \<in> set rs. map_of (gauges pr) k = None \<Longrightarrow> record_results gv e n rs pr = Ret pr"
proof (induction gv e n rs pr rule: record_results.induct)
  case (3 gv e n k r rr rs pr)
  then show ?case by (simp add: MetricFor_unknown)
qed auto

lemma ReportReceived_unknown:
  "\<forall>(k, rr) \<in> set rs. map_of (gauges (prom c)) k = None \<Longrightarrow>
   ReportReceived gv t c e n b rs = ReportReceived gv t c e n b []"
  by (simp add: ReportReceived_def record_results_unknown)

lemma started_report:
  "\<exists>c'. ReportReceived map_gauge_vec t (started_controller sample_cfg) ''e1'' ''n1'' b
     [(''unconfigured'', [\<lparr>Value = Fin 4, res_Labels = []\<rparr>])] = Ret c'"
proof -
  have "map fst (gauges (sample_collector sample_cfg)) = [''test'']"
    using new_gauges_keys [OF NewPromCollector_fields(1) [OF sample_new(1)]] by (simp add: sample_cfg_def)
  then have "fst ` set (gauges (sample_collector sample_cfg)) = {''test''}" by (metis empty_set list.set_map list.simps(15))
  then have "''unconfigured'' \<notin> fst ` set (gauges (sample_collector sample_cfg))" by simp
  then have "map_of (gauges (sample_collector sample_cfg)) ''unconfigured'' = None" by (simp add: map_of_eq_None_iff)
  then show ?thesis
    using ReportReceived_unknown [of "[(''unconfigured'', [\<lparr>Value = Fin 4, res_Labels = []\<rparr>])]" "started_controller sample_cfg"]
      ReportReceived_returns [of map_gauge_vec "started_controller sample_cfg" "''n1''" "''e1''" t b]
      sample_col_wf by (auto simp: list_all_iff)
qed

lemma sample_save: "\<exists>f s'. SaveFile t sample_cfg report_fs ''e1'' (''n1'' @ ''.json'') b = (f, Inr (), s')"
proof -
  have p: "plain_name ''e1''" "plain_name ''n1.json''" by (simp_all add: plain_name_def)
  show ?thesis
    by (rule SaveFile_writes [OF _ p report_fs_writable, of t b]) auto
qed


text \<open>
  C26. What a request for a result cannot do. Behind the middleware every request is answered
  with 200, 400, 406 or 500. 406 is the answer exactly for a node or execution that is not known, outside development mode;
  with 406 or 400 nothing has changed; 500 is a file that could not be stored, with the
  controller as it was, or a panic of the handler.
\<close>

theorem postResult_safe:
  "case endpoint Has cfg (postResult (ReportReceived gv) parse valid t cfg node eid body) (c, s) node eid of (out, code) \<Rightarrow>
     code \<in> {StatusOK, StatusBadRequest, StatusNotAcceptable, StatusInternalServerError}
     \<and> (code = StatusNotAcceptable \<longleftrightarrow> \<not> DevMode cfg \<and> (nodes c node = None \<or> executions c eid = None))
     \<and> (code \<in> {StatusNotAcceptable, StatusBadRequest} \<longrightarrow> out = Some (c, s))
     \<and> (code = StatusInternalServerError \<longrightarrow> out = None \<or> (\<exists>s'. out = Some (c, s')))"
proof (cases "DevMode cfg \<or> Has c node eid")
  case False
  then show ?thesis
    by (auto simp: endpoint_def middleware_def Has_def StatusNotAcceptable_def StatusInternalServerError_def)
next
  case True
  then have na: "\<not> (\<not> DevMode cfg \<and> (nodes c node = None \<or> executions c eid = None))" by (auto simp: Has_def)
  let ?r = "postResult (ReportReceived gv) parse valid t cfg node eid body (c, s)"
  have e: "endpoint Has cfg (postResult (ReportReceived gv) parse valid t cfg node eid body) (c, s) node eid = recovered ?r"
    using True by (auto simp: endpoint_def middleware_def)
  show ?thesis
  proof (cases ?r)
    case (Panic m)
    then show ?thesis using na unfolding e by (simp add: recovered_def)
      (simp add: StatusInternalServerError_def StatusNotAcceptable_def StatusBadRequest_def)
  next
    case (Ret x)
    then obtain c' s' code where r: "?r = Ret ((c', s'), code)" by (cases x; cases "fst x") auto
    show ?thesis unfolding e r using na
      by (cases rule: postResult_cases [OF r])
        (auto simp: recovered_def StatusInternalServerError_def StatusNotAcceptable_def StatusBadRequest_def StatusOK_def)
  qed
qed

theorem postResult_safe_witness:
  "snd (endpoint Has sample_cfg (postResult (ReportReceived map_gauge_vec) sample_parse (\<lambda>_. True) 9 sample_cfg ''n9'' ''e1'' (Inr ''ok''))
     (started_controller sample_cfg, report_fs) ''n9'' ''e1'') = StatusNotAcceptable"
proof -
  have "\<not> DevMode sample_cfg" "nodes (started_controller sample_cfg) ''n9'' = None"
    by (simp_all add: sample_cfg_def zero_Config_def started_controller_def)
  then show ?thesis
    using postResult_safe [where cfg = sample_cfg and gv = map_gauge_vec and parse = sample_parse and valid = "\<lambda>_. True" and t = 9
      and node = "''n9''" and eid = "''e1''" and body = "Inr ''ok''" and c = "started_controller sample_cfg" and s = report_fs] by (auto split: prod.splits)
qed

text \<open>
  The body \<open>null\<close>. It decodes to a nil pointer, which \<open>Validate\<close> dereferences: the request
  panics and is answered with 500 by the recovery handler, not with 400 as any other body
  that is no result.
\<close>

theorem postResult_null:
  assumes "Has c node eid" and "parse b = Inr JNull"
  shows "endpoint Has cfg (postResult rr parse valid t cfg node eid (Inr b)) (c, s) node eid
    = (None, StatusInternalServerError)"
  using assms by (simp add: endpoint_def middleware_def postResult_def processPostResult_def recovered_def)

theorem postResult_null_witness:
  "endpoint Has sample_cfg (postResult (ReportReceived map_gauge_vec) sample_parse (\<lambda>_. True) 9 sample_cfg ''n1'' ''e1'' (Inr ''null''))
     (started_controller sample_cfg, report_fs) ''n1'' ''e1'' = (None, StatusInternalServerError)"
  by (rule postResult_null) (simp_all add: Has_def started_controller_def sample_parse_def)

section \<open>Events\<close>

text \<open>
  Event validation. With the validation library as documented, an event is valid exactly
  if it has a message and a reason whose first byte, read as a code point, is an upper-case
  letter; the check never panics, since \<open>required\<close> is checked before the first byte is read.
\<close>

theorem event_valid:
  assumes "validator_law validate"
  shows "Event_Validate validate e = Ret (Message e \<noteq> [] \<and> Reason e \<noteq> [] \<and> unicode_IsUpper_byte (hd (Reason e)))"
  using assms
  by (cases "Reason e") (auto simp: Event_Validate_def Event_fields_def validator_law_def firstIsUpper_def)

theorem event_valid_witness:
  "Event_Validate check_fields \<lparr>Waring = True, Action = [], Reason = ''TestReason'', Message = ''m'', Args = []\<rparr> = Ret True
   \<and> Event_Validate check_fields \<lparr>Waring = True, Action = [], Reason = ''testReason'', Message = ''m'', Args = []\<rparr> = Ret False
   \<and> Event_Validate check_fields \<lparr>Waring = True, Action = [], Reason = [], Message = ''m'', Args = []\<rparr> = Ret False"
proof -
  have v: "validator_law check_fields" by (simp add: validator_law_def)
  show ?thesis unfolding event_valid [OF v] by (simp add: unicode_IsUpper_byte_def)
qed

text \<open>What a posted body says, if it is an acceptable event.\<close>

definition event_ok :: "Event \<Rightarrow> bool" where
  "event_ok e \<longleftrightarrow> Message e \<noteq> [] \<and> Reason e \<noteq> [] \<and> unicode_IsUpper_byte (hd (Reason e))"

definition posted_event :: "(string \<Rightarrow> string + json) \<Rightarrow> err + string \<Rightarrow> Event option" where
  "posted_event parse body =
     (case body of
        Inl _ \<Rightarrow> None
      | Inr b \<Rightarrow> (case parse b of
          Inl _ \<Rightarrow> None
        | Inr v \<Rightarrow> (case dec_Event v of Some (Some e) \<Rightarrow> if event_ok e then Some e else None | _ \<Rightarrow> None)))"

lemma Event_Validate_law: "validator_law validate \<Longrightarrow> Event_Validate validate e = Ret (event_ok e)"
  by (cases "Reason e") (auto simp: Event_Validate_def Event_fields_def validator_law_def firstIsUpper_def event_ok_def)

lemma postEvent_law:
  assumes "validator_law validate"
  shows "postEvent parse validate get cfg node eid body rec =
    Ret (case posted_event parse body of
           None \<Rightarrow> (rec, StatusBadRequest)
         | Some e \<Rightarrow>
             (case get (Namespace cfg, PodName cfg node eid) of
                Inl _ \<Rightarrow> (rec, StatusNotFound)
              | Inr pod \<Rightarrow>
                  (rec @ [\<lparr>re_pod = pod, re_type = (if Waring e then ''Warning'' else ''Normal''), re_reason = Reason e,
                           re_action = (if Action e = [] then ''n/a'' else Action e), re_note = Message e, re_args = Args e\<rparr>],
                   StatusOK)))"
  using Event_Validate_law [OF assms]
  by (auto simp: postEvent_def processPostedEvent_def posted_event_def postEventCallback_def Event_Type_def
      EventTypeWarning_def EventTypeNormal_def eventActionNotAvailable_def Let_def
      split: sum.splits option.splits)

text \<open>
  C25. Posted events. The handler never panics and does exactly this: a body that is no valid
  event is answered with 400; an event for which the pod of the node and execution is not found
  with 404; otherwise one event is recorded on that pod, with type \<open>Warning\<close> or \<open>Normal\<close>, the
  action \<open>n/a\<close> if none is given, and 200 is answered. Nothing is recorded in the other cases.
\<close>

theorem postEvent_spec:
  assumes "validator_law validate"
  shows "postEvent parse validate get cfg node eid body rec =
    Ret (case posted_event parse body of
           None \<Rightarrow> (rec, StatusBadRequest)
         | Some e \<Rightarrow>
             (case get (Namespace cfg, PodName cfg node eid) of
                Inl _ \<Rightarrow> (rec, StatusNotFound)
              | Inr pod \<Rightarrow>
                  (rec @ [\<lparr>re_pod = pod, re_type = (if Waring e then ''Warning'' else ''Normal''), re_reason = Reason e,
                           re_action = (if Action e = [] then ''n/a'' else Action e), re_note = Message e, re_args = Args e\<rparr>],
                   StatusOK)))"
  by (rule postEvent_law [OF assms])

definition sample_event :: Event where
  "sample_event = \<lparr>Waring = True, Action = [], Reason = ''TestReason'', Message = ''test message'', Args = []\<rparr>"

theorem postEvent_spec_witness:
  "postEvent (\<lambda>_. Inr (enc_Event sample_event)) check_fields (\<lambda>k. if k = (''ns'', ''ctl-job-n1-e1'') then Inr zero_Pod else Inl ApiNotFound)
     sample_cfg ''n1.domain'' ''e1'' (Inr ''b'') [] =
   Ret ([\<lparr>re_pod = zero_Pod, re_type = ''Warning'', re_reason = ''TestReason'', re_action = ''n/a'',
          re_note = ''test message'', re_args = []\<rparr>], StatusOK)"
proof -
  have v: "validator_law check_fields" by (simp add: validator_law_def)
  have k: "Namespace sample_cfg = ''ns''" "PodName sample_cfg ''n1.domain'' ''e1'' = ''ctl-job-n1-e1''"
    by (simp_all add: sample_cfg_def PodName_eq)
  have e: "event_ok sample_event" by (simp add: event_ok_def sample_event_def unicode_IsUpper_byte_def)
  show ?thesis unfolding postEvent_spec [OF v] k
    by (simp add: posted_event_def dec_enc_Event e) (simp add: sample_event_def)
qed

section \<open>Form uploads\<close>

lemma filepath_Base_slash: "CHR ''/'' \<in> set (filepath_Base p) \<Longrightarrow> filepath_Base p = ''/''"
  using strings_Split_no_sep [OF last_in_set [OF strings_Split_nonempty]]
  by (auto simp: filepath_Base_def Let_def split: if_splits)

lemma upload_below:
  assumes "ReportDirectory cfg \<noteq> []" and "plain_name e" and "CHR ''/'' \<notin> set node"
    and "CHR ''/'' \<notin> set n \<or> n = ''/''"
  shows "\<exists>x. plain_name (node @ ''-'' @ x) \<and>
    fpath_of (ReportFileName cfg e (upload_name node n)) = (fst (report_path cfg e), snd (report_path cfg e) @ [node @ ''-'' @ x])"
proof -
  have pl: "plain_name (node @ ''-'' @ y)" if "CHR ''/'' \<notin> set y" for y
    using assms(3) that by (auto simp: plain_name_def append_eq_Cons_conv)
  show ?thesis
  proof (cases "n = ''/''")
    case False
    with assms(4) pl have "plain_name (node @ ''-'' @ n)" by blast
    with ReportFileName_path [OF assms(1,2) this] show ?thesis by (auto simp: upload_name_def report_path_def)
  next
    case True
    have p: "plain_name (node @ ''-'')" using pl [of "[]"] by simp
    have s: "strings_Split CHR ''/'' (upload_name node n) = [node @ ''-'', []]"
      using strings_Split_sep [of "CHR ''/''" "node @ ''-''" "[]"] assms(3) by (simp add: upload_name_def True)
    have es: "strings_Split CHR ''/'' e = [e]" using assms(2) by (simp add: plain_name_def strings_Split_id)
    have j: "strings_Split CHR ''/'' (join_with ''/'' [ReportDirectory cfg, e, upload_name node n]) =
        strings_Split CHR ''/'' (ReportDirectory cfg) @ [e, node @ ''-'', []]"
      by (subst strings_Split_join) (use s in \<open>simp_all add: es\<close>)
    have r: "is_rooted (join_with ''/'' [ReportDirectory cfg, e, upload_name node n]) = is_rooted (ReportDirectory cfg)"
      using assms(1) by (rule is_rooted_join_with)
    have c: "path_comps (join_with ''/'' [ReportDirectory cfg, e, upload_name node n]) =
        path_comps (ReportDirectory cfg) @ [e, node @ ''-'']"
      using assms(2) p unfolding path_comps_def r j clean_comps_app by (simp add: plain_name_def path_comps_def)
    have f: "ReportFileName cfg e (upload_name node n) =
        render_path (is_rooted (ReportDirectory cfg)) (path_comps (ReportDirectory cfg) @ [e, node @ ''-''])"
      using assms(1) c r unfolding ReportFileName_def filepath_Join_def filepath_Clean_def
      by (simp add: Let_def del: join_with.simps)
    have "cleaned (is_rooted (ReportDirectory cfg)) (path_comps (ReportDirectory cfg) @ [e, node @ ''-''])"
      using assms(2) p by (intro cleaned_append) auto
    then have "fpath_of (ReportFileName cfg e (upload_name node n)) =
        (fst (report_path cfg e), snd (report_path cfg e) @ [node @ ''-'' @ []])"
      unfolding f by (simp add: fpath_of_def render_path_roundtrip report_path_def)
    with p show ?thesis by (intro exI [of _ "[]"]) simp
  qed
qed

text \<open>
  Names of uploaded form files. Whatever name a part of a multipart form gives, its file is
  stored directly in the directory of the execution under a name that starts with the node's:
  only the last component of the name is used. (For the same upload as a plain body the name is
  taken as it is.)
\<close>

theorem form_upload_confined:
  assumes "ReportDirectory cfg \<noteq> []" and "plain_name e" and "CHR ''/'' \<notin> set node"
  shows "\<exists>x. plain_name (node @ ''-'' @ x) \<and>
    fpath_of (ReportFileName cfg e (upload_name node (part_FileName n))) =
      (fst (report_path cfg e), snd (report_path cfg e) @ [node @ ''-'' @ x])"
  by (rule upload_below [OF assms]) (use filepath_Base_slash [of n] in \<open>auto simp: part_FileName_def\<close>)

theorem form_upload_confined_witness:
  "\<exists>x. plain_name (''n1'' @ ''-'' @ x) \<and>
    fpath_of (ReportFileName sample_cfg ''e1'' (upload_name ''n1'' (part_FileName ''../../../../etc/passwd''))) =
      (True, [''var'', ''www'', ''e1'', ''n1'' @ ''-'' @ x])"
  using form_upload_confined [of sample_cfg "''e1''" "''n1''" "''../../../../etc/passwd''"]
  by (auto simp: report_path_def sample_comps plain_name_def)

end
