(* ===== verification/Jobs.thy ===== *)
theory Jobs
  imports Http
begin

text \<open>
  \<open>pkg/job\<close>: the pod of a job, made from the template in the configuration. The text template
  engine, the YAML decoder (which fills the pod it is given), \<open>controllerutil.SetOwnerReference\<close>
  and the custom environment extenders are arguments.
\<close>

section \<open>job.go\<close>

definition envNodeName :: string where "envNodeName = ''NODE_NAME''"
definition envExecutionID :: string where "envExecutionID = ''EXECUTION_ID''"
definition envNamespace :: string where "envNamespace = ''NAMESPACE''"
definition EnvCallbackServiceName :: string where "EnvCallbackServiceName = ''CALLBACK_SERVICE_NAME''"
definition EnvCallbackServicePort :: string where "EnvCallbackServicePort = ''CALLBACK_SERVICE_PORT''"
definition EnvCallbackServiceResultURL :: string where "EnvCallbackServiceResultURL = ''CALLBACK_SERVICE_RESULT_URL''"
definition EnvCallbackServiceFileURL :: string where "EnvCallbackServiceFileURL = ''CALLBACK_SERVICE_FILE_URL''"
definition EnvCallbackServiceEventURL :: string where "EnvCallbackServiceEventURL = ''CALLBACK_SERVICE_EVENT_URL''"

definition reservedEnvVars :: "string list" where
  "reservedEnvVars = [envNodeName, envExecutionID, envNamespace, EnvCallbackServiceName, EnvCallbackServicePort]"

definition MatchingLabels :: "string \<Rightarrow> (string \<rightharpoonup> string)" where
  "MatchingLabels name = [LabelOwner \<mapsto> name]"

type_synonym CustomPodEnv = "Config \<Rightarrow> string \<Rightarrow> string \<Rightarrow> string \<Rightarrow> Container \<Rightarrow> EnvVar list"

definition env_var :: "string \<Rightarrow> string \<Rightarrow> EnvVar" where
  "env_var n v = \<lparr>ev_Name = n, ev_Value = v, ev_ValueFrom = None\<rparr>"

text \<open>The URL \<open>"http://%s/report/%s/%s%s"\<close>.\<close>

definition callback_url :: "Config \<Rightarrow> string \<Rightarrow> string \<Rightarrow> string \<Rightarrow> string \<Rightarrow> string" where
  "callback_url cfg callbackAddress nodeName eid sub =
     ''http://'' @ net_JoinHostPort callbackAddress (strconv_Itoa (CallbackServicePort cfg)) @ ''/report/''
       @ nodeName @ ''/'' @ eid @ sub"

definition mergeEnv ::
  "Config \<Rightarrow> string \<Rightarrow> string \<Rightarrow> string \<Rightarrow> Container \<Rightarrow> CustomPodEnv list \<Rightarrow> EnvVar list" where
  "mergeEnv cfg nodeName eid callbackAddress container extender =
     filter (\<lambda>e. ev_Name e \<notin> set reservedEnvVars) (cn_Env container)
     @ concat (map (\<lambda>e. e cfg nodeName eid callbackAddress container) extender)
     @ [env_var envExecutionID eid,
        env_var envNamespace (Namespace cfg),
        env_var envNodeName nodeName,
        env_var EnvCallbackServiceName callbackAddress,
        env_var EnvCallbackServicePort (strconv_Itoa (CallbackServicePort cfg)),
        env_var EnvCallbackServiceResultURL (callback_url cfg callbackAddress nodeName eid CallbackBaseResultSubPath),
        env_var EnvCallbackServiceFileURL (callback_url cfg callbackAddress nodeName eid CallbackBaseFileSubPath),
        env_var EnvCallbackServiceEventURL (callback_url cfg callbackAddress nodeName eid CallbackBaseEventSubPath)]"

definition template_data :: "Config \<Rightarrow> string \<Rightarrow> string \<Rightarrow> (string \<rightharpoonup> string)" where
  "template_data cfg nodeName eid =
     [''Namespace'' \<mapsto> Namespace cfg, ''ExecutionID'' \<mapsto> eid, ''NodeName'' \<mapsto> nodeName]"

definition RestartPolicyNever :: string where "RestartPolicyNever = ''Never''"

text \<open>
  \<open>New\<close>: writing to the labels panics if the template sets them to \<open>null\<close>, which makes the map
  nil. The error of \<open>SetOwnerReference\<close> is ignored.
\<close>

definition New ::
  "(string \<Rightarrow> (string \<rightharpoonup> string) \<Rightarrow> string + string) \<Rightarrow> (string \<Rightarrow> Pod \<Rightarrow> string + Pod) \<Rightarrow> (api_object \<Rightarrow> Pod \<Rightarrow> Pod) \<Rightarrow>
   Config \<Rightarrow> string \<Rightarrow> string \<Rightarrow> string \<Rightarrow> api_object option \<Rightarrow> CustomPodEnv list \<Rightarrow> (string + Pod) go" where
  "New execute decode setOwner cfg nodeName eid callbackAddress owner extender =
     (let podName = PodName cfg nodeName eid in
      case execute (JobPodTemplate cfg) (template_data cfg nodeName eid) of
        Inl e \<Rightarrow> Ret (Inl e)
      | Inr buf \<Rightarrow>
          (case decode buf (zero_Pod\<lparr>pd_Labels := Some Map.empty\<rparr>) of
             Inl e \<Rightarrow> Ret (Inl e)
           | Inr pod0 \<Rightarrow>
               (case pd_Labels pod0 of
                  None \<Rightarrow> Panic ''assignment to entry in nil map''
                | Some ls \<Rightarrow>
                    let merge = (\<lambda>c. c\<lparr>cn_Env := mergeEnv cfg nodeName eid callbackAddress c extender\<rparr>);
                        pod = pod0\<lparr>pd_Name := podName, pd_Namespace := Namespace cfg,
                                pd_Labels := Some (ls(LabelExecutionID \<mapsto> eid, LabelOwner \<mapsto> cfg_Name cfg)),
                                pd_NodeName := nodeName, pd_ServiceAccountName := JobServiceAccount cfg,
                                pd_ImagePullSecrets := JobImagePullSecrets cfg,
                                pd_RestartPolicy := RestartPolicyNever,
                                pd_Containers := map merge (pd_Containers pod0),
                                pd_InitContainers := map merge (pd_InitContainers pod0)\<rparr>
                    in Ret (Inr (case owner of None \<Rightarrow> pod | Some o' \<Rightarrow> setOwner o' pod)))))"

section \<open>Lemmas\<close>

text \<open>\<open>SetOwnerReference\<close> changes the owner references and nothing else.\<close>

definition owner_law :: "(api_object \<Rightarrow> Pod \<Rightarrow> Pod) \<Rightarrow> bool" where
  "owner_law setOwner \<longleftrightarrow> (\<forall>o' p. \<exists>rs. setOwner o' p = p\<lparr>pd_OwnerReferences := rs\<rparr>)"

lemma New_pod:
  assumes "owner_law setOwner" and "New execute decode setOwner cfg n eid addr owner ext = Ret (Inr pod)"
  obtains (fields) pod0 :: Pod and ls buf where "execute (JobPodTemplate cfg) (template_data cfg n eid) = Inr buf"
    "decode buf (zero_Pod\<lparr>pd_Labels := Some Map.empty\<rparr>) = Inr pod0"
    "pd_Name pod = PodName cfg n eid" "pd_Namespace pod = Namespace cfg"
    "pd_Labels pod = Some (ls(LabelExecutionID \<mapsto> eid, LabelOwner \<mapsto> cfg_Name cfg))"
    "pd_NodeName pod = n" "pd_ServiceAccountName pod = JobServiceAccount cfg"
    "pd_ImagePullSecrets pod = JobImagePullSecrets cfg" "pd_RestartPolicy pod = ''Never''"
    "pd_Containers pod = map (\<lambda>c. c\<lparr>cn_Env := mergeEnv cfg n eid addr c ext\<rparr>) (pd_Containers pod0)"
    "pd_InitContainers pod = map (\<lambda>c. c\<lparr>cn_Env := mergeEnv cfg n eid addr c ext\<rparr>) (pd_InitContainers pod0)"
proof -
  have o: "\<exists>rs. (case owner of None \<Rightarrow> p | Some o' \<Rightarrow> setOwner o' p) = p\<lparr>pd_OwnerReferences := rs\<rparr>" for p
    using assms(1) by (cases owner) (auto simp: owner_law_def intro: exI [of _ "pd_OwnerReferences p"])
  obtain buf pod0 ls where b: "execute (JobPodTemplate cfg) (template_data cfg n eid) = Inr buf"
      "decode buf (zero_Pod\<lparr>pd_Labels := Some Map.empty\<rparr>) = Inr pod0" "pd_Labels pod0 = Some ls"
    using assms(2) by (auto simp: New_def Let_def split: sum.splits option.splits)
  define p where "p = pod0\<lparr>pd_Name := PodName cfg n eid, pd_Namespace := Namespace cfg,
       pd_Labels := Some (ls(LabelExecutionID \<mapsto> eid, LabelOwner \<mapsto> cfg_Name cfg)),
       pd_NodeName := n, pd_ServiceAccountName := JobServiceAccount cfg,
       pd_ImagePullSecrets := JobImagePullSecrets cfg, pd_RestartPolicy := RestartPolicyNever,
       pd_Containers := map (\<lambda>c. c\<lparr>cn_Env := mergeEnv cfg n eid addr c ext\<rparr>) (pd_Containers pod0),
       pd_InitContainers := map (\<lambda>c. c\<lparr>cn_Env := mergeEnv cfg n eid addr c ext\<rparr>) (pd_InitContainers pod0)\<rparr>"
  have "(case owner of None \<Rightarrow> p | Some o' \<Rightarrow> setOwner o' p) = pod"
    using assms(2) b by (cases owner) (simp_all add: New_def Let_def p_def)
  with o obtain rs where "pod = p\<lparr>pd_OwnerReferences := rs\<rparr>" by metis
  then show thesis by (intro fields [where ls = ls, OF b(1,2)]) (simp_all add: p_def RestartPolicyNever_def)
qed

text \<open>The value a container sees: of two variables of one name the later one counts.\<close>

definition env_value :: "EnvVar list \<Rightarrow> string \<Rightarrow> string option" where
  "env_value es n = map_option ev_Value (List.find (\<lambda>e. ev_Name e = n) (rev es))"

lemma LabelOwner_ne: "LabelOwner \<noteq> LabelExecutionID"
  by (simp add: LabelOwner_def LabelExecutionID_def)

lemmas env_names = envNodeName_def envExecutionID_def envNamespace_def EnvCallbackServiceName_def
  EnvCallbackServicePort_def EnvCallbackServiceResultURL_def EnvCallbackServiceFileURL_def EnvCallbackServiceEventURL_def

lemma mergeEnv_value:
  "env_value (mergeEnv cfg n eid addr c ext) ''EXECUTION_ID'' = Some eid"
  "env_value (mergeEnv cfg n eid addr c ext) ''NAMESPACE'' = Some (Namespace cfg)"
  "env_value (mergeEnv cfg n eid addr c ext) ''NODE_NAME'' = Some n"
  "env_value (mergeEnv cfg n eid addr c ext) ''CALLBACK_SERVICE_NAME'' = Some addr"
  "env_value (mergeEnv cfg n eid addr c ext) ''CALLBACK_SERVICE_PORT'' = Some (strconv_Itoa (CallbackServicePort cfg))"
  "env_value (mergeEnv cfg n eid addr c ext) ''CALLBACK_SERVICE_RESULT_URL'' = Some (callback_url cfg addr n eid ''/result'')"
  "env_value (mergeEnv cfg n eid addr c ext) ''CALLBACK_SERVICE_FILE_URL'' = Some (callback_url cfg addr n eid ''/file'')"
  "env_value (mergeEnv cfg n eid addr c ext) ''CALLBACK_SERVICE_EVENT_URL'' = Some (callback_url cfg addr n eid ''/event'')"
  unfolding mergeEnv_def env_value_def
  by (simp_all add: env_names env_var_def CallbackBaseResultSubPath_def CallbackBaseFileSubPath_def CallbackBaseEventSubPath_def)

end
