(* ===== verification/Job_Properties.thy ===== *)
theory Job_Properties
  imports Jobs Reconciler_Properties
begin

text \<open>
  The properties of \<open>pkg/job\<close>: the environment and the identity of the pods the controller
  creates, and how they come back to it through the reconciler and the callback server.
\<close>

text \<open>A template that decodes to labels \<open>null\<close> makes \<open>New\<close> panic, and nothing else does.\<close>

lemma New_panics:
  "(\<exists>m. New execute decode setOwner cfg n eid addr owner ext = Panic m) \<longleftrightarrow>
    (\<exists>buf pod. execute (JobPodTemplate cfg) (template_data cfg n eid) = Inr buf
       \<and> decode buf (zero_Pod\<lparr>pd_Labels := Some Map.empty\<rparr>) = Inr pod \<and> pd_Labels pod = None)"
  by (auto simp: New_def Let_def split: sum.splits option.splits)

section \<open>Environment\<close>

text \<open>
  C30. The environment of a job's containers. In every container and init container the eight
  variables of the callback interface have the values of this execution and node, whatever the
  template or an extender sets them to; the other variables of the template are kept in
  order.
\<close>

theorem job_env:
  assumes "owner_law setOwner" and "New execute decode setOwner cfg n eid addr owner ext = Ret (Inr pod)"
    and "execute (JobPodTemplate cfg) (template_data cfg n eid) = Inr buf"
    and "decode buf (zero_Pod\<lparr>pd_Labels := Some Map.empty\<rparr>) = Inr pod0"
    and "c \<in> set (pd_Containers pod) \<union> set (pd_InitContainers pod)"
  shows "env_value (cn_Env c) ''EXECUTION_ID'' = Some eid
    \<and> env_value (cn_Env c) ''NAMESPACE'' = Some (Namespace cfg)
    \<and> env_value (cn_Env c) ''NODE_NAME'' = Some n
    \<and> env_value (cn_Env c) ''CALLBACK_SERVICE_NAME'' = Some addr
    \<and> env_value (cn_Env c) ''CALLBACK_SERVICE_PORT'' = Some (strconv_Itoa (CallbackServicePort cfg))
    \<and> env_value (cn_Env c) ''CALLBACK_SERVICE_RESULT_URL'' = Some (callback_url cfg addr n eid ''/result'')
    \<and> env_value (cn_Env c) ''CALLBACK_SERVICE_FILE_URL'' = Some (callback_url cfg addr n eid ''/file'')
    \<and> env_value (cn_Env c) ''CALLBACK_SERVICE_EVENT_URL'' = Some (callback_url cfg addr n eid ''/event'')
    \<and> (\<exists>c0 \<in> set (pd_Containers pod0) \<union> set (pd_InitContainers pod0). \<exists>rest. cn_Name c0 = cn_Name c
         \<and> cn_Env c = filter (\<lambda>e. ev_Name e \<notin> set reservedEnvVars) (cn_Env c0) @ rest)"
proof -
  have p: "pd_Containers pod = map (\<lambda>c. c\<lparr>cn_Env := mergeEnv cfg n eid addr c ext\<rparr>) (pd_Containers pod0)"
    "pd_InitContainers pod = map (\<lambda>c. c\<lparr>cn_Env := mergeEnv cfg n eid addr c ext\<rparr>) (pd_InitContainers pod0)"
    using assms(3,4) by (rule_tac New_pod [OF assms(1,2)], simp)+
  then obtain c0 :: Container where c0: "cn_Env c = mergeEnv cfg n eid addr c0 ext" "cn_Name c0 = cn_Name c"
    "c0 \<in> set (pd_Containers pod0) \<union> set (pd_InitContainers pod0)"
    using assms(5) by auto
  from c0(1) have "\<exists>rest. cn_Env c = filter (\<lambda>e. ev_Name e \<notin> set reservedEnvVars) (cn_Env c0) @ rest"
    unfolding mergeEnv_def by blast
  with c0(2,3) have "\<exists>c0 \<in> set (pd_Containers pod0) \<union> set (pd_InitContainers pod0). \<exists>rest. cn_Name c0 = cn_Name c
      \<and> cn_Env c = filter (\<lambda>e. ev_Name e \<notin> set reservedEnvVars) (cn_Env c0) @ rest" by blast
  then show ?thesis unfolding c0(1) mergeEnv_value by simp
qed

definition sample_template :: "string \<Rightarrow> Pod \<Rightarrow> string + Pod" where
  "sample_template buf p = Inr (p\<lparr>pd_Containers := [\<lparr>cn_Name = ''main'',
     cn_Env = [env_var ''EXECUTION_ID'' ''mine'', env_var ''FOO'' ''bar''], cn_rest = []\<rparr>]\<rparr>)"

definition sample_execute :: "string \<Rightarrow> (string \<rightharpoonup> string) \<Rightarrow> string + string" where
  "sample_execute t d = Inr t"

definition set_owner :: "api_object \<Rightarrow> Pod \<Rightarrow> Pod" where
  "set_owner ob p = p\<lparr>pd_OwnerReferences := [\<lparr>or_APIVersion = ob_APIVersion ob, or_Kind = ob_Kind ob, or_Name = ob_Name ob\<rparr>]\<rparr>"

definition bad_extender :: CustomPodEnv where
  "bad_extender cfg n eid addr c = [env_var ''NAMESPACE'' ''notMyNamespace'', env_var ''CUSTOM'' ''VALUE'']"

lemma owner_law_set_owner: "owner_law set_owner"
  unfolding owner_law_def set_owner_def by blast

lemma sample_job:
  "\<exists>pod. New sample_execute sample_template set_owner sample_cfg ''n1'' ''e1'' ''1.1.1.1'' None [bad_extender] = Ret (Inr pod)
     \<and> pd_Containers pod \<noteq> []"
  by (simp add: New_def sample_execute_def sample_template_def Let_def)

theorem job_env_witness:
  "\<exists>pod. New sample_execute sample_template set_owner sample_cfg ''n1'' ''e1'' ''1.1.1.1'' None [bad_extender] = Ret (Inr pod)
     \<and> env_value (cn_Env (hd (pd_Containers pod))) ''EXECUTION_ID'' = Some ''e1''
     \<and> env_value (cn_Env (hd (pd_Containers pod))) ''NAMESPACE'' = Some ''ns''"
proof -
  obtain pod where pod: "New sample_execute sample_template set_owner sample_cfg ''n1'' ''e1'' ''1.1.1.1'' None [bad_extender] = Ret (Inr pod)"
    "pd_Containers pod \<noteq> []" using sample_job by blast
  obtain pod0 where t: "sample_execute (JobPodTemplate sample_cfg) (template_data sample_cfg ''n1'' ''e1'') = Inr (JobPodTemplate sample_cfg)"
    "sample_template (JobPodTemplate sample_cfg) (zero_Pod\<lparr>pd_Labels := Some Map.empty\<rparr>) = Inr pod0"
    by (simp add: sample_execute_def sample_template_def)
  have h: "hd (pd_Containers pod) \<in> set (pd_Containers pod) \<union> set (pd_InitContainers pod)" using pod(2) by simp
  from job_env [OF owner_law_set_owner pod(1) t h] pod(1) show ?thesis
    by (auto simp: sample_cfg_def)
qed

section \<open>Callback URLs\<close>

text \<open>
  The callback URLs lead back to the server's route: split at its slashes, the URL of a
  job is the scheme, the address with the port, and the segments of
  \<open>/report/:node/:executionID/<endpoint>\<close> filled with the node and the execution.
\<close>

theorem callback_url_route:
  assumes "CHR ''/'' \<notin> set addr" and "CHR ''/'' \<notin> set n" and "CHR ''/'' \<notin> set eid"
    and "sub \<in> {CallbackBaseResultSubPath, CallbackBaseFileSubPath, CallbackBaseEventSubPath}"
  shows "strings_Split CHR ''/'' (callback_url cfg addr n eid sub) =
    [''http:'', [], net_JoinHostPort addr (strconv_Itoa (CallbackServicePort cfg)), ''report'', n, eid, tl sub]"
proof -
  have it: "CHR ''/'' \<notin> set (strconv_Itoa i)" for i
    using bspec [OF nat_str_digits [of "nat (- i)"], of "CHR ''/''"] bspec [OF nat_str_digits [of "nat i"], of "CHR ''/''"]
    by (auto simp: strconv_Itoa_def)
  then have h: "CHR ''/'' \<notin> set (net_JoinHostPort addr (strconv_Itoa (CallbackServicePort cfg)))" (is "_ \<notin> set ?h")
    using assms(1) by (simp add: net_JoinHostPort_def)
  obtain x where sub: "sub = CHR ''/'' # x" "CHR ''/'' \<notin> set x"
    using assms(4) by (auto simp: CallbackBaseResultSubPath_def CallbackBaseFileSubPath_def CallbackBaseEventSubPath_def)
  have u: "callback_url cfg addr n eid sub =
      ''http:'' @ CHR ''/'' # [] @ CHR ''/'' # ?h @ CHR ''/'' # ''report'' @ CHR ''/'' # n @ CHR ''/'' # eid @ CHR ''/'' # x"
    by (simp add: callback_url_def sub)
  have l: "CHR ''/'' \<notin> set ''http:''" "CHR ''/'' \<notin> set ''report''" "CHR ''/'' \<notin> set ([] :: string)" by simp_all
  show ?thesis
    unfolding u strings_Split_sep [OF l(1)] strings_Split_sep [OF l(3)] strings_Split_sep [OF h] strings_Split_sep [OF l(2)]
      strings_Split_sep [OF assms(2)] strings_Split_sep [OF assms(3)] strings_Split_id [OF sub(2)]
    by (simp add: sub)
qed

theorem callback_url_route_witness:
  "strings_Split CHR ''/'' (callback_url sample_cfg ''1.1.1.1'' ''n1'' ''e1'' CallbackBaseResultSubPath) =
    [''http:'', [], ''1.1.1.1:8090'', ''report'', ''n1'', ''e1'', ''result'']"
proof -
  have "net_JoinHostPort ''1.1.1.1'' (strconv_Itoa (CallbackServicePort sample_cfg)) = ''1.1.1.1:8090''"
    by (simp add: net_JoinHostPort_def sample_cfg_def strconv_Itoa_def nat_str.simps digit_char_def)
      code_simp
  with callback_url_route [of "''1.1.1.1''" "''n1''" "''e1''" CallbackBaseResultSubPath sample_cfg] show ?thesis
    by (simp add: CallbackBaseResultSubPath_def)
qed

section \<open>From the created pod back to the controller\<close>



end
