(* ===== verification/Cron.thy ===== *)
theory Cron
  imports Jobs Pool_Invariant
begin

text \<open>
  \<open>pkg/cron\<close>: the job that a schedule starts. Its phases are functions (choosing the nodes and
  creating the execution, making one job, the end) and the goroutine that runs them is a step
  relation on the state of \<open>Pool\<close>, extended by the cluster, the place in \<open>startPods\<close>, the flag
  \<open>running\<close> and the pod jobs handed to the controller. Environment steps are the terminations,
  reports and worker turns of \<open>Pool\<close>. The test and setting of \<open>running\<close> is one step, which \<open>Overlap\<close>
  justifies, with the condition it takes.
\<close>

section \<open>State and dependencies\<close>

definition NodeReady :: string where "NodeReady = ''Ready''"
definition ConditionTrue :: string where "ConditionTrue = ''True''"

fun node_ready :: "NodeCondition list \<Rightarrow> bool" where
  "node_ready [] = False"
| "node_ready (c # cs) = (if nc_Type c = NodeReady then nc_Status c = ConditionTrue else node_ready cs)"

definition isUsable :: "Node \<Rightarrow> bool \<Rightarrow> bool" where
  "isUsable node runOnUnscheduledNodes =
     (if \<not> runOnUnscheduledNodes \<and> nd_Unschedulable node then False else node_ready (nd_Conditions node))"

text \<open>The API client, on a state of the cluster: a service is its cluster IP.\<close>

record 'k client =
  cl_List :: "'k \<Rightarrow> (string \<times> string) list \<Rightarrow> err + Node list"
  cl_DeleteAllOf :: "'k \<Rightarrow> string \<Rightarrow> (string \<rightharpoonup> string) \<Rightarrow> err option \<times> 'k"
  cl_Get :: "'k \<Rightarrow> string \<times> string \<Rightarrow> err + string"
  cl_Create :: "'k \<Rightarrow> Pod \<Rightarrow> err option \<times> 'k"

text \<open>\<open>cronJob\<close> with its injected parts, and what \<open>job.New\<close> needs.\<close>

record ('g, 'k) cronJob =
  cj_client :: "'k client"
  cj_cfg :: Config
  cj_extender :: "CustomPodEnv list"
  cj_env :: env
  cj_gauge :: "'g gauge_vec"
  cj_sort :: "dir_entry list \<Rightarrow> dir_entry list"
  cj_execute :: "string \<Rightarrow> (string \<rightharpoonup> string) \<Rightarrow> string + string"
  cj_decode :: "string \<Rightarrow> Pod \<Rightarrow> string + Pod"
  cj_setOwner :: "api_object \<Rightarrow> Pod \<Rightarrow> Pod"

record podJob =
  pj_id :: string
  pj_nodeName :: string
  pj_pod :: Pod

definition pj_job :: "podJob \<Rightarrow> Job" where
  "pj_job j = \<lparr>job_ID = pj_id j, job_Node = pj_nodeName j\<rparr>"

definition CreatePod :: "'k client \<Rightarrow> podJob \<Rightarrow> 'k \<Rightarrow> 'k" where
  "CreatePod cl j k = snd (cl_Create cl k (pj_pod j))"

section \<open>The phases of startPods\<close>

definition deleteAll :: "'k client \<Rightarrow> Config \<Rightarrow> 'k \<Rightarrow> err option \<times> 'k" where
  "deleteAll cl cfg k = cl_DeleteAllOf cl k (Namespace cfg) (MatchingLabels (cfg_Name cfg))"

definition callbackAddress :: "'k client \<Rightarrow> env \<Rightarrow> Config \<Rightarrow> 'k \<Rightarrow> err + string" where
  "callbackAddress cl env cfg k =
     (case env EnvPodIP of
        Some ip \<Rightarrow> Inr ip
      | None \<Rightarrow> cl_Get cl k (Namespace cfg, CallbackServiceName cfg))"

datatype prepared = Aborted | Prepared string string "Node list"

definition startPods_prepare ::
  "('g, 'k) cronJob \<Rightarrow> clock \<Rightarrow> 'g controller \<Rightarrow> fs \<Rightarrow> 'k \<Rightarrow> ('g controller \<times> fs \<times> 'k \<times> prepared) go" where
  "startPods_prepare j clk c s k =
     (let cfg = cj_cfg j; cl = cj_client j in
      case cl_List cl k (JobNodeSelector cfg) of
        Inl e \<Rightarrow> Ret (c, s, k, Aborted)
      | Inr items \<Rightarrow>
          let usable = filter (\<lambda>n. isUsable n (RunOnUnscheduledNodes cfg)) items
          in go_bind (NewExecution (cj_gauge j) False clk c s (int (length usable))) (\<lambda>(executionID, c', s').
               case deleteAll cl cfg k of
                 (Some e, k') \<Rightarrow> Ret (c', s', k', Aborted)
               | (None, k') \<Rightarrow>
                   (case callbackAddress cl (cj_env j) cfg k' of
                      Inl e \<Rightarrow> Ret (c', s', k', Aborted)
                    | Inr address \<Rightarrow> Ret (c', s', k', Prepared executionID address usable))))"

definition startPods_job :: "('g, 'k) cronJob \<Rightarrow> string \<Rightarrow> string \<Rightarrow> Node \<Rightarrow> (string + podJob) go" where
  "startPods_job j executionID address n =
     go_bind (New (cj_execute j) (cj_decode j) (cj_setOwner j) (cj_cfg j) (nd_Name n) executionID address
                (Owner (cj_cfg j)) (cj_extender j))
       (\<lambda>r. Ret (case r of
               Inl e \<Rightarrow> Inl e
             | Inr pod \<Rightarrow> Inr \<lparr>pj_id = executionID, pj_nodeName = nd_Name n, pj_pod = pod\<rparr>))"

text \<open>
  \<open>Start\<close>: what it schedules, or the error for the cron expression; \<open>addFunc\<close> is the
  scheduler's. The second component is the delay of the run on startup.
\<close>

definition Start :: "(string \<Rightarrow> err option) \<Rightarrow> Config \<Rightarrow> err + (string \<times> int option)" where
  "Start addFunc cfg =
     (case addFunc (CronExpression cfg) of
        Some e \<Rightarrow> Inl e
      | None \<Rightarrow> Inr (CronExpression cfg, if RunOnStartup cfg then Some (StartupDelay cfg) else None))"

section \<open>The goroutine\<close>

datatype cron_pc = CIdle | CLoop string string "Node list" | CBlocked string string "Node list"

text \<open>
  \<open>cs_pods\<close> has the pod job that was handed to \<open>AddPod\<close> for an execution (by its address) and a
  node, \<open>cs_created\<close> the pod jobs whose \<open>CreatePod\<close> was called.
\<close>

record ('g, 'k) cron_sys =
  cs_sys :: "'g sys"
  cs_cluster :: 'k
  cs_pc :: cron_pc
  cs_running :: bool
  cs_pods :: "nat \<times> string \<rightharpoonup> podJob"
  cs_created :: "(nat \<times> podJob) list"

datatype cron_label =
    Tick clock
  | NextJob
  | Unblocked
  | Finish instant
  | PodEnds instant string string string
  | Report instant string string bool Results
  | WorkerTurn instant nat nat
  | Files fs

text \<open>The steps that the goroutines of the controller make by themselves.\<close>

fun internal :: "cron_label \<Rightarrow> bool" where
  "internal (PodEnds t eid n ph) = False"
| "internal (Report t eid n b rs) = False"
| "internal (Files f) = False"
| "internal _ = True"

definition cron_init :: "('g, 'k) cronJob \<Rightarrow> 'g Collector \<Rightarrow> fs \<Rightarrow> 'k \<Rightarrow> ('g, 'k) cron_sys" where
  "cron_init j prm f k = \<lparr>cs_sys = init (cj_cfg j) prm f, cs_cluster = k, cs_pc = CIdle, cs_running = False,
     cs_pods = Map.empty, cs_created = []\<rparr>"

text \<open>The worker's call of \<open>CreatePod\<close> for the job it holds.\<close>

definition create_job :: "('g, 'k) cronJob \<Rightarrow> nat \<Rightarrow> Job option \<Rightarrow> ('g, 'k) cron_sys \<Rightarrow> ('g, 'k) cron_sys" where
  "create_job j e jo x =
     (case jo of
        None \<Rightarrow> x
      | Some jb \<Rightarrow> (case cs_pods x (e, job_Node jb) of
            None \<Rightarrow> x
          | Some pj \<Rightarrow> x\<lparr>cs_cluster := CreatePod (cj_client j) pj (cs_cluster x),
                          cs_created := cs_created x @ [(e, pj)]\<rparr>))"

inductive cstep :: "('g, 'k) cronJob \<Rightarrow> ('g, 'k) cron_sys \<Rightarrow> cron_label \<Rightarrow> ('g, 'k) cron_sys \<Rightarrow> bool"
  for j :: "('g, 'k) cronJob" where
  tick_skip: "cs_running x \<Longrightarrow> cstep j x (Tick clk) x"
| tick_abort: "\<not> cs_running x \<Longrightarrow>
    startPods_prepare j clk (s_ctl (cs_sys x)) (s_fs (cs_sys x)) (cs_cluster x) = Ret (c', f', k', Aborted) \<Longrightarrow>
    cstep j x (Tick clk) (x\<lparr>cs_sys := (cs_sys x)\<lparr>s_ctl := c', s_fs := f'\<rparr>, cs_cluster := k'\<rparr>)"
| tick: "\<not> cs_running x \<Longrightarrow>
    startPods_prepare j clk (s_ctl (cs_sys x)) (s_fs (cs_sys x)) (cs_cluster x) = Ret (c', f', k', Prepared eid addr ns) \<Longrightarrow>
    cstep j x (Tick clk) (x\<lparr>cs_sys := (cs_sys x)\<lparr>s_ctl := c', s_fs := f'\<rparr>, cs_cluster := k',
      cs_pc := CLoop eid addr ns, cs_running := True\<rparr>)"
| next_abort: "cs_pc x = CLoop eid addr (n # ns) \<Longrightarrow> startPods_job j eid addr n = Ret (Inl m) \<Longrightarrow>
    cstep j x NextJob (x\<lparr>cs_pc := CIdle, cs_running := False\<rparr>)"
| next_unknown: "cs_pc x = CLoop eid addr (n # ns) \<Longrightarrow> startPods_job j eid addr n = Ret (Inr pj) \<Longrightarrow>
    AddPod (s_ctl (cs_sys x)) (pj_job pj) = AddErr m \<Longrightarrow>
    cstep j x NextJob (x\<lparr>cs_pc := CLoop eid addr ns\<rparr>)"
| next_added: "cs_pc x = CLoop eid addr (n # ns) \<Longrightarrow> startPods_job j eid addr n = Ret (Inr pj) \<Longrightarrow>
    forID (s_ctl (cs_sys x)) eid = Inr e \<Longrightarrow>
    AddPod (s_ctl (cs_sys x)) (pj_job pj) = AddDone c' \<Longrightarrow>
    cstep j x NextJob (x\<lparr>cs_sys := (cs_sys x)\<lparr>s_ctl := c'\<rparr>, cs_pc := CLoop eid addr ns,
      cs_pods := (cs_pods x)((e, nd_Name n) \<mapsto> pj)\<rparr>)"
| next_blocks: "cs_pc x = CLoop eid addr (n # ns) \<Longrightarrow> startPods_job j eid addr n = Ret (Inr pj) \<Longrightarrow>
    AddPod (s_ctl (cs_sys x)) (pj_job pj) = AddBlocked e c' \<Longrightarrow>
    cstep j x NextJob (x\<lparr>cs_sys := (cs_sys x)\<lparr>s_ctl := c', s_pending := Some (e, pj_job pj)\<rparr>,
      cs_pc := CBlocked eid addr ns, cs_pods := (cs_pods x)((e, nd_Name n) \<mapsto> pj)\<rparr>)"
| unblocked: "cs_pc x = CBlocked eid addr ns \<Longrightarrow> s_pending (cs_sys x) = Some (e, jb) \<Longrightarrow>
    chan_send e jb (s_ctl (cs_sys x)) = AddDone c' \<Longrightarrow>
    cstep j x Unblocked (x\<lparr>cs_sys := (cs_sys x)\<lparr>s_ctl := c', s_pending := None\<rparr>, cs_pc := CLoop eid addr ns\<rparr>)"
| finish: "cs_pc x = CLoop eid addr [] \<Longrightarrow>
    AllAdded (cj_gauge j) (cj_sort j) t (s_ctl (cs_sys x)) (s_fs (cs_sys x)) eid = Ret (c', f', r) \<Longrightarrow>
    cstep j x (Finish t) (x\<lparr>cs_sys := (cs_sys x)\<lparr>s_ctl := c', s_fs := f'\<rparr>, cs_pc := CIdle, cs_running := False\<rparr>)"
| pod_ends: "PodTerminated (cj_gauge j) t (s_ctl (cs_sys x)) eid n ph = Ret (c', r) \<Longrightarrow>
    cstep j x (PodEnds t eid n ph) (x\<lparr>cs_sys := (cs_sys x)\<lparr>s_ctl := c'\<rparr>\<rparr>)"
| report: "ReportReceived (cj_gauge j) t (s_ctl (cs_sys x)) eid n b rs = Ret c' \<Longrightarrow>
    cstep j x (Report t eid n b rs) (x\<lparr>cs_sys := (cs_sys x)\<lparr>s_ctl := c'\<rparr>\<rparr>)"
| worker: "e < length (heap_ex (s_ctl (cs_sys x))) \<Longrightarrow> w < length (ex_workers (heap_ex (s_ctl (cs_sys x)) ! e)) \<Longrightarrow>
    worker_turn t e w (s_ctl (cs_sys x)) = Some (c', jo) \<Longrightarrow>
    cstep j x (WorkerTurn t e w)
      (create_job j e jo (x\<lparr>cs_sys := (cs_sys x)\<lparr>s_ctl := c',
         s_created := s_created (cs_sys x) @ (case jo of None \<Rightarrow> [] | Some jb \<Rightarrow> [(e, jb)])\<rparr>\<rparr>))"
| files: "cstep j x (Files f') (x\<lparr>cs_sys := (cs_sys x)\<lparr>s_fs := f'\<rparr>\<rparr>)"

inductive_cases cstep_TickE: "cstep j x (Tick clk) x'"

definition crun :: "('g, 'k) cronJob \<Rightarrow> ('g, 'k) cron_sys \<Rightarrow> cron_label list \<Rightarrow> ('g, 'k) cron_sys \<Rightarrow> bool" where
  "crun j = trace (cstep j)"

lemmas crun_Nil = trace_Nil [of "cstep j" for j, folded crun_def]
lemmas crun_Cons = trace_Cons [of "cstep j" for j, folded crun_def]
lemmas crun_append = trace_append [of "cstep j" for j, folded crun_def]
lemmas crun_induct [consumes 1, case_names crun_Nil crun_Cons] = trace.induct [of "cstep j" for j, folded crun_def]

text \<open>What the API server promises about a list of nodes: their names are distinct.\<close>

definition list_law :: "'k client \<Rightarrow> bool" where
  "list_law cl \<longleftrightarrow> (\<forall>k sel items. cl_List cl k sel = Inr items \<longrightarrow> distinct (map nd_Name items))"

end
