(* ===== verification/Cron_Refinement.thy ===== *)
theory Cron_Refinement
  imports Cron Pool_Properties
begin

text \<open>
  The cron goroutine refines the pool: every run of it is a run of \<open>Pool\<close>, whose \<open>LAdd\<close> steps
  come from the loop of \<open>startPods\<close>. The invariant also follows the pod jobs from \<open>job.New\<close> to
  \<open>CreatePod\<close>.
\<close>

section \<open>The invariant\<close>

definition loop_ok :: "'g controller \<Rightarrow> string \<Rightarrow> Node list \<Rightarrow> bool" where
  "loop_ok c eid ns \<longleftrightarrow> (\<exists>e. executions c eid = Some e \<and> distinct (map nd_Name ns)
     \<and> (\<forall>n \<in> set ns. ex_pods (heap_ex c ! e) (nd_Name n) = None))"

fun pc_ok :: "cron_pc \<Rightarrow> bool \<Rightarrow> 'g sys \<Rightarrow> bool" where
  "pc_ok CIdle r s = (\<not> r \<and> s_pending s = None)"
| "pc_ok (CLoop eid addr ns) r s = (r \<and> s_pending s = None \<and> loop_ok (s_ctl s) eid ns)"
| "pc_ok (CBlocked eid addr ns) r s = (r \<and> s_pending s \<noteq> None \<and> loop_ok (s_ctl s) eid ns)"

text \<open>The pod job of a registered node is what \<open>job.New\<close> made for this execution and node.\<close>

definition job_for :: "('g, 'k) cronJob \<Rightarrow> string \<Rightarrow> string \<Rightarrow> podJob \<Rightarrow> bool" where
  "job_for j eid n pj \<longleftrightarrow> pj_id pj = eid \<and> pj_nodeName pj = n \<and>
     (\<exists>addr. New (cj_execute j) (cj_decode j) (cj_setOwner j) (cj_cfg j) n eid addr (Owner (cj_cfg j)) (cj_extender j)
        = Ret (Inr (pj_pod pj)))"

definition pods_ok :: "('g, 'k) cronJob \<Rightarrow> (nat \<times> string \<rightharpoonup> podJob) \<Rightarrow> 'g controller \<Rightarrow> bool" where
  "pods_ok j m c \<longleftrightarrow> (\<forall>e < length (heap_ex c). \<forall>n. ex_pods (heap_ex c ! e) n \<noteq> None \<longrightarrow>
     (\<exists>pj. m (e, n) = Some pj \<and> job_for j (ex_id (heap_ex c ! e)) n pj))"

definition created_ok :: "(nat \<times> string \<rightharpoonup> podJob) \<Rightarrow> (nat \<times> podJob) list \<Rightarrow> 'g sys \<Rightarrow> bool" where
  "created_ok m cr s \<longleftrightarrow> map (\<lambda>(e, pj). (e, pj_nodeName pj)) cr = map (\<lambda>(e, jb). (e, job_Node jb)) (s_created s)
     \<and> (\<forall>(e, pj) \<in> set cr. e < length (heap_ex (s_ctl s)) \<and> ex_pods (heap_ex (s_ctl s) ! e) (pj_nodeName pj) \<noteq> None
          \<and> m (e, pj_nodeName pj) = Some pj)"

definition cron_ok :: "('g, 'k) cronJob \<Rightarrow> ('g, 'k) cron_sys \<Rightarrow> bool" where
  "cron_ok j x \<longleftrightarrow> sys_ok (cs_sys x) \<and> pc_ok (cs_pc x) (cs_running x) (cs_sys x)
     \<and> pods_ok j (cs_pods x) (s_ctl (cs_sys x)) \<and> created_ok (cs_pods x) (cs_created x) (cs_sys x)"

lemma cron_okD:
  assumes "cron_ok j x"
  shows "sys_ok (cs_sys x)" "pc_ok (cs_pc x) (cs_running x) (cs_sys x)" "pods_ok j (cs_pods x) (s_ctl (cs_sys x))"
    "created_ok (cs_pods x) (cs_created x) (cs_sys x)"
  using assms unfolding cron_ok_def by blast+

lemma cron_ok_init: "cron_ok j (cron_init j prm f k)"
  using sys_ok_init by (auto simp: cron_ok_def cron_init_def pods_ok_def created_ok_def init_def NewController_def)

section \<open>Frames\<close>

text \<open>
  \<open>same_reg c c'\<close>: the executions of \<open>c\<close> are still there, with the same nodes registered, and
  new ones have none.
\<close>

definition same_reg :: "'g controller \<Rightarrow> 'g controller \<Rightarrow> bool" where
  "same_reg c c' \<longleftrightarrow> length (heap_ex c) \<le> length (heap_ex c') \<and>
     (\<forall>e. length (heap_ex c) \<le> e \<longrightarrow> e < length (heap_ex c') \<longrightarrow> ex_pods (heap_ex c' ! e) = Map.empty) \<and>
     (\<forall>e < length (heap_ex c). ex_pods (heap_ex c' ! e) = ex_pods (heap_ex c ! e) \<and> ex_id (heap_ex c' ! e) = ex_id (heap_ex c ! e))"

lemma same_regI: "heap_ex c' = heap_ex c \<Longrightarrow> same_reg c c'"
  by (simp add: same_reg_def)

lemma same_reg_update:
  "heap_ex c' = (heap_ex c)[e := x] \<Longrightarrow> ex_pods x = ex_pods (heap_ex c ! e) \<Longrightarrow> ex_id x = ex_id (heap_ex c ! e) \<Longrightarrow> same_reg c c'"
  by (auto simp: same_reg_def nth_upd)

lemma pods_ok_same: "pods_ok j m c \<Longrightarrow> same_reg c c' \<Longrightarrow> pods_ok j m c'"
  unfolding pods_ok_def same_reg_def by (metis linorder_not_less)

lemma created_ok_same:
  "created_ok m cr s \<Longrightarrow> same_reg (s_ctl s) (s_ctl s') \<Longrightarrow> s_created s' = s_created s \<Longrightarrow> created_ok m cr s'"
  by (auto simp: created_ok_def same_reg_def)

lemma loop_ok_same:
  "loop_ok c eid ns \<Longrightarrow> heap_ok c \<Longrightarrow> same_reg c c' \<Longrightarrow> executions c' = executions c \<Longrightarrow> loop_ok c' eid ns"
  unfolding loop_ok_def same_reg_def using heap_ok_execution by metis

lemma pc_ok_same:
  "pc_ok pc r s \<Longrightarrow> heap_ok (s_ctl s) \<Longrightarrow> same_reg (s_ctl s) (s_ctl s') \<Longrightarrow> executions (s_ctl s') = executions (s_ctl s) \<Longrightarrow>
   s_pending s' = s_pending s \<Longrightarrow> pc_ok pc r s'"
  using loop_ok_same by (cases pc) auto

lemma worker_turn_reg:
  assumes "worker_turn t e w c = Some (c', jo)"
  shows "same_reg c c'" "executions c' = executions c"
  using assms
  by (auto simp: worker_turn_def same_reg_def set_worker_def upd_ex_def upd_pod_def addProgress_def nth_upd
      split: worker.splits list.splits if_splits sum.splits)

text \<open>Registering one node, in the buffer or blocked.\<close>

definition reg_one :: "nat \<Rightarrow> string \<Rightarrow> 'g controller \<Rightarrow> 'g controller \<Rightarrow> bool" where
  "reg_one e n c c' \<longleftrightarrow> e < length (heap_ex c) \<and> length (heap_ex c') = length (heap_ex c) \<and> executions c' = executions c
     \<and> (\<forall>e' < length (heap_ex c). ex_id (heap_ex c' ! e') = ex_id (heap_ex c ! e')
          \<and> (\<forall>n'. (ex_pods (heap_ex c' ! e') n' \<noteq> None) = (ex_pods (heap_ex c ! e') n' \<noteq> None \<or> (e' = e \<and> n' = n))))"

lemma reg_one_done:
  assumes "AddPod c jb = AddDone c'" and "heap_ok c"
  obtains e where "executions c (job_ID jb) = Some e" "reg_one e (job_Node jb) c c'"
  using assms(1)
proof (rule AddPod_done)
  fix e x
  assume e: "executions c (job_ID jb) = Some e" and x: "x = heap_ex c ! e"
    and h: "e < length (heap_ex c) \<Longrightarrow> heap_ex c' = (heap_ex c)[e := x\<lparr>ex_pods := (ex_pods x)(job_Node jb \<mapsto> length (heap_pod c)),
        chan_buf := chan_buf x @ [jb]\<rparr>]" and ex: "executions c' = executions c"
  have "e < length (heap_ex c)" using heap_ok_execution [OF assms(2) e] by simp
  with e h ex x show thesis by (intro that [OF e]) (auto simp: reg_one_def nth_upd)
qed

lemma reg_one_blocked:
  assumes "AddPod c jb = AddBlocked e c'" and "heap_ok c"
  shows "executions c (job_ID jb) = Some e \<and> reg_one e (job_Node jb) c c'"
  using assms(1)
proof (rule AddPod_blocked)
  fix x
  assume e: "executions c (job_ID jb) = Some e" and x: "x = heap_ex c ! e"
    and h: "e < length (heap_ex c) \<Longrightarrow> heap_ex c' = (heap_ex c)[e := x\<lparr>ex_pods := (ex_pods x)(job_Node jb \<mapsto> length (heap_pod c))\<rparr>]"
    and ex: "executions c' = executions c"
  have "e < length (heap_ex c)" using heap_ok_execution [OF assms(2) e] by simp
  with e h ex x show ?thesis by (auto simp: reg_one_def nth_upd)
qed

lemma reg_one_loop:
  assumes "reg_one e (nd_Name n) c c'" and "loop_ok c eid (n # ns)" and "executions c eid = Some e"
  shows "loop_ok c' eid ns"
proof -
  have l: "distinct (map nd_Name (n # ns))" "\<forall>m \<in> set (n # ns). ex_pods (heap_ex c ! e) (nd_Name m) = None"
    using assms(2,3) by (auto simp: loop_ok_def)
  have "ex_pods (heap_ex c' ! e) (nd_Name m) = None" if "m \<in> set ns" for m
  proof -
    have "nd_Name m \<noteq> nd_Name n" using l(1) imageI [OF that, of nd_Name] by auto
    moreover have "ex_pods (heap_ex c' ! e) (nd_Name m) \<noteq> None \<longleftrightarrow>
        ex_pods (heap_ex c ! e) (nd_Name m) \<noteq> None \<or> (e = e \<and> nd_Name m = nd_Name n)"
      using assms(1) unfolding reg_one_def by blast
    ultimately show ?thesis using l(2) that by simp
  qed
  moreover have "executions c' eid = Some e" using assms(1,3) by (simp add: reg_one_def)
  ultimately show ?thesis using l(1) by (auto simp: loop_ok_def)
qed

lemma reg_one_pods:
  assumes "reg_one e n c c'" and "pods_ok j m c" and "job_for j (ex_id (heap_ex c ! e)) n pj"
  shows "pods_ok j (m((e, n) \<mapsto> pj)) c'"
  using assms unfolding pods_ok_def reg_one_def by auto

lemma reg_one_created:
  assumes "reg_one e n (s_ctl s) (s_ctl s')" and "created_ok m cr s" and "ex_pods (heap_ex (s_ctl s) ! e) n = None"
    and "s_created s' = s_created s"
  shows "created_ok (m((e, n) \<mapsto> pj)) cr s'"
  using assms unfolding created_ok_def reg_one_def by fastforce

lemma same_reg_new:
  assumes "NewExecution gv w clk c s n = Ret (eid, c', s')"
  shows "same_reg c c'" "executions c' = (executions c)(eid \<mapsto> length (heap_ex c))"
    "ex_pods (heap_ex c' ! length (heap_ex c)) = Map.empty"
  using assms by (auto elim!: NewExecution_cases simp: same_reg_def nth_append)

lemma same_reg_AllAdded:
  assumes "AllAdded gv sortf t c s eid = Ret (c', s', r)"
  shows "same_reg c c'"
  using AllAdded_effect(4) [OF assms] by (auto intro: same_regI same_reg_update)

section \<open>Preservation and refinement\<close>

lemma prepare_cases:
  assumes "startPods_prepare j clk c s k = Ret (c', s', k', p)"
  obtains (unlisted) "c' = c" "s' = s" "p = Aborted"
  | (aborted) eid n where "NewExecution (cj_gauge j) False clk c s n = Ret (eid, c', s')" "p = Aborted"
  | (prepared) eid items addr where "NewExecution (cj_gauge j) False clk c s
        (int (length (filter (\<lambda>n. isUsable n (RunOnUnscheduledNodes (cj_cfg j))) items))) = Ret (eid, c', s')"
      "cl_List (cj_client j) k (JobNodeSelector (cj_cfg j)) = Inr items"
      "p = Prepared eid addr (filter (\<lambda>n. isUsable n (RunOnUnscheduledNodes (cj_cfg j))) items)"
proof (cases "cl_List (cj_client j) k (JobNodeSelector (cj_cfg j))")
  case (Inl e)
  with assms show thesis by (intro unlisted) (auto simp: startPods_prepare_def Let_def)
next
  case (Inr items)
  let ?u = "filter (\<lambda>n. isUsable n (RunOnUnscheduledNodes (cj_cfg j))) items"
  obtain eid c1 s1 where n: "NewExecution (cj_gauge j) False clk c s (int (length ?u)) = Ret (eid, c1, s1)"
    using assms Inr by (auto simp: startPods_prepare_def Let_def)
  obtain d k1 where dl: "deleteAll (cj_client j) (cj_cfg j) k = (d, k1)" by fastforce
  show thesis
  proof (cases "d = None \<and> (\<exists>a. callbackAddress (cj_client j) (cj_env j) (cj_cfg j) k1 = Inr a)")
    case True
    then obtain a where "callbackAddress (cj_client j) (cj_env j) (cj_cfg j) k1 = Inr a" by blast
    with True assms Inr n dl show thesis by (intro prepared [where eid = eid and items = items and addr = a]) (auto simp: startPods_prepare_def Let_def)
  next
    case False
    then have "d \<noteq> None \<or> (\<exists>e. callbackAddress (cj_client j) (cj_env j) (cj_cfg j) k1 = Inl e)"
      by (metis sum.exhaust)
    with assms Inr n dl show thesis by (cases d; intro aborted [where eid = eid]) (auto simp: startPods_prepare_def Let_def)
  qed
qed

abbreviation pool_run :: "('g, 'k) cronJob \<Rightarrow> 'g sys \<Rightarrow> label list \<Rightarrow> 'g sys \<Rightarrow> bool" where
  "pool_run j \<equiv> run (cj_gauge j) (cj_sort j)"

abbreviation pool_step :: "('g, 'k) cronJob \<Rightarrow> 'g sys \<Rightarrow> label \<Rightarrow> 'g sys \<Rightarrow> bool" where
  "pool_step j \<equiv> step (cj_gauge j) (cj_sort j)"

text \<open>Which steps of the pool a step of the cron job may be; a tick that is skipped is none.\<close>

fun pool_label :: "cron_label \<Rightarrow> label \<Rightarrow> bool" where
  "pool_label (Tick clk) m = (\<exists>n. m = LNew clk n)"
| "pool_label NextJob m = (\<exists>jb. m = LAdd jb)"
| "pool_label Unblocked m = (m = LResume)"
| "pool_label (Finish t) m = (\<exists>eid. m = LAllAdded t eid)"
| "pool_label (PodEnds t eid n ph) m = (m = LTerm t eid n ph)"
| "pool_label (Report t eid n b rs) m = (m = LReport t eid n b rs)"
| "pool_label (WorkerTurn t e w) m = (m = LTurn t e w)"
| "pool_label (Files f) m = (m = LFiles f)"

definition pool_moves :: "('g, 'k) cronJob \<Rightarrow> 'g sys \<Rightarrow> cron_label \<Rightarrow> 'g sys \<Rightarrow> bool" where
  "pool_moves j s l s' \<longleftrightarrow> (\<exists>ms. pool_run j s ms s' \<and> (\<forall>m \<in> set ms. pool_label l m))"

lemma run_one: "pool_step j s m s' \<Longrightarrow> pool_label l m \<Longrightarrow> pool_moves j s l s'"
  unfolding pool_moves_def by (rule exI [of _ "[m]"]) (simp add: run_Cons run_Nil)

lemma run_none [simp]: "pool_moves j s l s"
  unfolding pool_moves_def by (rule exI [of _ "[]"]) (simp add: run_Nil)

text \<open>A pool step that registers nothing.\<close>

lemma cron_ok_frame:
  assumes ok: "cron_ok j x" and st: "pool_step j (cs_sys x) m s'" and l: "pool_label l m"
    and r: "same_reg (s_ctl (cs_sys x)) (s_ctl s')" and cr: "s_created s' = s_created (cs_sys x)"
    and pc: "pc_ok pc' r' s'"
    and x': "x' = x\<lparr>cs_sys := s', cs_cluster := k', cs_pc := pc', cs_running := r'\<rparr>"
  shows "cron_ok j x' \<and> pool_moves j (cs_sys x) l (cs_sys x')"
proof -
  note d = cron_okD [OF ok]
  have "sys_ok s'" by (rule sys_ok_step [OF st d(1)])
  moreover have "pods_ok j (cs_pods x) (s_ctl s')" by (rule pods_ok_same [OF d(3) r])
  moreover have "created_ok (cs_pods x) (cs_created x) s'" by (rule created_ok_same [OF d(4) r cr])
  ultimately show ?thesis using pc run_one [OF st l] by (auto simp: cron_ok_def x')
qed

lemma startPods_job_Inr:
  assumes "startPods_job j eid addr n = Ret (Inr pj)"
  shows "job_for j eid (nd_Name n) pj" and "pj_job pj = \<lparr>job_ID = eid, job_Node = nd_Name n\<rparr>"
proof -
  obtain pod where "New (cj_execute j) (cj_decode j) (cj_setOwner j) (cj_cfg j) (nd_Name n) eid addr
      (Owner (cj_cfg j)) (cj_extender j) = Ret (Inr pod)"
    "pj = \<lparr>pj_id = eid, pj_nodeName = nd_Name n, pj_pod = pod\<rparr>"
  proof -
    from assms obtain z where z: "New (cj_execute j) (cj_decode j) (cj_setOwner j) (cj_cfg j) (nd_Name n) eid addr
        (Owner (cj_cfg j)) (cj_extender j) = Ret z"
      "(case z of Inl e \<Rightarrow> Inl e | Inr pod \<Rightarrow> Inr \<lparr>pj_id = eid, pj_nodeName = nd_Name n, pj_pod = pod\<rparr>) = Inr pj"
      unfolding startPods_job_def go_bind_Ret_iff by blast
    show thesis by (cases z) (use z that in auto)
  qed
  then show "job_for j eid (nd_Name n) pj" and "pj_job pj = \<lparr>job_ID = eid, job_Node = nd_Name n\<rparr>"
    by (auto simp: job_for_def pj_job_def)
qed

text \<open>A pool step that registers the node of a new pod job.\<close>

lemma cron_ok_register:
  assumes ok: "cron_ok j x" and st: "pool_step j (cs_sys x) m s'" and l: "pool_label l m"
    and r: "reg_one e (nd_Name n) (s_ctl (cs_sys x)) (s_ctl s')" and e: "executions (s_ctl (cs_sys x)) eid = Some e"
    and cr: "s_created s' = s_created (cs_sys x)"
    and pj: "startPods_job j eid addr n = Ret (Inr pj)" and lp: "loop_ok (s_ctl (cs_sys x)) eid (n # ns)"
    and pc: "loop_ok (s_ctl s') eid ns \<Longrightarrow> pc_ok pc' (cs_running x) s'"
    and x': "x' = x\<lparr>cs_sys := s', cs_pc := pc', cs_pods := (cs_pods x)((e, nd_Name n) \<mapsto> pj)\<rparr>"
  shows "cron_ok j x' \<and> pool_moves j (cs_sys x) l (cs_sys x')"
proof -
  note d = cron_okD [OF ok]
  have id: "ex_id (heap_ex (s_ctl (cs_sys x)) ! e) = eid"
    using heap_ok_execution [OF sys_okD(1) [OF d(1)] e] by simp
  have "sys_ok s'" by (rule sys_ok_step [OF st d(1)])
  moreover have "pods_ok j ((cs_pods x)((e, nd_Name n) \<mapsto> pj)) (s_ctl s')"
    by (rule reg_one_pods [OF r d(3)]) (use startPods_job_Inr(1) [OF pj] id in simp)
  moreover have "created_ok ((cs_pods x)((e, nd_Name n) \<mapsto> pj)) (cs_created x) s'"
    by (rule reg_one_created [OF r d(4) _ cr]) (use lp e in \<open>auto simp: loop_ok_def\<close>)
  moreover have "pc_ok pc' (cs_running x) s'" by (rule pc [OF reg_one_loop [OF r lp e]])
  ultimately show ?thesis using run_one [OF st l] by (auto simp: cron_ok_def x')
qed

lemma loop_fresh:
  assumes "loop_ok c eid (n # ns)" and "pj_job pj = \<lparr>job_ID = eid, job_Node = nd_Name n\<rparr>"
  shows "fresh_job c (pj_job pj)"
  using assms by (auto simp: loop_ok_def fresh_job_def forID_def split: option.splits)

text \<open>The ticks.\<close>

lemma cron_ok_tick:
  assumes ok: "cron_ok j x" and ll: "list_law (cj_client j)" and r: "\<not> cs_running x"
    and p: "startPods_prepare j clk (s_ctl (cs_sys x)) (s_fs (cs_sys x)) (cs_cluster x) = Ret (c', f', k', pr)"
    and pc: "case pr of Aborted \<Rightarrow> pc' = cs_pc x \<and> r' = cs_running x | Prepared eid addr ns \<Rightarrow> pc' = CLoop eid addr ns \<and> r'"
    and x': "x' = x\<lparr>cs_sys := (cs_sys x)\<lparr>s_ctl := c', s_fs := f'\<rparr>, cs_cluster := k', cs_pc := pc', cs_running := r'\<rparr>"
  shows "cron_ok j x' \<and> pool_moves j (cs_sys x) (Tick clk) (cs_sys x')"
proof -
  note d = cron_okD [OF ok]
  have idle: "cs_pc x = CIdle" "s_pending (cs_sys x) = None" using d(2) r by (cases "cs_pc x"; simp)+
  let ?s' = "(cs_sys x)\<lparr>s_ctl := c', s_fs := f'\<rparr>"
  have step: "pool_step j (cs_sys x) (LNew clk n) ?s'"
    if "NewExecution (cj_gauge j) False clk (s_ctl (cs_sys x)) (s_fs (cs_sys x)) n = Ret (eid, c', f')" for n eid
    by (rule step.new [OF idle(2) that])
  from p show ?thesis
  proof (cases rule: prepare_cases)
    case unlisted
    then have "x' = x\<lparr>cs_cluster := k'\<rparr>" using pc by (simp add: x')
    then show ?thesis using ok by (auto simp: cron_ok_def)
  next
    case (aborted eid n)
    have "pc_ok pc' r' ?s'" using pc aborted(2) idle r by simp
    from cron_ok_frame [OF ok step [OF aborted(1)] _ _ _ this x', of "Tick clk"] same_reg_new(1) [OF aborted(1)] show ?thesis by simp
  next
    case (prepared eid items addr)
    let ?u = "filter (\<lambda>n. isUsable n (RunOnUnscheduledNodes (cj_cfg j))) items"
    have "distinct (map nd_Name items)" using ll prepared(2) by (auto simp: list_law_def)
    then have "distinct (map nd_Name ?u)" by (simp add: distinct_map_filter)
    then have "loop_ok c' eid ?u"
      using same_reg_new(2,3) [OF prepared(1)] by (auto simp: loop_ok_def)
    then have "pc_ok pc' r' ?s'" using pc prepared(3) idle by simp
    from cron_ok_frame [OF ok step [OF prepared(1)] _ _ _ this x', of "Tick clk"] same_reg_new(1) [OF prepared(1)] show ?thesis by simp
  qed
qed

text \<open>The turn of a worker, with the \<open>CreatePod\<close> it may call.\<close>

lemma turn_job_registered:
  assumes ok: "sys_ok s" and e: "e < length (heap_ex (s_ctl s))" and w: "w < length (ex_workers (heap_ex (s_ctl s) ! e))"
    and t: "worker_turn t e w (s_ctl s) = Some (c', Some jb)"
  shows "ex_pods (heap_ex (s_ctl s) ! e) (job_Node jb) \<noteq> None"
proof -
  have wk: "ex_workers (heap_ex (s_ctl s) ! e) ! w = WCreate jb"
    using t by (auto simp: worker_turn_def split: worker.splits list.splits if_splits sum.splits)
  have "pool_inv (is_terminated (s_ctl s)) (created_nodes e s) (pending_nodes e s) (heap_ex (s_ctl s) ! e)"
    using sys_okD(2) [OF ok e] by (simp add: ex_ok_def)
  from pool_inv_dom(1) [OF this] wk w show ?thesis
    by (auto simp: dom_def set_eq_iff) (metis (no_types, lifting) list.set_intros(1) nth_mem option.distinct(1) todo.simps(1))
qed

lemma cron_ok_worker:
  assumes ok: "cron_ok j x" and e: "e < length (heap_ex (s_ctl (cs_sys x)))"
    and w: "w < length (ex_workers (heap_ex (s_ctl (cs_sys x)) ! e))"
    and t: "worker_turn t e w (s_ctl (cs_sys x)) = Some (c', jo)"
    and s': "s' = (cs_sys x)\<lparr>s_ctl := c', s_created := s_created (cs_sys x) @ (case jo of None \<Rightarrow> [] | Some jb \<Rightarrow> [(e, jb)])\<rparr>"
  shows "cron_ok j (create_job j e jo (x\<lparr>cs_sys := s'\<rparr>))
    \<and> pool_moves j (cs_sys x) (WorkerTurn t e w) (cs_sys (create_job j e jo (x\<lparr>cs_sys := s'\<rparr>)))"
proof -
  note d = cron_okD [OF ok]
  have st: "pool_step j (cs_sys x) (LTurn t e w) s'" unfolding s' by (rule step.turn [OF e w t])
  have r: "same_reg (s_ctl (cs_sys x)) (s_ctl s')" "executions (s_ctl s') = executions (s_ctl (cs_sys x))"
    using worker_turn_reg [OF t] by (simp_all add: s')
  have sys: "sys_ok s'" by (rule sys_ok_step [OF st d(1)])
  have pc: "pc_ok (cs_pc x) (cs_running x) s'"
    by (rule pc_ok_same [OF d(2) sys_okD(1) [OF d(1)] r]) (simp add: s')
  have pods: "pods_ok j (cs_pods x) (s_ctl s')" by (rule pods_ok_same [OF d(3) r(1)])
  let ?y = "create_job j e jo (x\<lparr>cs_sys := s'\<rparr>)"
  have y: "cs_sys ?y = s'" "cs_pc ?y = cs_pc x" "cs_running ?y = cs_running x" "cs_pods ?y = cs_pods x"
    by (auto simp: create_job_def split: option.splits)
  have cr: "created_ok (cs_pods x) (cs_created ?y) s'"
  proof (cases jo)
    case None
    then show ?thesis using created_ok_same [OF d(4) r(1)] by (simp add: create_job_def s')
  next
    case (Some jb)
    note reg = turn_job_registered [OF d(1) e w t [unfolded Some]]
    obtain pj where pj: "cs_pods x (e, job_Node jb) = Some pj" "pj_nodeName pj = job_Node jb"
      using d(3) e reg unfolding pods_ok_def job_for_def by blast
    have "ex_pods (heap_ex (s_ctl s') ! e) (job_Node jb) \<noteq> None" "e < length (heap_ex (s_ctl s'))"
      using r(1) e reg by (auto simp: same_reg_def)
    then show ?thesis using created_ok_same [OF d(4), of "s'\<lparr>s_created := s_created (cs_sys x)\<rparr>"] pj Some r(1)
      by (auto simp: created_ok_def create_job_def s' same_reg_def)
  qed
  show ?thesis using sys pc pods cr y run_one [OF st] by (simp add: cron_ok_def)
qed

lemma cstep_ok:
  assumes "cstep j x l x'" and "cron_ok j x" and "list_law (cj_client j)"
  shows "cron_ok j x' \<and> pool_moves j (cs_sys x) l (cs_sys x')"
  using assms(1)
proof cases
  case (tick_skip clk)
  then show ?thesis using assms(2) by simp
next
  case (tick_abort clk c' f' k')
  show ?thesis unfolding tick_abort(1) by (rule cron_ok_tick [OF assms(2,3) tick_abort(3,4)]) (use tick_abort in auto)
next
  case (tick clk c' f' k' eid addr ns)
  show ?thesis unfolding tick(1) by (rule cron_ok_tick [OF assms(2,3) tick(3,4)]) (use tick in auto)
next
  case (next_abort eid addr n ns m)
  then show ?thesis using cron_okD [OF assms(2)] assms(2) by (auto simp: cron_ok_def)
next
  case (next_unknown eid addr n ns pj m)
  have "loop_ok (s_ctl (cs_sys x)) eid ns" using cron_okD(2) [OF assms(2)] next_unknown(3) by (auto simp: loop_ok_def)
  then show ?thesis using cron_okD [OF assms(2)] next_unknown by (auto simp: cron_ok_def)
next
  case (next_added eid addr n ns pj e c')
  note d = cron_okD [OF assms(2)]
  have lp: "s_pending (cs_sys x) = None" "loop_ok (s_ctl (cs_sys x)) eid (n # ns)" "cs_running x"
    using d(2) next_added(3) by simp_all
  note pj = startPods_job_Inr(2) [OF next_added(4)]
  obtain e' where e': "executions (s_ctl (cs_sys x)) eid = Some e'" "reg_one e' (nd_Name n) (s_ctl (cs_sys x)) c'"
    using reg_one_done [OF next_added(6) sys_okD(1) [OF d(1)]] pj by auto
  then have e: "e' = e" using next_added(5) by (simp add: forID_Inr)
  have st: "pool_step j (cs_sys x) (LAdd (pj_job pj)) ((cs_sys x)\<lparr>s_ctl := c'\<rparr>)"
    by (rule step.add [OF lp(1) loop_fresh [OF lp(2) pj] next_added(6)])
  show ?thesis
    by (rule cron_ok_register [OF assms(2) st _ _ e'(1) _ next_added(4) lp(2)]) (use e' e lp next_added(1,2) in auto)
next
  case (next_blocks eid addr n ns pj e c')
  note d = cron_okD [OF assms(2)]
  have lp: "s_pending (cs_sys x) = None" "loop_ok (s_ctl (cs_sys x)) eid (n # ns)" "cs_running x"
    using d(2) next_blocks(3) by simp_all
  note pj = startPods_job_Inr(2) [OF next_blocks(4)]
  have e': "executions (s_ctl (cs_sys x)) eid = Some e" "reg_one e (nd_Name n) (s_ctl (cs_sys x)) c'"
    using reg_one_blocked [OF next_blocks(5) sys_okD(1) [OF d(1)]] pj by auto
  have st: "pool_step j (cs_sys x) (LAdd (pj_job pj)) ((cs_sys x)\<lparr>s_ctl := c', s_pending := Some (e, pj_job pj)\<rparr>)"
    by (rule step.add_blocks [OF lp(1) loop_fresh [OF lp(2) pj] next_blocks(5)])
  show ?thesis
    by (rule cron_ok_register [OF assms(2) st _ _ e'(1) _ next_blocks(4) lp(2)]) (use e' lp next_blocks(1,2) in auto)
next
  case (unblocked eid addr ns e jb c')
  note d = cron_okD [OF assms(2)]
  have c': "c' = upd_ex e (\<lambda>x. x\<lparr>chan_buf := chan_buf x @ [jb]\<rparr>) (s_ctl (cs_sys x))"
    by (rule chan_send_done(3) [OF unblocked(5)])
  have r: "same_reg (s_ctl (cs_sys x)) c'" "executions c' = executions (s_ctl (cs_sys x))"
    by (auto simp: c' upd_ex_def same_reg_def nth_upd)
  have st: "pool_step j (cs_sys x) LResume ((cs_sys x)\<lparr>s_ctl := c', s_pending := None\<rparr>)"
    by (rule step.resume [OF unblocked(4,5)])
  have "loop_ok (s_ctl (cs_sys x)) eid ns" "cs_running x" using d(2) unblocked(3) by simp_all
  then have "pc_ok (CLoop eid addr ns) (cs_running x) ((cs_sys x)\<lparr>s_ctl := c', s_pending := None\<rparr>)"
    using loop_ok_same [OF _ sys_okD(1) [OF d(1)] r] by simp
  from cron_ok_frame [OF assms(2) st _ _ _ this, of l x' "cs_cluster x"] r unblocked(1,2) show ?thesis by simp
next
  case (finish eid addr t c' f' r)
  note d = cron_okD [OF assms(2)]
  have p: "s_pending (cs_sys x) = None" using d(2) finish(3) by simp
  have st: "pool_step j (cs_sys x) (LAllAdded t eid) ((cs_sys x)\<lparr>s_ctl := c', s_fs := f'\<rparr>)"
    by (rule step.all_added [OF p finish(4)])
  from cron_ok_frame [OF assms(2) st, of l CIdle False x' "cs_cluster x"] same_reg_AllAdded [OF finish(4)] p finish(1,2)
  show ?thesis by simp
next
  case (pod_ends t eid n ph c' r)
  note d = cron_okD [OF assms(2)]
  note ef = PodTerminated_effect(1,2) [OF pod_ends(3)]
  have r: "same_reg (s_ctl (cs_sys x)) c'" by (rule same_regI [OF ef(1)])
  have st: "pool_step j (cs_sys x) (LTerm t eid n ph) ((cs_sys x)\<lparr>s_ctl := c'\<rparr>)" by (rule step.terminates [OF pod_ends(3)])
  have "pc_ok (cs_pc x) (cs_running x) ((cs_sys x)\<lparr>s_ctl := c'\<rparr>)"
    by (rule pc_ok_same [OF d(2) sys_okD(1) [OF d(1)]]) (use r ef in simp_all)
  from cron_ok_frame [OF assms(2) st _ _ _ this, of l x' "cs_cluster x"] r pod_ends(1,2) show ?thesis by simp
next
  case (report t eid n b rs c')
  note d = cron_okD [OF assms(2)]
  note ef = ReportReceived_effect(1,2) [OF report(3)]
  have r: "same_reg (s_ctl (cs_sys x)) c'" by (rule same_regI [OF ef(1)])
  have st: "pool_step j (cs_sys x) (LReport t eid n b rs) ((cs_sys x)\<lparr>s_ctl := c'\<rparr>)" by (rule step.reports [OF report(3)])
  have "pc_ok (cs_pc x) (cs_running x) ((cs_sys x)\<lparr>s_ctl := c'\<rparr>)"
    by (rule pc_ok_same [OF d(2) sys_okD(1) [OF d(1)]]) (use r ef in simp_all)
  from cron_ok_frame [OF assms(2) st _ _ _ this, of l x' "cs_cluster x"] r report(1,2) show ?thesis by simp
next
  case (worker e w t c' jo)
  show ?thesis unfolding worker(1,2) by (rule cron_ok_worker [OF assms(2) worker(3-5) refl])
next
  case (files f')
  note d = cron_okD [OF assms(2)]
  have r: "same_reg (s_ctl (cs_sys x)) (s_ctl (cs_sys x))" by (rule same_regI [OF refl])
  have st: "pool_step j (cs_sys x) (LFiles f') ((cs_sys x)\<lparr>s_fs := f'\<rparr>)" by (rule step.files)
  have "pc_ok (cs_pc x) (cs_running x) ((cs_sys x)\<lparr>s_fs := f'\<rparr>)"
    by (rule pc_ok_same [OF d(2) sys_okD(1) [OF d(1)]]) (use r in simp_all)
  from cron_ok_frame [OF assms(2) st _ _ _ this, of l x' "cs_cluster x"] r files(1,2) show ?thesis by simp
qed

text \<open>The cron job refines the pool.\<close>

interpretation cron: refinement "cstep j" "\<lambda>x. cron_ok j x \<and> list_law (cj_client j)"
  "step (cj_gauge j) (cj_sort j)" cs_sys pool_label
proof unfold_locales
  fix x l x'
  assume "cron_ok j x \<and> list_law (cj_client j)" and "cstep j x l x'"
  then show "cron_ok j x' \<and> list_law (cj_client j)"
    and "\<exists>ms. trace (step (cj_gauge j) (cj_sort j)) (cs_sys x) ms (cs_sys x') \<and> (\<forall>m \<in> set ms. pool_label l m)"
    using cstep_ok [of j x l x'] by (auto simp: pool_moves_def run_def)
qed

lemma crun_ok:
  assumes "crun j x ls x'" and "cron_ok j x" and "list_law (cj_client j)"
  shows "cron_ok j x' \<and> (\<exists>ms. pool_run j (cs_sys x) ms (cs_sys x') \<and> (\<forall>m \<in> set ms. \<exists>l \<in> set ls. pool_label l m))"
  using cron.trace_refines [of j x ls x'] cron.concrete.trace_inv [of j x ls x'] assms by (simp add: crun_def run_def)

end
