(* ===== verification/Cron_Properties.thy ===== *)
theory Cron_Properties
  imports Cron_Refinement Job_Properties
begin

text \<open>
  The properties of the cron job: it refines the pool, creates one correct pod per node, and what
  an aborted run leaves behind.
\<close>

section \<open>A run\<close>


definition sample_node :: "string \<Rightarrow> bool \<Rightarrow> Node" where
  "sample_node n r = \<lparr>nd_Name = n, nd_Unschedulable = False,
     nd_Conditions = [\<lparr>nc_Type = NodeReady, nc_Status = (if r then ConditionTrue else ''False'')\<rparr>]\<rparr>"

definition sample_client :: "Pod list client" where
  "sample_client = \<lparr>cl_List = (\<lambda>k sel. Inr [sample_node ''n0'' False, sample_node ''n1'' True]),
     cl_DeleteAllOf = (\<lambda>k ns ls. (None, k)), cl_Get = (\<lambda>k n. Inl ApiNotFound), cl_Create = (\<lambda>k p. (None, k @ [p]))\<rparr>"

definition sample_cron ::
  "(string \<Rightarrow> Pod \<Rightarrow> string + Pod) \<Rightarrow> ((string \<times> string \<times> string list) \<times> (string list \<rightharpoonup> float64), Pod list) cronJob" where
  "sample_cron dec = \<lparr>cj_client = sample_client, cj_cfg = pool_cfg, cj_extender = [], cj_env = [EnvPodIP \<mapsto> ''1.1.1.1''],
     cj_gauge = map_gauge_vec, cj_sort = by_mtime, cj_execute = sample_execute, cj_decode = dec, cj_setOwner = set_owner\<rparr>"

lemma sample_cron_simps [simp]:
  "cj_client (sample_cron dec) = sample_client" "cj_cfg (sample_cron dec) = pool_cfg" "cj_gauge (sample_cron dec) = map_gauge_vec"
  "cj_sort (sample_cron dec) = by_mtime" "cj_execute (sample_cron dec) = sample_execute" "cj_decode (sample_cron dec) = dec"
  "cj_setOwner (sample_cron dec) = set_owner" "cj_extender (sample_cron dec) = []" "cj_env (sample_cron dec) = [EnvPodIP \<mapsto> ''1.1.1.1'']"
  by (simp_all add: sample_cron_def)

lemma sample_list_law: "list_law sample_client"
  by (simp add: list_law_def sample_client_def sample_node_def)

abbreviation sample_cron_init where
  "sample_cron_init dec \<equiv> cron_init (sample_cron dec) (sample_collector sample_cfg) sample_fs []"

lemma sample_prepare:
  "\<exists>c1. startPods_prepare (sample_cron dec) sample_clock (NewController pool_cfg (sample_collector sample_cfg)) sample_fs []
      = Ret (c1, prepare_dirs False 5000000000 ''/var/www'' the_id sample_fs, [], Prepared the_id ''1.1.1.1'' [sample_node ''n1'' True])
    \<and> heap_ex c1 = [the_ex Map.empty [] False WIdle] \<and> heap_pod c1 = [] \<and> executions c1 = [the_id \<mapsto> 0]
    \<and> reportDir c1 = ''/var/www'' \<and> reportHistory c1 = 3 \<and> col_wf map_gauge_vec (prom c1)"
proof -
  have u: "filter (\<lambda>n. isUsable n r) [sample_node ''n0'' False, sample_node ''n1'' True] = [sample_node ''n1'' True]" for r
    by (simp add: isUsable_def sample_node_def ConditionTrue_def)
  show ?thesis
    using example_new [of "int (length [sample_node ''n1'' True])"]
    by (auto simp: startPods_prepare_def Let_def u sample_client_def deleteAll_def callbackAddress_def
        simp del: filter.simps) 
qed

definition cron_looping :: "(string \<Rightarrow> Pod \<Rightarrow> string + Pod) \<Rightarrow>
   ((string \<times> string \<times> string list) \<times> (string list \<rightharpoonup> float64)) controller \<Rightarrow>
   ((string \<times> string \<times> string list) \<times> (string list \<rightharpoonup> float64), Pod list) cron_sys" where
  "cron_looping dec c1 = (sample_cron_init dec)\<lparr>cs_sys := (init pool_cfg (sample_collector sample_cfg) sample_fs)
      \<lparr>s_ctl := c1, s_fs := prepare_dirs False 5000000000 ''/var/www'' the_id sample_fs\<rparr>,
      cs_cluster := [], cs_pc := CLoop the_id ''1.1.1.1'' [sample_node ''n1'' True], cs_running := True\<rparr>"

lemma sample_tick:
  "\<exists>c1. cstep (sample_cron dec) (sample_cron_init dec) (Tick sample_clock) (cron_looping dec c1)
    \<and> heap_ex c1 = [the_ex Map.empty [] False WIdle] \<and> heap_pod c1 = [] \<and> executions c1 = [the_id \<mapsto> 0]
    \<and> reportDir c1 = ''/var/www'' \<and> reportHistory c1 = 3 \<and> col_wf map_gauge_vec (prom c1)"
proof -
  obtain c1 where c1: "startPods_prepare (sample_cron dec) sample_clock (NewController pool_cfg (sample_collector sample_cfg)) sample_fs []
      = Ret (c1, prepare_dirs False 5000000000 ''/var/www'' the_id sample_fs, [], Prepared the_id ''1.1.1.1'' [sample_node ''n1'' True])"
    and h: "heap_ex c1 = [the_ex Map.empty [] False WIdle]" "heap_pod c1 = []" "executions c1 = [the_id \<mapsto> 0]"
      "reportDir c1 = ''/var/www''" "reportHistory c1 = 3" "col_wf map_gauge_vec (prom c1)" using sample_prepare by blast
  have "cstep (sample_cron dec) (sample_cron_init dec) (Tick sample_clock) (cron_looping dec c1)"
    using cstep.tick [of "sample_cron_init dec" "sample_cron dec" sample_clock c1] c1
    by (simp add: cron_init_def init_def cron_looping_def)
  with h show ?thesis by blast
qed

section \<open>Refinement\<close>

text \<open>
  C12. The cron job refines the pool. Every state it reaches is, in its controller, file
  system and blocked send, a state the pool reaches: each of its steps is a step of the pool (a tick
  starts an execution, the loop adds a job, its end adds all) or none, its jobs are always new to their execution, and it never calls the controller while
  \<open>AddPod\<close> is blocked. While a run is in progress \<open>running\<close> is set, and a tick then does nothing.
\<close>

theorem cron_refines_pool:
  assumes "crun j (cron_init j prm f k) ls x" and "list_law (cj_client j)"
  shows "(\<exists>pls. run (cj_gauge j) (cj_sort j) (init (cj_cfg j) prm f) pls (cs_sys x)
        \<and> (\<forall>m \<in> set pls. \<exists>l \<in> set ls. pool_label l m))
    \<and> (cs_running x \<longleftrightarrow> cs_pc x \<noteq> CIdle)
    \<and> (s_pending (cs_sys x) \<noteq> None \<longleftrightarrow> (\<exists>eid addr ns. cs_pc x = CBlocked eid addr ns))
    \<and> (\<forall>clk x'. cs_pc x \<noteq> CIdle \<longrightarrow> cstep j x (Tick clk) x' \<longrightarrow> x' = x)"
proof -
  note r = crun_ok [OF assms(1) cron_ok_init assms(2)]
  have "cs_sys (cron_init j prm f k) = init (cj_cfg j) prm f" by (simp add: cron_init_def)
  moreover have "pc_ok (cs_pc x) (cs_running x) (cs_sys x)" using r cron_okD(2) by blast
  then have pc: "cs_running x \<longleftrightarrow> cs_pc x \<noteq> CIdle"
    "s_pending (cs_sys x) \<noteq> None \<longleftrightarrow> (\<exists>eid addr ns. cs_pc x = CBlocked eid addr ns)"
    by (cases "cs_pc x"; simp)+
  moreover have "x' = x" if "cs_running x" "cstep j x (Tick clk) x'" for clk x'
    using that(2,1) by (cases rule: cstep_TickE) auto
  ultimately show ?thesis using r by auto
qed

theorem cron_refines_pool_witness:
  "\<exists>x pls. crun (sample_cron sample_template) (sample_cron_init sample_template) [Tick sample_clock] x \<and> cs_running x
     \<and> run map_gauge_vec by_mtime (init pool_cfg (sample_collector sample_cfg) sample_fs) pls (cs_sys x)"
proof -
  obtain c1 where "cstep (sample_cron sample_template) (sample_cron_init sample_template) (Tick sample_clock) (cron_looping sample_template c1)"
    using sample_tick by blast
  then have r: "crun (sample_cron sample_template) (sample_cron_init sample_template) [Tick sample_clock] (cron_looping sample_template c1)"
    using crun_Cons crun_Nil by blast
  have l: "list_law (cj_client (sample_cron sample_template))" using sample_list_law by simp
  obtain pls where "pool_run (sample_cron sample_template) (init (cj_cfg (sample_cron sample_template)) (sample_collector sample_cfg) sample_fs)
      pls (cs_sys (cron_looping sample_template c1))"
    using cron_refines_pool [OF r l] by blast
  then have "run map_gauge_vec by_mtime (init pool_cfg (sample_collector sample_cfg) sample_fs) pls (cs_sys (cron_looping sample_template c1))"
    by simp
  moreover have "cs_running (cron_looping sample_template c1)" by (simp add: cron_looping_def)
  ultimately show ?thesis using r by blast
qed

section \<open>One pod per node\<close>

definition created_pods :: "nat \<Rightarrow> ('g, 'k) cron_sys \<Rightarrow> Pod list" where
  "created_pods e x = map (pj_pod \<circ> snd) (filter (\<lambda>(e', _). e' = e) (cs_created x))"

lemma created_pods_nodes:
  assumes "created_ok m cr s"
  shows "map (pj_nodeName \<circ> snd) (filter (\<lambda>(e', _). e' = e) cr) = created_nodes e s"
proof -
  have 1: "map (pj_nodeName \<circ> snd) (filter (\<lambda>(e', _). e' = e) cr) =
      map snd (filter (\<lambda>(e', _). e' = e) (map (\<lambda>(e, pj). (e, pj_nodeName pj)) cr))" for cr :: "(nat \<times> podJob) list"
    by (induction cr) auto
  have 2: "map snd (filter (\<lambda>(e', _). e' = e) (map (\<lambda>(e, jb). (e, job_Node jb)) js)) =
      map (\<lambda>(_, j). job_Node j) (filter (\<lambda>(e', _). e' = e) js)" for js :: "(nat \<times> Job) list"
    by (induction js) auto
  have 3: "map (\<lambda>(e, pj). (e, pj_nodeName pj)) cr = map (\<lambda>(e, jb). (e, job_Node jb)) (s_created s)"
    using assms unfolding created_ok_def by blast
  show ?thesis unfolding 1 3 2 created_nodes_def ..
qed

text \<open>The pod of a creation that was requested.\<close>

lemma created_pod:
  assumes "cron_ok j x" and "owner_law (cj_setOwner j)" and "e < length (heap_ex (s_ctl (cs_sys x)))"
    and c: "(e, pj) \<in> set (cs_created x)"
  defines "eid \<equiv> ex_id (heap_ex (s_ctl (cs_sys x)) ! e)"
  shows "pd_NodeName (pj_pod pj) = pj_nodeName pj \<and> pd_Name (pj_pod pj) = PodName (cj_cfg j) (pj_nodeName pj) eid
      \<and> pd_Namespace (pj_pod pj) = Namespace (cj_cfg j)
      \<and> label_of (pj_pod pj) LabelExecutionID = eid \<and> label_of (pj_pod pj) LabelOwner = cfg_Name (cj_cfg j)"
proof -
  note d = cron_okD [OF assms(1)]
  have "ex_pods (heap_ex (s_ctl (cs_sys x)) ! e) (pj_nodeName pj) \<noteq> None" "cs_pods x (e, pj_nodeName pj) = Some pj"
    using d(4) c by (auto simp: created_ok_def)
  with d(3) assms(3) have "job_for j eid (pj_nodeName pj) pj"
    unfolding pods_ok_def eid_def by fastforce
  then obtain addr where n: "New (cj_execute j) (cj_decode j) (cj_setOwner j) (cj_cfg j) (pj_nodeName pj) eid addr
      (Owner (cj_cfg j)) (cj_extender j) = Ret (Inr (pj_pod pj))" by (auto simp: job_for_def)
  obtain ls where "pd_Labels (pj_pod pj) = Some (ls(LabelExecutionID \<mapsto> eid, LabelOwner \<mapsto> cfg_Name (cj_cfg j)))"
    "pd_NodeName (pj_pod pj) = pj_nodeName pj" "pd_Name (pj_pod pj) = PodName (cj_cfg j) (pj_nodeName pj) eid"
    "pd_Namespace (pj_pod pj) = Namespace (cj_cfg j)"
    by (rule New_pod [OF assms(2) n]) (rule that, assumption+)
  then show ?thesis using LabelOwner_ne by (auto simp: label_of_def)
qed

lemma created_pods_of:
  assumes "cron_ok j x" and "owner_law (cj_setOwner j)" and "e < length (heap_ex (s_ctl (cs_sys x)))"
  shows "map pd_NodeName (created_pods e x) = created_nodes e (cs_sys x)"
proof -
  have "map pd_NodeName (created_pods e x) = map (pj_nodeName \<circ> snd) (filter (\<lambda>(e', _). e' = e) (cs_created x))"
    unfolding created_pods_def using created_pod [OF assms] by auto
  then show ?thesis using created_pods_nodes [OF cron_okD(4) [OF assms(1)]] by simp
qed

text \<open>
  C14. The pods created in the cluster. In every state the cron job reaches, the pods whose
  creation was requested for an execution are on distinct nodes, each is named after its node and
  execution and carries the labels of this controller and of exactly this execution, so that the
  event filter, the reconciler and \<open>deleteAll\<close> find it.
\<close>

theorem cron_creates:
  assumes "crun j (cron_init j prm f k) ls x" and "list_law (cj_client j)" and "owner_law (cj_setOwner j)"
    and "e < length (heap_ex (s_ctl (cs_sys x)))"
  defines "eid \<equiv> ex_id (heap_ex (s_ctl (cs_sys x)) ! e)"
  shows "distinct (map pd_NodeName (created_pods e x))
    \<and> map pd_NodeName (created_pods e x) = created_nodes e (cs_sys x)
    \<and> (\<forall>p \<in> set (created_pods e x). pd_Name p = PodName (cj_cfg j) (pd_NodeName p) eid
         \<and> pd_Namespace p = Namespace (cj_cfg j)
         \<and> label_of p LabelExecutionID = eid \<and> label_of p LabelOwner = cfg_Name (cj_cfg j))"
proof -
  have ok: "cron_ok j x" using crun_ok [OF assms(1) cron_ok_init assms(2)] by blast
  note m = created_pods_of [OF ok assms(3,4)]
  have "ex_ok (cs_sys x) e" by (rule sys_okD(2) [OF cron_okD(1) [OF ok] assms(4)])
  then have "distinct (created_nodes e (cs_sys x))" unfolding ex_ok_def using pool_inv_dom(2) by blast
  with m created_pod [OF ok assms(3,4)] show ?thesis by (auto simp: created_pods_def eid_def)
qed

lemma sample_created:
  "\<exists>ls x. crun (sample_cron sample_template) (sample_cron_init sample_template) ls x
     \<and> heap_ex (s_ctl (cs_sys x)) = [the_ex [''n1'' \<mapsto> 0] [] False (WStart (job_on ''n1''))]
     \<and> length (created_pods 0 x) = 1 \<and> length (cs_cluster x) = 1
     \<and> list_all internal ls \<and> heap_pod (s_ctl (cs_sys x)) = [new_pod ''n1''] \<and> executions (s_ctl (cs_sys x)) = [the_id \<mapsto> 0]
     \<and> reportDir (s_ctl (cs_sys x)) = ''/var/www'' \<and> reportHistory (s_ctl (cs_sys x)) = 3
     \<and> col_wf map_gauge_vec (prom (s_ctl (cs_sys x))) \<and> s_fs (cs_sys x) = dirs_fs
     \<and> cs_pc x = CLoop the_id ''1.1.1.1'' []"
proof -
  let ?j = "sample_cron sample_template"
  obtain c1 where t: "cstep ?j (sample_cron_init sample_template) (Tick sample_clock) (cron_looping sample_template c1)"
    and h1: "heap_ex c1 = [the_ex Map.empty [] False WIdle]" "heap_pod c1 = []" "executions c1 = [the_id \<mapsto> 0]"
      "reportDir c1 = ''/var/www''" "reportHistory c1 = 3" and wf: "col_wf map_gauge_vec (prom c1)" using sample_tick by blast
  let ?x1 = "cron_looping sample_template c1"
  have x1: "cs_pc ?x1 = CLoop the_id ''1.1.1.1'' [sample_node ''n1'' True]" "s_ctl (cs_sys ?x1) = c1" "cs_created ?x1 = []"
    "cs_cluster ?x1 = []" "cs_pods ?x1 = Map.empty" by (simp_all add: cron_looping_def cron_init_def)
  obtain pod where "New sample_execute sample_template set_owner pool_cfg ''n1'' the_id ''1.1.1.1'' (Owner pool_cfg) [] = Ret (Inr pod)"
    by (simp add: New_def sample_execute_def sample_template_def Let_def)
  then have pj: "startPods_job ?j the_id ''1.1.1.1'' (sample_node ''n1'' True) =
      Ret (Inr \<lparr>pj_id = the_id, pj_nodeName = ''n1'', pj_pod = pod\<rparr>)" (is "_ = Ret (Inr ?pj)")
    by (simp add: startPods_job_def sample_node_def)
  have jb: "pj_job ?pj = job_on ''n1''" by (simp add: pj_job_def job_on_def)
  obtain c2 where a2: "AddPod c1 (job_on ''n1'') = AddDone c2"
    and h2: "heap_ex c2 = [the_ex [''n1'' \<mapsto> 0] [job_on ''n1''] False WIdle]"
    and g2: "heap_pod c2 = [new_pod ''n1'']" "executions c2 = [the_id \<mapsto> 0]" "reportDir c2 = ''/var/www''" "reportHistory c2 = 3"
      "prom c2 = prom c1" using example_add [OF h1] by blast
  define x2 where "x2 = ?x1\<lparr>cs_sys := (cs_sys ?x1)\<lparr>s_ctl := c2\<rparr>, cs_pc := CLoop the_id ''1.1.1.1'' [],
      cs_pods := [(0, ''n1'') \<mapsto> ?pj]\<rparr>"
  have f: "forID c1 the_id = Inr 0" by (simp add: forID_def h1)
  have s2: "cstep ?j ?x1 NextJob x2"
    using cstep.next_added [OF x1(1) pj, of 0 c2] f a2 by (simp add: x1 jb x2_def sample_node_def)
  define c3 where "c3 = set_worker 0 0 (WCreate (job_on ''n1'')) (upd_ex 0 (\<lambda>x. x\<lparr>chan_buf := []\<rparr>) c2)"
  have h3: "heap_ex c3 = [the_ex [''n1'' \<mapsto> 0] [] False (WCreate (job_on ''n1''))]"
    by (simp add: c3_def h2 set_worker_def upd_ex_def the_ex_def)
  define x3 where "x3 = x2\<lparr>cs_sys := (cs_sys x2)\<lparr>s_ctl := c3\<rparr>\<rparr>"
  have s3: "cstep ?j x2 (WorkerTurn 7 0 0) x3"
  proof -
    have "s_ctl (cs_sys x2) = c2" by (simp add: x2_def)
    moreover have "worker_turn 7 0 0 c2 = Some (c3, None)"
      by (simp add: worker_turn_def h2 the_ex_def c3_def)
    ultimately show ?thesis
      using cstep.worker [of 0 x2 0 7 c3 None ?j] by (simp add: h2 the_ex_def create_job_def x3_def)
  qed
  define c4 where "c4 = set_worker 0 0 (WStart (job_on ''n1'')) c3"
  have h4: "heap_ex c4 = [the_ex [''n1'' \<mapsto> 0] [] False (WStart (job_on ''n1''))]"
    by (simp add: c4_def h3 set_worker_def upd_ex_def the_ex_def)
  define x4 where "x4 = x3\<lparr>cs_sys := (cs_sys x3)\<lparr>s_ctl := c4, s_created := s_created (cs_sys x3) @ [(0, job_on ''n1'')]\<rparr>,
      cs_cluster := [pod], cs_created := [(0, ?pj)]\<rparr>"
  have s4: "cstep ?j x3 (WorkerTurn 7 0 0) x4"
  proof -
    have "s_ctl (cs_sys x3) = c3" "cs_pods x3 (0, ''n1'') = Some ?pj" "cs_created x3 = []" "cs_cluster x3 = []"
      by (simp_all add: x3_def x2_def x1)
    moreover have "worker_turn 7 0 0 c3 = Some (c4, Some (job_on ''n1''))"
      by (simp add: worker_turn_def h3 the_ex_def c4_def)
    moreover have "job_Node (job_on ''n1'') = ''n1''" by (simp add: job_on_def)
    ultimately show ?thesis
      using cstep.worker [of 0 x3 0 7 c4 "Some (job_on ''n1'')" ?j]
      by (simp add: h3 the_ex_def create_job_def x4_def CreatePod_def sample_client_def)
  qed
  have "crun ?j (sample_cron_init sample_template) [Tick sample_clock, NextJob, WorkerTurn 7 0 0, WorkerTurn 7 0 0] x4"
    by (intro crun_Cons [OF t] crun_Cons [OF s2] crun_Cons [OF s3] crun_Cons [OF s4] crun_Nil)
  moreover have "list_all internal [Tick sample_clock, NextJob, WorkerTurn 7 0 0, WorkerTurn 7 0 0]" by simp
  moreover have "heap_ex (s_ctl (cs_sys x4)) = [the_ex [''n1'' \<mapsto> 0] [] False (WStart (job_on ''n1''))]"
    "length (created_pods 0 x4) = 1" "length (cs_cluster x4) = 1"
    by (simp_all add: x4_def h4 created_pods_def)
  moreover have "s_ctl (cs_sys x4) = c4" "s_fs (cs_sys x4) = dirs_fs" "cs_pc x4 = CLoop the_id ''1.1.1.1'' []"
    by (simp_all add: x4_def x3_def x2_def cron_looping_def dirs_fs_def)
  moreover have "heap_pod c4 = heap_pod c2" "executions c4 = executions c2" "reportDir c4 = reportDir c2"
    "reportHistory c4 = reportHistory c2" "prom c4 = prom c2"
    by (simp_all add: c4_def c3_def set_worker_def)
  ultimately show ?thesis using g2 wf
    by (intro exI [of _ "[Tick sample_clock, NextJob, WorkerTurn 7 0 0, WorkerTurn 7 0 0]"] exI [of _ x4]) simp
qed

theorem cron_creates_witness:
  "\<exists>ls x. crun (sample_cron sample_template) (sample_cron_init sample_template) ls x
     \<and> map pd_NodeName (created_pods 0 x) = [''n1''] \<and> length (cs_cluster x) = 1
     \<and> (\<forall>p \<in> set (created_pods 0 x). pd_Name p = ''ctl-job-n1-202405170930'')"
proof -
  obtain ls x where x: "crun (sample_cron sample_template) (sample_cron_init sample_template) ls x"
    and h: "heap_ex (s_ctl (cs_sys x)) = [the_ex [''n1'' \<mapsto> 0] [] False (WStart (job_on ''n1''))]"
      "length (created_pods 0 x) = 1" "length (cs_cluster x) = 1" using sample_created by blast
  have l: "list_law (cj_client (sample_cron sample_template))" "owner_law (cj_setOwner (sample_cron sample_template))"
    using sample_list_law owner_law_set_owner by simp_all
  have e: "0 < length (heap_ex (s_ctl (cs_sys x)))" "ex_id (heap_ex (s_ctl (cs_sys x)) ! 0) = the_id"
    by (simp_all add: h the_ex_def)
  note c = cron_creates [OF x l e(1), unfolded e(2)]
  obtain ls' where r: "prun pool_init ls' (cs_sys x)"
    using crun_ok [OF x cron_ok_init l(1)] by (auto simp: cron_init_def)
  have "set (created_nodes 0 (cs_sys x)) \<subseteq> dom (ex_pods (heap_ex (s_ctl (cs_sys x)) ! 0))"
    using pool_inv_dom(1) [OF reachable_pool(1) [OF r e(1)]] by blast
  then have "set (created_nodes 0 (cs_sys x)) \<subseteq> {''n1''}" by (simp add: h the_ex_def)
  moreover have "length (created_nodes 0 (cs_sys x)) = 1" using c h(2) by (metis length_map)
  ultimately have n: "created_nodes 0 (cs_sys x) = [''n1'']" by (cases "created_nodes 0 (cs_sys x)") auto
  then have "pd_NodeName p = ''n1''" if "p \<in> set (created_pods 0 x)" for p
    using c that by (metis (no_types, lifting) empty_iff empty_set image_eqI list.set_map set_ConsD)
  then have "\<forall>p \<in> set (created_pods 0 x). pd_Name p = ''ctl-job-n1-202405170930''"
    using c by (auto simp: PodName_eq pool_cfg_def sample_cfg_def the_id_def)
  with x c n h(3) show ?thesis by metis
qed

section \<open>An aborted run\<close>

fun loop_id :: "cron_pc \<Rightarrow> string option" where
  "loop_id CIdle = None"
| "loop_id (CLoop eid addr ns) = Some eid"
| "loop_id (CBlocked eid addr ns) = Some eid"

definition chan_open :: "'g controller \<Rightarrow> nat \<Rightarrow> bool" where
  "chan_open c e \<longleftrightarrow> e < length (heap_ex c) \<and> \<not> chan_closed (heap_ex c ! e)"

text \<open>
  The channel of the run in progress is open, and so are the channels of \<open>E\<close>, which do not
  belong to it.
\<close>

definition open_inv :: "nat set \<Rightarrow> ('g, 'k) cron_sys \<Rightarrow> bool" where
  "open_inv E x \<longleftrightarrow> (\<forall>e \<in> E. chan_open (s_ctl (cs_sys x)) e)
     \<and> (\<forall>eid. loop_id (cs_pc x) = Some eid \<longrightarrow>
          (\<exists>e. executions (s_ctl (cs_sys x)) eid = Some e \<and> chan_open (s_ctl (cs_sys x)) e \<and> e \<notin> E))"

definition open_same :: "'g controller \<Rightarrow> 'g controller \<Rightarrow> bool" where
  "open_same c c' \<longleftrightarrow> (\<forall>e. chan_open c e \<longrightarrow> chan_open c' e)"

lemma open_same_heap: "heap_ex c' = heap_ex c \<Longrightarrow> open_same c c'"
  by (simp add: open_same_def chan_open_def)

lemma open_same_update: "heap_ex c' = (heap_ex c)[e := x] \<Longrightarrow> chan_closed x = chan_closed (heap_ex c ! e) \<Longrightarrow> open_same c c'"
  by (auto simp: open_same_def chan_open_def nth_upd)

lemma open_inv_frame:
  assumes "open_inv E x" and "open_same (s_ctl (cs_sys x)) (s_ctl (cs_sys x'))"
    and "executions (s_ctl (cs_sys x')) = executions (s_ctl (cs_sys x))" and "loop_id (cs_pc x') = loop_id (cs_pc x)"
  shows "open_inv E x'"
  using assms unfolding open_inv_def open_same_def by metis

lemma worker_turn_open:
  assumes "worker_turn t e w c = Some (c', jo)"
  shows "open_same c c'" "executions c' = executions c"
  using assms
  by (auto simp: worker_turn_def open_same_def chan_open_def set_worker_def upd_ex_def upd_pod_def addProgress_def nth_upd
      split: worker.splits list.splits if_splits sum.splits)

lemma AddPod_open:
  assumes "AddPod c jb = AddDone c' \<or> AddPod c jb = AddBlocked e c'"
  shows "open_same c c'" "executions c' = executions c"
  using assms
  by (auto simp: AddPod_def chan_send_def register_pod_def upd_ex_def Let_def open_same_def chan_open_def nth_upd
      split: sum.splits if_splits)

lemma AllAdded_open:
  assumes "AllAdded gv sortf t c s eid = Ret (c', s', r)" and "executions c eid \<noteq> Some e" and "chan_open c e"
  shows "chan_open c' e"
  using AllAdded_effect(4) [OF assms(1)] assms(2,3) by (auto simp: chan_open_def nth_upd)

lemma NewExecution_open:
  assumes "NewExecution gv w clk c s n = Ret (eid, c', s')"
  shows "open_same c c'" "chan_open c' (length (heap_ex c))"
  using assms by (auto elim!: NewExecution_cases simp: open_same_def chan_open_def nth_append)

lemma open_inv_tick:
  assumes "open_inv E x" and "\<not> cs_running x" and "pc_ok (cs_pc x) (cs_running x) (cs_sys x)"
    and p: "startPods_prepare j clk (s_ctl (cs_sys x)) (s_fs (cs_sys x)) (cs_cluster x) = Ret (c', f', k', pr)"
    and c': "s_ctl (cs_sys x') = c'"
    and pc: "case pr of Aborted \<Rightarrow> cs_pc x' = cs_pc x | Prepared eid addr ns \<Rightarrow> cs_pc x' = CLoop eid addr ns"
  shows "open_inv E x'"
proof -
  have idle: "cs_pc x = CIdle" using assms(2,3) by (cases "cs_pc x") auto
  have E: "\<forall>e \<in> E. chan_open (s_ctl (cs_sys x)) e" using assms(1) by (simp add: open_inv_def)
  from p show ?thesis
  proof (cases rule: prepare_cases)
    case unlisted
    then show ?thesis using E pc idle c' by (simp add: open_inv_def)
  next
    case (aborted eid n)
    with E pc idle c' NewExecution_open(1) [OF aborted(1)] show ?thesis by (simp add: open_inv_def open_same_def)
  next
    case (prepared eid items addr)
    have "length (heap_ex (s_ctl (cs_sys x))) \<notin> E" using E by (auto simp: chan_open_def)
    with E pc prepared(3) c' NewExecution_open [OF prepared(1)] same_reg_new(2) [OF prepared(1)] show ?thesis
      by (simp add: open_inv_def open_same_def)
  qed
qed

lemma cstep_open:
  assumes "cstep j x l x'" and "cron_ok j x" and "open_inv E x"
  shows "open_inv E x'"
proof -
  note pc = cron_okD(2) [OF assms(2)]
  from assms(1) show ?thesis
  proof cases
    case (tick_skip clk)
    then show ?thesis using assms(3) by simp
  next
    case (tick_abort clk c' f' k')
    show ?thesis by (rule open_inv_tick [OF assms(3) tick_abort(3) pc tick_abort(4)]) (simp_all add: tick_abort(2))
  next
    case (tick clk c' f' k' eid addr ns)
    show ?thesis by (rule open_inv_tick [OF assms(3) tick(3) pc tick(4)]) (simp_all add: tick(2))
  next
    case (next_abort eid addr n ns m)
    then show ?thesis using assms(3) by (simp add: open_inv_def)
  next
    case (next_unknown eid addr n ns pj m)
    then show ?thesis using assms(3) by (simp add: open_inv_def)
  next
    case (next_added eid addr n ns pj e c')
    show ?thesis by (rule open_inv_frame [OF assms(3)]) (use AddPod_open [OF disjI1 [OF next_added(6)]] next_added(2,3) in simp_all)
  next
    case (next_blocks eid addr n ns pj e c')
    show ?thesis by (rule open_inv_frame [OF assms(3)]) (use AddPod_open [OF disjI2 [OF next_blocks(5)]] next_blocks(2,3) in simp_all)
  next
    case (unblocked eid addr ns e jb c')
    have c': "c' = upd_ex e (\<lambda>x. x\<lparr>chan_buf := chan_buf x @ [jb]\<rparr>) (s_ctl (cs_sys x))"
      by (rule chan_send_done(3) [OF unblocked(5)])
    have "open_same (s_ctl (cs_sys x)) c'" by (auto simp: c' upd_ex_def open_same_def chan_open_def nth_upd)
    moreover have "executions c' = executions (s_ctl (cs_sys x))" by (simp add: c' upd_ex_def)
    ultimately show ?thesis by (intro open_inv_frame [OF assms(3)]) (simp_all add: unblocked(2,3))
  next
    case (finish eid addr t c' f' r)
    obtain e where "executions (s_ctl (cs_sys x)) eid = Some e" "e \<notin> E"
      using assms(3) finish(3) by (auto simp: open_inv_def)
    then have "chan_open c' a" if "a \<in> E" for a
      using AllAdded_open [OF finish(4), of a] that assms(3) by (auto simp: open_inv_def)
    then show ?thesis by (simp add: open_inv_def finish(2))
  next
    case (pod_ends t eid n ph c' r)
    show ?thesis by (rule open_inv_frame [OF assms(3)])
      (use PodTerminated_effect(1,2) [OF pod_ends(3)] open_same_heap pod_ends(2) in simp_all)
  next
    case (report t eid n b rs c')
    show ?thesis by (rule open_inv_frame [OF assms(3)])
      (use ReportReceived_effect(1,2) [OF report(3)] open_same_heap report(2) in simp_all)
  next
    case (worker e w t c' jo)
    have y: "s_ctl (cs_sys x') = c'" "cs_pc x' = cs_pc x"
      by (auto simp: worker(2) create_job_def split: option.splits)
    show ?thesis by (rule open_inv_frame [OF assms(3)]) (use worker_turn_open [OF worker(5)] y in simp_all)
  next
    case (files f')
    show ?thesis by (rule open_inv_frame [OF assms(3)]) (use open_same_heap [OF refl] files(2) in simp_all)
  qed
qed

interpretation opens: step_invariant "cstep j" "\<lambda>x. cron_ok j x \<and> list_law (cj_client j) \<and> open_inv E x"
  using cstep_ok cstep_open by unfold_locales blast

lemma crun_open:
  assumes "crun j x ls x'" and "cron_ok j x" and "list_law (cj_client j)" and "open_inv E x"
  shows "open_inv E x'"
  using opens.trace_inv [of j x ls x' E] assms by (simp add: crun_def)

text \<open>
  C38. An aborted run leaks its workers. When the pod of a node cannot be made from the
  template, \<open>startPods\<close> returns without \<open>AllAdded\<close>: the channel of the execution is never
  closed, in any later state, so none of its \<open>podPoolSize\<close> worker goroutines ever returns.
\<close>

theorem cron_abort_leaks:
  assumes "crun j (cron_init j prm f k) ls x" and "list_law (cj_client j)"
    and "cs_pc x = CLoop eid addr (n # ns)" and "startPods_job j eid addr n = Ret (Inl m)"
    and "forID (s_ctl (cs_sys x)) eid = Inr e" and "cstep j x NextJob x1" and "crun j x1 ls' x2"
  shows "\<not> chan_closed (heap_ex (s_ctl (cs_sys x2)) ! e)
    \<and> WExit \<notin> set (ex_workers (heap_ex (s_ctl (cs_sys x2)) ! e))
    \<and> length (ex_workers (heap_ex (s_ctl (cs_sys x2)) ! e)) = nat (PodPoolSize (cj_cfg j))"
proof -
  have i0: "open_inv {} (cron_init j prm f k)" by (simp add: open_inv_def cron_init_def)
  have i: "open_inv {} x" by (rule crun_open [OF assms(1) cron_ok_init assms(2) i0])
  have ok: "cron_ok j x" using crun_ok [OF assms(1) cron_ok_init assms(2)] by blast
  have op: "chan_open (s_ctl (cs_sys x)) e" using i assms(3,5) by (auto simp: open_inv_def forID_Inr)
  have x1: "x1 = x\<lparr>cs_pc := CIdle, cs_running := False\<rparr>"
    using assms(6) by cases (use assms(3,4) in auto)
  have "open_inv {e} x1" using op by (simp add: x1 open_inv_def)
  moreover have ok1: "cron_ok j x1" using cstep_ok [OF assms(6) ok assms(2)] by blast
  ultimately have i2: "open_inv {e} x2" using crun_open [OF assms(7) _ assms(2)] by blast
  then have c: "e < length (heap_ex (s_ctl (cs_sys x2)))" "\<not> chan_closed (heap_ex (s_ctl (cs_sys x2)) ! e)"
    by (auto simp: open_inv_def chan_open_def)
  obtain pls where "pool_run j (init (cj_cfg j) prm f) pls (cs_sys x)"
    using crun_ok [OF assms(1) cron_ok_init assms(2)] by (auto simp: cron_init_def)
  moreover obtain pls' where "pool_run j (cs_sys x1) pls' (cs_sys x2)" using crun_ok [OF assms(7) ok1 assms(2)] by blast
  moreover have "cs_sys x1 = cs_sys x" by (simp add: x1)
  ultimately obtain qls where r: "pool_run j (init (cj_cfg j) prm f) qls (cs_sys x2)" using run_append by metis
  note p = reachable_pool [OF r c(1)]
  have "podPoolSize (s_ctl (cs_sys x2)) = PodPoolSize (cj_cfg j)"
    using run_podPoolSize [OF r] by (simp add: init_def NewController_def)
  then show ?thesis using c(2) pool_invD(1) [OF p(1)] p(2) pool_invD(5) [OF p(1), of WExit] by auto
qed

definition no_template :: "string \<Rightarrow> Pod \<Rightarrow> string + Pod" where
  "no_template buf p = Inl ''yaml: line 1''"

theorem cron_abort_leaks_witness:
  "\<exists>x x1. crun (sample_cron no_template) (sample_cron_init no_template) [Tick sample_clock] x
     \<and> cstep (sample_cron no_template) x NextJob x1 \<and> \<not> cs_running x1
     \<and> (\<forall>ls x2. crun (sample_cron no_template) x1 ls x2 \<longrightarrow> \<not> chan_closed (heap_ex (s_ctl (cs_sys x2)) ! 0))"
proof -
  let ?j = "sample_cron no_template"
  obtain c1 where t: "cstep ?j (sample_cron_init no_template) (Tick sample_clock) (cron_looping no_template c1)"
    and h: "executions c1 = [the_id \<mapsto> 0]" using sample_tick by blast
  let ?x = "cron_looping no_template c1"
  have r: "crun ?j (sample_cron_init no_template) [Tick sample_clock] ?x" using crun_Cons [OF t crun_Nil] .
  have x: "cs_pc ?x = CLoop the_id ''1.1.1.1'' [sample_node ''n1'' True]" "s_ctl (cs_sys ?x) = c1"
    by (simp_all add: cron_looping_def)
  have j: "startPods_job ?j the_id ''1.1.1.1'' (sample_node ''n1'' True) = Ret (Inl ''yaml: line 1'')"
    by (simp add: startPods_job_def New_def no_template_def sample_execute_def Let_def)
  have s: "cstep ?j ?x NextJob (?x\<lparr>cs_pc := CIdle, cs_running := False\<rparr>)" by (rule cstep.next_abort [OF x(1) j])
  have f: "forID (s_ctl (cs_sys ?x)) the_id = Inr 0" by (simp add: x h forID_def)
  have l: "list_law (cj_client ?j)" using sample_list_law by simp
  show ?thesis using r s cron_abort_leaks [OF r l x(1) j f s] by force
qed

end
