(* ===== verification/Client.thy ===== *)
theory Client
  imports Jobs
begin

text \<open>
  \<open>pkg/client\<close>: what a job uses to call back. The HTTP library (\<open>resty\<close>, which also marshals
  the body and retries) is an argument: it takes a request to a response, if there is one, and
  an error.
\<close>

section \<open>Requests\<close>

datatype body = BodyResults Results | BodyEvent Event | BodyBytes string | BodyFiles "(string \<times> string) list"

record request =
  cr_url :: string
  cr_headers :: "(string \<times> string) list"
  cr_body :: body

record response =
  rs_StatusCode :: nat
  rs_Status :: string
  rs_String :: string

type_synonym resty = "request \<Rightarrow> response option \<times> err option"

datatype client_error = HttpError string string | SendError err

text \<open>\<open>httpError.Error()\<close>, of the two fields of the error.\<close>

definition httpError_Error :: "string \<Rightarrow> string \<Rightarrow> string" where
  "httpError_Error st msg = st @ '': '' @ msg"

record http_client =
  resultURL :: string
  fileURL :: string
  eventURL :: string
  default_headers :: "(string \<times> string) list"
  retries :: int

definition client_New :: "string \<Rightarrow> string \<Rightarrow> string \<Rightarrow> int \<Rightarrow> http_client" where
  "client_New result_url file_url event_url retryCount =
     \<lparr>resultURL = result_url, fileURL = file_url, eventURL = event_url,
      default_headers = [(''Content-Type'', ''application/json; charset=utf-8'')], retries = retryCount\<rparr>"

definition Default :: "env \<Rightarrow> int \<Rightarrow> http_client" where
  "Default env retryCount =
     client_New (os_Getenv env EnvCallbackServiceResultURL) (os_Getenv env EnvCallbackServiceFileURL)
       (os_Getenv env EnvCallbackServiceEventURL) retryCount"

section \<open>Sending\<close>

fun handleResponse :: "response option \<times> err option \<Rightarrow> client_error option" where
  "handleResponse (resp, err) =
     (case resp of
        Some r \<Rightarrow> if rs_StatusCode r \<noteq> 200 then Some (HttpError (rs_Status r) (rs_String r)) else map_option SendError err
      | None \<Rightarrow> map_option SendError err)"

definition SendResult :: "resty \<Rightarrow> http_client \<Rightarrow> Results \<Rightarrow> client_error option" where
  "SendResult post c results =
     handleResponse (post \<lparr>cr_url = resultURL c, cr_headers = default_headers c, cr_body = BodyResults results\<rparr>)"

definition client_PostEvent :: "resty \<Rightarrow> http_client \<Rightarrow> bool \<Rightarrow> string \<Rightarrow> string \<Rightarrow> string list \<Rightarrow> client_error option" where
  "client_PostEvent post c isWaring reason message args =
     handleResponse (post \<lparr>cr_url = eventURL c, cr_headers = default_headers c,
       cr_body = BodyEvent \<lparr>Waring = isWaring, Action = [], Reason = reason, Message = message, Args = args\<rparr>\<rparr>)"

text \<open>\<open>%q\<close> for printable ASCII without \<open>DEL\<close>: quotes and backslashes are escaped.\<close>

definition quote :: "string \<Rightarrow> string" where
  "quote s = [CHR 0x22] @ concat (map (\<lambda>c. if c = CHR 0x22 \<or> c = CHR 0x5C then [CHR 0x5C, c] else [c]) s) @ [CHR 0x22]"

definition set_header :: "string \<Rightarrow> string \<Rightarrow> (string \<times> string) list \<Rightarrow> (string \<times> string) list" where
  "set_header k v hs = AList.update k v hs"

definition SendAsFile :: "resty \<Rightarrow> http_client \<Rightarrow> string \<Rightarrow> string \<Rightarrow> string \<Rightarrow> client_error option" where
  "SendAsFile post c name data contentType =
     (let hs = set_header ''Content-Disposition'' (''attachment;filename='' @ quote name) (default_headers c);
          hs' = (if contentType = [] then hs else set_header ''Content-Type'' contentType hs)
      in handleResponse (post \<lparr>cr_url = fileURL c, cr_headers = hs', cr_body = BodyBytes data\<rparr>))"

definition files_of :: "string list \<Rightarrow> (string \<times> string) list" where
  "files_of filePaths = fold (\<lambda>path m. AList.update (filepath_Base path) path m) filePaths []"

definition SendFiles :: "resty \<Rightarrow> http_client \<Rightarrow> string list \<Rightarrow> client_error option go" where
  "SendFiles post c filePaths =
     (case post \<lparr>cr_url = fileURL c, cr_headers = default_headers c, cr_body = BodyFiles (files_of filePaths)\<rparr> of
        (_, Some e) \<Rightarrow> Ret (Some (SendError e))
      | (None, None) \<Rightarrow> Panic ''invalid memory address or nil pointer dereference''
      | (Some r, None) \<Rightarrow>
          Ret (if rs_StatusCode r \<noteq> 200 then Some (HttpError (rs_Status r) (rs_String r)) else None))"

section \<open>Lemmas\<close>

text \<open>
  The text of a JSON body, and an HTTP library that delivers every request to a server and
  returns its status without an error.
\<close>

fun wire :: "(json \<Rightarrow> string) \<Rightarrow> body \<Rightarrow> string option" where
  "wire render (BodyResults rs) = map_option render (enc_Results rs)"
| "wire render (BodyEvent e) = Some (render (enc_Event e))"
| "wire render (BodyBytes b) = Some b"
| "wire render (BodyFiles fs) = None"

definition delivers :: "resty \<Rightarrow> (json \<Rightarrow> string) \<Rightarrow> (string \<Rightarrow> http_status) \<Rightarrow> bool" where
  "delivers post render answer \<longleftrightarrow> (\<forall>rq txt. wire render (cr_body rq) = Some txt \<longrightarrow>
     (\<exists>st msg. post rq = (Some \<lparr>rs_StatusCode = answer txt, rs_Status = st, rs_String = msg\<rparr>, None)))"

lemma handleResponse_delivers:
  assumes "delivers post render answer" and "wire render (cr_body rq) = Some txt"
  shows "handleResponse (post rq) = None \<longleftrightarrow> answer txt = 200"
proof -
  obtain st msg where "post rq = (Some \<lparr>rs_StatusCode = answer txt, rs_Status = st, rs_String = msg\<rparr>, None)"
    using assms unfolding delivers_def by blast
  then show ?thesis by simp
qed

text \<open>
  A response with status 0, which the library returns with the error of a connection that
  failed, hides that error: the client reports an \<open>httpError\<close> of the response instead.
\<close>

lemma handleResponse_hides:
  "rs_StatusCode r = 0 \<Longrightarrow> handleResponse (Some r, Some e) = Some (HttpError (rs_Status r) (rs_String r))"
  by simp

text \<open>Two files of one base name are one entry: the later path is sent.\<close>

lemma files_of_collapse:
  "filepath_Base p = filepath_Base q \<Longrightarrow> files_of [p, q] = [(filepath_Base q, q)]"
  by (simp add: files_of_def)

end
