(* ===== verification/Client_Properties.thy ===== *)
theory Client_Properties
  imports Client Callback_Properties
begin

text \<open>
  The round trips between the client in a job and the callback server of the controller.
\<close>

section \<open>Results\<close>

text \<open>
  Results arrive as they were sent. If the JSON text of the results parses back and the HTTP library delivers,
  \<open>SendResult\<close> returns no error exactly if the server answers 200, and then the controller has
  received exactly the results the job sent, for this node and execution, with no error flag. Results
  are any metrics with distinct names, finite values and distinct labels.
\<close>

theorem client_result_roundtrip:
  assumes "results_ok rs" and "\<And>v. enc_Results rs = Some v \<Longrightarrow> parse (render v) = Inr v"
    and "delivers post render (\<lambda>txt. snd (endpoint Has cfg (postResult (ReportReceived gv) parse valid t cfg node eid (Inr txt)) (c, s) node eid))"
  shows "\<exists>txt. wire render (BodyResults rs) = Some txt \<and>
    (case endpoint Has cfg (postResult (ReportReceived gv) parse valid t cfg node eid (Inr txt)) (c, s) node eid of (out, code) \<Rightarrow>
       (SendResult post cl rs = None \<longleftrightarrow> code = StatusOK)
       \<and> (code = StatusOK \<longrightarrow> Validate valid rs cfg = None
            \<and> (\<exists>c' s'. out = Some (c', s') \<and> ReportReceived gv t c eid node False rs = Ret c')))"
proof -
  obtain v where v: "enc_Results rs = Some v" "dec_Results v = Some (Some rs)" using dec_enc_Results [OF assms(1)] by blast
  let ?txt = "render v"
  let ?e = "endpoint Has cfg (postResult (ReportReceived gv) parse valid t cfg node eid (Inr ?txt)) (c, s) node eid"
  have w: "wire render (BodyResults rs) = Some ?txt" using v by simp
  have s1: "SendResult post cl rs = None \<longleftrightarrow> snd ?e = StatusOK"
    using handleResponse_delivers [OF assms(3), of _ ?txt] w by (simp add: SendResult_def StatusOK_def)
  have ok: "Validate valid rs cfg = None \<and> (\<exists>c' s'. fst ?e = Some (c', s') \<and> ReportReceived gv t c eid node False rs = Ret c')"
    if code: "snd ?e = StatusOK"
  proof -
    have "middleware Has cfg (Some c) node eid = None"
      using code by (auto simp: endpoint_def middleware_def split: if_splits)
    then have e: "?e = recovered (postResult (ReportReceived gv) parse valid t cfg node eid (Inr ?txt) (c, s))"
      by (simp add: endpoint_def)
    then obtain c' s' where r: "postResult (ReportReceived gv) parse valid t cfg node eid (Inr ?txt) (c, s) = Ret ((c', s'), StatusOK)"
      using code by (auto simp: recovered_def split: go.splits prod.splits)
    then show ?thesis
    proof (cases rule: postResult_cases)
      case (saved b v' rs' f)
      have "parse (render v) = Inr v" by (rule assms(2) [OF v(1)])
      with saved v have "rs' = rs" by simp
      with saved r e show ?thesis by (simp add: recovered_def)
    qed auto
  qed
  show ?thesis using w s1 ok by (intro exI [of _ ?txt]) (auto split: prod.split)
qed

definition sample_results :: Results where
  "sample_results = [(''unconfigured'', [\<lparr>Value = Fin 4, res_Labels = []\<rparr>])]"

lemma sample_enc: "enc_Results sample_results = Some sample_body"
  by (simp add: sample_results_def enc_Results_def enc_Result_def sample_body_def)

definition deliver :: "(json \<Rightarrow> string) \<Rightarrow> (string \<Rightarrow> http_status) \<Rightarrow> resty" where
  "deliver render answer rq =
     (case wire render (cr_body rq) of
        None \<Rightarrow> (None, None)
      | Some txt \<Rightarrow> (Some \<lparr>rs_StatusCode = answer txt, rs_Status = ''status'', rs_String = []\<rparr>, None))"

lemma delivers_deliver: "delivers (deliver render answer) render answer"
  by (simp add: delivers_def deliver_def)

lemma sample_accepted:
  "\<exists>c' s'. endpoint Has sample_cfg (postResult (ReportReceived map_gauge_vec) sample_parse (\<lambda>_. True) 9 sample_cfg ''n1'' ''e1'' (Inr ''ok''))
       (started_controller sample_cfg, report_fs) ''n1'' ''e1'' = (Some (c', s'), StatusOK)
     \<and> ReportReceived map_gauge_vec 9 (started_controller sample_cfg) ''e1'' ''n1'' False sample_results = Ret c'"
proof -
  let ?c = "started_controller sample_cfg"
  let ?h = "\<lambda>txt. postResult (ReportReceived map_gauge_vec) sample_parse (\<lambda>_. True) 9 sample_cfg ''n1'' ''e1'' (Inr txt)"
  obtain c' where c': "ReportReceived map_gauge_vec 9 ?c ''e1'' ''n1'' False sample_results = Ret c'"
    using started_report unfolding sample_results_def by blast
  obtain f s' where s': "SaveFile 9 sample_cfg report_fs ''e1'' (''n1'' @ ''.json'') ''ok'' = (f, Inr (), s')"
    using sample_save by blast
  have "?h ''ok'' (?c, report_fs) = Ret ((c', s'), StatusOK)"
    using s' c' by (simp add: postResult_def processPostResult_def sample_parse_def sample_body_dec Validate_def
        postResultCallback_def sample_results_def)
  moreover have "Has ?c ''n1'' ''e1''" by (simp add: Has_def started_controller_def)
  ultimately have "endpoint Has sample_cfg (?h ''ok'') (?c, report_fs) ''n1'' ''e1'' = (Some (c', s'), StatusOK)"
    by (simp add: endpoint_def middleware_def recovered_def)
  with c' show ?thesis by blast
qed

lemma sample_results_ok: "results_ok sample_results"
  by (simp add: results_ok_def result_ok_def sample_results_def)

lemma sample_results_parse: "enc_Results sample_results = Some v \<Longrightarrow> sample_parse ''ok'' = Inr v"
  by (simp add: sample_enc sample_parse_def)

theorem client_result_roundtrip_witness:
  "\<exists>c' s'. endpoint Has sample_cfg (postResult (ReportReceived map_gauge_vec) sample_parse (\<lambda>_. True) 9 sample_cfg ''n1'' ''e1'' (Inr ''ok''))
       (started_controller sample_cfg, report_fs) ''n1'' ''e1'' = (Some (c', s'), StatusOK)
     \<and> ReportReceived map_gauge_vec 9 (started_controller sample_cfg) ''e1'' ''n1'' False sample_results = Ret c'
     \<and> SendResult (deliver (\<lambda>_. ''ok'') (\<lambda>txt. snd (endpoint Has sample_cfg
           (postResult (ReportReceived map_gauge_vec) sample_parse (\<lambda>_. True) 9 sample_cfg ''n1'' ''e1'' (Inr txt))
           (started_controller sample_cfg, report_fs) ''n1'' ''e1''))) (client_New [] [] [] 0) sample_results = None"
proof -
  let ?c = "started_controller sample_cfg"
  let ?h = "\<lambda>txt. postResult (ReportReceived map_gauge_vec) sample_parse (\<lambda>_. True) 9 sample_cfg ''n1'' ''e1'' (Inr txt)"
  obtain c' s' where e: "endpoint Has sample_cfg (?h ''ok'') (?c, report_fs) ''n1'' ''e1'' = (Some (c', s'), StatusOK)"
    and c': "ReportReceived map_gauge_vec 9 ?c ''e1'' ''n1'' False sample_results = Ret c'" using sample_accepted by blast
  show ?thesis
    using client_result_roundtrip [where render = "\<lambda>_. ''ok''" and parse = sample_parse and rs = sample_results and gv = map_gauge_vec and valid = "\<lambda>_. True" and t = 9 and cfg = sample_cfg
        and node = "''n1''" and eid = "''e1''" and c = ?c and s = report_fs and cl = "client_New [] [] [] 0", OF sample_results_ok _ delivers_deliver] sample_results_parse e c'
    by auto
qed

section \<open>Events\<close>

text \<open>
  Events arrive as they were sent. \<open>PostEvent\<close> returns no error exactly if the server answers
  200, which it does exactly if the message is not empty, the reason starts with an upper-case
  letter and the pod is found; then one event is recorded on that pod, with the type, reason,
  message and arguments of the call and the action \<open>n/a\<close>.
\<close>

theorem client_event_roundtrip:
  assumes "validator_law validate"
    and "\<And>v. v = enc_Event \<lparr>Waring = w, Action = [], Reason = reason, Message = msg, Args = args\<rparr> \<Longrightarrow> parse (render v) = Inr v"
    and "delivers post render answer"
    and "\<And>txt. postEvent parse validate get cfg node eid (Inr txt) recs = Ret (recs' txt, answer txt)"
  shows "\<exists>txt. wire render (BodyEvent \<lparr>Waring = w, Action = [], Reason = reason, Message = msg, Args = args\<rparr>) = Some txt
    \<and> (client_PostEvent post cl w reason msg args = None \<longleftrightarrow>
         msg \<noteq> [] \<and> reason \<noteq> [] \<and> unicode_IsUpper_byte (hd reason) \<and> (\<exists>pod. get (Namespace cfg, PodName cfg node eid) = Inr pod))
    \<and> (\<forall>pod. client_PostEvent post cl w reason msg args = None \<longrightarrow> get (Namespace cfg, PodName cfg node eid) = Inr pod \<longrightarrow>
         recs' txt = recs @ [\<lparr>re_pod = pod, re_type = (if w then ''Warning'' else ''Normal''), re_reason = reason,
           re_action = ''n/a'', re_note = msg, re_args = args\<rparr>])"
proof -
  let ?ev = "\<lparr>Waring = w, Action = [], Reason = reason, Message = msg, Args = args\<rparr>"
  let ?txt = "render (enc_Event ?ev)"
  have p: "parse ?txt = Inr (enc_Event ?ev)" using assms(2) by simp
  have s: "client_PostEvent post cl w reason msg args = None \<longleftrightarrow> answer ?txt = 200"
    using handleResponse_delivers [OF assms(3), of _ ?txt] by (simp add: client_PostEvent_def)
  have "posted_event parse (Inr ?txt) = (if event_ok ?ev then Some ?ev else None)"
    by (simp add: posted_event_def p dec_enc_Event)
  with assms(4) [of ?txt] postEvent_law [OF assms(1), of parse get cfg node eid "Inr ?txt" recs]
  have r: "Ret (recs' ?txt, answer ?txt) = Ret (if \<not> event_ok ?ev then (recs, StatusBadRequest)
      else (case get (Namespace cfg, PodName cfg node eid) of Inl _ \<Rightarrow> (recs, StatusNotFound)
        | Inr pod \<Rightarrow> (recs @ [\<lparr>re_pod = pod, re_type = (if w then ''Warning'' else ''Normal''), re_reason = reason,
           re_action = ''n/a'', re_note = msg, re_args = args\<rparr>], StatusOK)))"
    by (cases "event_ok ?ev"; cases "get (Namespace cfg, PodName cfg node eid)") simp_all
  have "wire render (BodyEvent ?ev) = Some ?txt" by simp
  moreover have "event_ok ?ev \<longleftrightarrow> msg \<noteq> [] \<and> reason \<noteq> [] \<and> unicode_IsUpper_byte (hd reason)" by (simp add: event_ok_def)
  ultimately show ?thesis
    using s r by (intro exI [of _ ?txt])
      (auto simp: StatusOK_def StatusNotFound_def StatusBadRequest_def split: if_splits sum.splits)
qed

theorem client_event_roundtrip_witness:
  "client_PostEvent (deliver (\<lambda>_. ''b'') (\<lambda>_. StatusOK)) (client_New [] [] [] 0) True ''TestReason'' ''test message'' [] = None
   \<and> postEvent (\<lambda>_. Inr (enc_Event sample_event)) check_fields (\<lambda>_. Inr zero_Pod) sample_cfg ''n1'' ''e1'' (Inr ''b'') [] =
       Ret ([\<lparr>re_pod = zero_Pod, re_type = ''Warning'', re_reason = ''TestReason'', re_action = ''n/a'',
          re_note = ''test message'', re_args = []\<rparr>], StatusOK)"
proof -
  have v: "validator_law check_fields" by (simp add: validator_law_def)
  have ok: "event_ok sample_event" by (simp add: event_ok_def sample_event_def unicode_IsUpper_byte_def)
  let ?rec = "[\<lparr>re_pod = zero_Pod, re_type = ''Warning'', re_reason = ''TestReason'', re_action = ''n/a'',
          re_note = ''test message'', re_args = []\<rparr>]"
  let ?parse = "\<lambda>_ :: string. Inr (enc_Event sample_event) :: string + json"
  have p: "postEvent ?parse check_fields (\<lambda>_. Inr zero_Pod) sample_cfg ''n1'' ''e1'' (Inr b) [] = Ret (?rec, StatusOK)" for b
    unfolding postEvent_law [OF v] by (simp add: posted_event_def dec_enc_Event ok) (simp add: sample_event_def)
  have e: "v = enc_Event \<lparr>Waring = True, Action = [], Reason = ''TestReason'', Message = ''test message'', Args = []\<rparr>
      \<Longrightarrow> ?parse ((\<lambda>_. ''b'') v) = Inr v" for v
    by (simp add: sample_event_def)
  show ?thesis
    using p client_event_roundtrip [where validate = check_fields and parse = ?parse and w = True and reason = "''TestReason''"
        and msg = "''test message''" and args = "[]" and render = "\<lambda>_. ''b''" and answer = "\<lambda>_. StatusOK" and recs' = "\<lambda>_. ?rec" and recs = "[]"
        and cl = "client_New [] [] [] 0" and get = "\<lambda>_. Inr zero_Pod" and cfg = sample_cfg and node = "''n1''" and eid = "''e1''",
        OF v _ delivers_deliver p] e by (auto simp: unicode_IsUpper_byte_def)
qed

end
