(* ===== verification/Config_Properties.thy ===== *)
theory Config_Properties
  imports Config
begin

text \<open>
  The properties of \<open>pkg/config\<close>: what a loaded configuration is, and when the search for the
  owner of the controller's pod returns.
\<close>

section \<open>The owner search\<close>

text \<open>
  C33. The owner search. If some measure decreases along first owner references, \<open>findOwner\<close>
  returns, and what it finds is an object without owners that the API server returned; if the
  references run in a cycle, it does not return (and the controller does not start).
\<close>

theorem findOwner_terminates:
  "((\<exists>m :: string \<times> string \<times> string \<Rightarrow> nat. \<forall>k k'. next_owner cl ns k = Some k' \<longrightarrow> m k' < m k) \<longrightarrow>
      (\<exists>nm owner. findOwner cl a kd ns n = Some (nm, owner)
        \<and> (\<forall>obj. owner = Some obj \<longrightarrow> ob_OwnerReferences obj = [] \<and> (\<exists>a' kd'. rd_object cl a' kd' ns nm = Inr obj))))
   \<and> ((\<exists>S. (a, kd, n) \<in> S \<and> (\<forall>k \<in> S. \<exists>k' \<in> S. next_owner cl ns k = Some k')) \<longrightarrow> findOwner cl a kd ns n = None)"
proof (intro conjI impI)
  assume "\<exists>m :: string \<times> string \<times> string \<Rightarrow> nat. \<forall>k k'. next_owner cl ns k = Some k' \<longrightarrow> m k' < m k"
  then obtain m :: "string \<times> string \<times> string \<Rightarrow> nat" where "\<And>k k'. next_owner cl ns k = Some k' \<Longrightarrow> m k' < m k" by blast
  then obtain r where "findOwner cl a kd ns n = Some r" using findOwner_returns by blast
  then show "\<exists>nm owner. findOwner cl a kd ns n = Some (nm, owner)
        \<and> (\<forall>obj. owner = Some obj \<longrightarrow> ob_OwnerReferences obj = [] \<and> (\<exists>a' kd'. rd_object cl a' kd' ns nm = Inr obj))"
    using findOwner_root by (cases r) blast
next
  assume "\<exists>S. (a, kd, n) \<in> S \<and> (\<forall>k \<in> S. \<exists>k' \<in> S. next_owner cl ns k = Some k')"
  then obtain S where "(a, kd, n) \<in> S" "\<forall>k \<in> S. \<exists>k' \<in> S. next_owner cl ns k = Some k'" by blast
  then show "findOwner cl a kd ns n = None" using findOwner_cycle [of S cl ns] by blast
qed

text \<open>A pod owned by a replica set owned by a deployment.\<close>

definition sample_reader :: reader where
  "sample_reader = \<lparr>rd_object = (\<lambda>a k ns n.
       if n = ''pod'' then Inr \<lparr>ob_APIVersion = ''v1'', ob_Kind = ''Pod'', ob_Name = ''pod'',
         ob_OwnerReferences = [\<lparr>or_APIVersion = ''apps/v1'', or_Kind = ''ReplicaSet'', or_Name = ''rs''\<rparr>]\<rparr>
       else if n = ''rs'' then Inr \<lparr>ob_APIVersion = ''apps/v1'', ob_Kind = ''ReplicaSet'', ob_Name = ''rs'', ob_OwnerReferences = []\<rparr>
       else if n = ''loop'' then Inr \<lparr>ob_APIVersion = ''v1'', ob_Kind = ''Pod'', ob_Name = ''loop'',
         ob_OwnerReferences = [\<lparr>or_APIVersion = ''v1'', or_Kind = ''Pod'', or_Name = ''loop''\<rparr>]\<rparr>
       else Inl ApiNotFound),
     rd_configMap = (\<lambda>ns n. Inr [''pod-template.yaml'' \<mapsto> ''kind: Pod'', ''config.yaml'' \<mapsto> ''cfg''])\<rparr>"

theorem findOwner_terminates_witness:
  "findOwner sample_reader ''v1'' ''Pod'' ''ns'' ''loop'' = None
   \<and> (\<exists>nm owner. findOwner (sample_reader\<lparr>rd_object := \<lambda>a k ns n. Inl ApiNotFound\<rparr>) ''v1'' ''Pod'' ''ns'' ''pod'' = Some (nm, owner))"
proof -
  have "next_owner sample_reader ''ns'' (''v1'', ''Pod'', ''loop'') = Some (''v1'', ''Pod'', ''loop'')"
    by (simp add: next_owner_def sample_reader_def)
  then have l: "findOwner sample_reader ''v1'' ''Pod'' ''ns'' ''loop'' = None"
    by (intro findOwner_terminates [THEN conjunct2, rule_format] exI [of _ "{(''v1'', ''Pod'', ''loop'')}"]) auto
  have "next_owner (sample_reader\<lparr>rd_object := \<lambda>a k ns n. Inl ApiNotFound\<rparr>) ''ns'' k = None" for k
    by (simp add: next_owner_def split: prod.split)
  then have "\<exists>m :: string \<times> string \<times> string \<Rightarrow> nat. \<forall>k k'.
      next_owner (sample_reader\<lparr>rd_object := \<lambda>a k ns n. Inl ApiNotFound\<rparr>) ''ns'' k = Some k' \<longrightarrow> m k' < m k" by simp
  from findOwner_terminates [THEN conjunct1, rule_format, OF this] l show ?thesis by blast
qed

section \<open>Loading\<close>

definition complete :: "string \<Rightarrow> string \<Rightarrow> api_object option \<Rightarrow> bool \<Rightarrow> int \<Rightarrow> string \<Rightarrow> Config \<Rightarrow> Config" where
  "complete t ns owner dev delay dir cfg = cfg\<lparr>ReportDirectory := dir, StartupDelay := delay, Namespace := ns,
     JobPodTemplate := t, Owner := owner, DevMode := dev\<rparr>"

lemma complete_same:
  "cfg\<lparr>JobPodTemplate := t, Namespace := ns, Owner := owner, DevMode := dev\<rparr>
     = complete t ns owner dev (StartupDelay cfg) (ReportDirectory cfg) cfg"
  "cfg\<lparr>JobPodTemplate := t, Namespace := ns, Owner := owner, StartupDelay := delay, DevMode := dev\<rparr>
     = complete t ns owner dev delay (ReportDirectory cfg) cfg"
  "(complete t ns owner dev delay dir cfg)\<lparr>ReportDirectory := d\<rparr> = complete t ns owner dev delay d cfg"
  unfolding complete_def by (cases cfg; simp)+

text \<open>
  What a loaded configuration is. \<open>getInternal\<close> ends with a configuration exactly if the
  config map has both entries, the configuration decodes and the owner search returns. It is then the decoded
  one with the template, the namespace, the owner and the development mode set, the start-up
  delay defaulted to ten seconds, and the report directory of the environment if there is one.
\<close>

theorem config_loaded:
  "getInternal decode env ns cl = Some (Inr cfg) \<longleftrightarrow>
    (\<exists>data c t cfg0 owner. configMap env ns cl = Inr data \<and> data ''config.yaml'' = Some c \<and> data ''pod-template.yaml'' = Some t
       \<and> decode c = Inr cfg0 \<and> findPodOwner env ns cl = Some owner
       \<and> cfg = cfg0\<lparr>ReportDirectory := (case env ''REPORT_DIRECTORY'' of None \<Rightarrow> ReportDirectory cfg0 | Some d \<Rightarrow> d),
            StartupDelay := (if StartupDelay cfg0 = 0 then 10000000000 else StartupDelay cfg0),
            Namespace := ns, JobPodTemplate := t, Owner := owner, DevMode := IsDevMode env\<rparr>)"
proof -
  have s: "10 * time_Second = 10000000000" by (simp add: time_Second_def)
  show ?thesis
  proof (cases "configMap env ns cl")
    case (Inl e)
    then show ?thesis by (simp add: getInternal_def)
  next
    case cm: (Inr data)
    show ?thesis
    proof (cases "\<exists>c t cfg0 owner. data ''config.yaml'' = Some c \<and> data ''pod-template.yaml'' = Some t
        \<and> decode c = Inr cfg0 \<and> findPodOwner env ns cl = Some owner")
      case True
      then obtain c t cfg0 owner where d: "data ''config.yaml'' = Some c" "data ''pod-template.yaml'' = Some t"
        "decode c = Inr cfg0" "findPodOwner env ns cl = Some owner" by blast
      have "getInternal decode env ns cl = Some (Inr (complete t ns owner (IsDevMode env)
          (if StartupDelay cfg0 = 0 then 10000000000 else StartupDelay cfg0)
          (case env ''REPORT_DIRECTORY'' of None \<Rightarrow> ReportDirectory cfg0 | Some d \<Rightarrow> d) cfg0))"
        using cm d by (simp add: getInternal_def ConfigFileName_def PodTemplateName_def EnvReportDirectory_def
            Let_def s complete_same split: option.split)
      with cm d show ?thesis by (auto simp: complete_def)
    next
      case False
      have "getInternal decode env ns cl \<noteq> Some (Inr cfg)"
      proof (cases "data ''config.yaml''")
        case None
        with cm show ?thesis by (simp add: getInternal_def ConfigFileName_def)
      next
        case c: (Some c)
        show ?thesis
        proof (cases "decode c")
          case (Inl e)
          with cm c show ?thesis by (simp add: getInternal_def ConfigFileName_def)
        next
          case dec: (Inr cfg0)
          show ?thesis
          proof (cases "data ''pod-template.yaml''")
            case None
            with cm c dec show ?thesis by (simp add: getInternal_def ConfigFileName_def PodTemplateName_def)
          next
            case (Some t)
            with False c dec have "findPodOwner env ns cl = None" by (cases "findPodOwner env ns cl") auto
            with cm c dec Some show ?thesis by (simp add: getInternal_def ConfigFileName_def PodTemplateName_def Let_def)
          qed
        qed
      qed
      with cm False show ?thesis by auto
    qed
  qed
qed

end
