(* ===== verification/System.thy ===== *)
theory System
  imports Cron_Properties Callback_Properties
begin

text \<open>
  The whole controller at work: the cron goroutine and the workers, reconcile requests with what
  the API server answers, and requests at the three routes of the callback server, in any order.
  Each step is the code's handler, behind the middleware where the server has it. A handler that
  panics has no step.
\<close>

section \<open>The system\<close>

text \<open>What the handlers of the callback server are given from outside.\<close>

record callbacks =
  sv_parse :: "string \<Rightarrow> string + json"
  sv_isValidMetricName :: "string \<Rightarrow> bool"
  sv_validate :: validator
  sv_mime :: mime
  sv_SaveUploadedFile :: "fs \<Rightarrow> string \<Rightarrow> string \<Rightarrow> (os_error + unit) \<times> fs"

record ('g, 'k) system =
  sy_cron :: "('g, 'k) cron_sys"
  sy_events :: "recorded_event list"

datatype sys_label =
    Internal cron_label
  | Reconciled instant pod_api "string \<times> string"
  | ResultPosted instant string string "err + string" http_status
  | FilePosted instant string string string file_request http_status
  | EventPosted "string \<times> string \<Rightarrow> err + Pod" string string "err + string" http_status

abbreviation sy_ctl :: "('g, 'k) system \<Rightarrow> 'g controller" where
  "sy_ctl y \<equiv> s_ctl (cs_sys (sy_cron y))"

abbreviation sy_fs :: "('g, 'k) system \<Rightarrow> fs" where
  "sy_fs y \<equiv> s_fs (cs_sys (sy_cron y))"

definition set_state :: "'g controller \<Rightarrow> fs \<Rightarrow> ('g, 'k) system \<Rightarrow> ('g, 'k) system" where
  "set_state c s y = y\<lparr>sy_cron := (sy_cron y)\<lparr>cs_sys := (cs_sys (sy_cron y))\<lparr>s_ctl := c, s_fs := s\<rparr>\<rparr>\<rparr>"

text \<open>\<open>postFile\<close> as a handler on the state of the routes.\<close>

definition file_handler ::
  "callbacks \<Rightarrow> instant \<Rightarrow> string \<Rightarrow> Config \<Rightarrow> string \<Rightarrow> string \<Rightarrow> file_request \<Rightarrow> 'c \<times> fs \<Rightarrow> (('c \<times> fs) \<times> http_status) go" where
  "file_handler sv t uuid cfg node eid rq st =
     (case postFile (sv_SaveUploadedFile sv) (sv_mime sv) uuid t cfg node eid rq (snd st) of
        (s', code) \<Rightarrow> Ret ((fst st, s'), code))"

inductive sstep :: "('g, 'k) cronJob \<Rightarrow> callbacks \<Rightarrow> ('g, 'k) system \<Rightarrow> sys_label \<Rightarrow> ('g, 'k) system \<Rightarrow> bool"
  for j :: "('g, 'k) cronJob" and sv :: callbacks where
  internal: "internal l \<Longrightarrow> cstep j (sy_cron y) l x' \<Longrightarrow> sstep j sv y (Internal l) (y\<lparr>sy_cron := x'\<rparr>)"
| reconciled: "reconcile (cj_gauge j) api t (sy_ctl y) (sy_fs y) req = Ret (c', s', r) \<Longrightarrow>
    sstep j sv y (Reconciled t api req) (set_state c' s' y)"
| result_posted: "endpoint Has (cj_cfg j)
      (postResult (ReportReceived (cj_gauge j)) (sv_parse sv) (sv_isValidMetricName sv) t (cj_cfg j) node eid body)
      (sy_ctl y, sy_fs y) node eid = (Some (c', s'), code) \<Longrightarrow>
    sstep j sv y (ResultPosted t node eid body code) (set_state c' s' y)"
| file_posted: "endpoint Has (cj_cfg j) (file_handler sv t uuid (cj_cfg j) node eid rq)
      (sy_ctl y, sy_fs y) node eid = (Some (c', s'), code) \<Longrightarrow>
    sstep j sv y (FilePosted t uuid node eid rq code) (set_state c' s' y)"
| event_refused: "middleware Has (cj_cfg j) (Some (sy_ctl y)) node eid = Some code \<Longrightarrow>
    sstep j sv y (EventPosted get node eid body code) y"
| event_posted: "middleware Has (cj_cfg j) (Some (sy_ctl y)) node eid = None \<Longrightarrow>
    postEvent (sv_parse sv) (sv_validate sv) get (cj_cfg j) node eid body (sy_events y) = Ret (evs, code) \<Longrightarrow>
    sstep j sv y (EventPosted get node eid body code) (y\<lparr>sy_events := evs\<rparr>)"

definition srun :: "('g, 'k) cronJob \<Rightarrow> callbacks \<Rightarrow> ('g, 'k) system \<Rightarrow> sys_label list \<Rightarrow> ('g, 'k) system \<Rightarrow> bool" where
  "srun j sv = trace (sstep j sv)"

lemmas srun_Nil = trace_Nil [of "sstep j sv" for j sv, folded srun_def]
lemmas srun_Cons = trace_Cons [of "sstep j sv" for j sv, folded srun_def]
lemmas srun_append = trace_append [of "sstep j sv" for j sv, folded srun_def]

definition sys_init :: "('g, 'k) cronJob \<Rightarrow> 'g Collector \<Rightarrow> fs \<Rightarrow> 'k \<Rightarrow> ('g, 'k) system" where
  "sys_init j prm f k = \<lparr>sy_cron = cron_init j prm f k, sy_events = []\<rparr>"

section \<open>Refinement\<close>

text \<open>
  What an environment step of the cron job stands for: a termination is the reconciliation of an
  ended pod with the node and the execution label, a report is a result that was answered
  with 200, and the file system is changed by reconciliations and uploads.
\<close>

fun cron_label_of :: "callbacks \<Rightarrow> sys_label \<Rightarrow> cron_label \<Rightarrow> bool" where
  "cron_label_of sv l (PodEnds t eid n ph) = (\<exists>api req pod. l = Reconciled t api req \<and> pa_Get api req = Inr pod
     \<and> label_of pod LabelExecutionID = eid \<and> pd_NodeName pod = n \<and> pd_Phase pod = ph \<and> ph \<in> {PodSucceeded, PodFailed})"
| "cron_label_of sv l (Report t eid n b rs) = (\<exists>txt v. l = ResultPosted t n eid (Inr txt) StatusOK \<and> \<not> b
     \<and> sv_parse sv txt = Inr v \<and> dec_Results v = Some (Some rs))"
| "cron_label_of sv l (Files f) = (\<forall>m. l \<noteq> Internal m)"
| "cron_label_of sv l m = (l = Internal m)"

lemma set_state_cron [simp]:
  "sy_cron (set_state c s y) = (sy_cron y)\<lparr>cs_sys := (cs_sys (sy_cron y))\<lparr>s_ctl := c, s_fs := s\<rparr>\<rparr>"
  "sy_events (set_state c s y) = sy_events y"
  by (simp_all add: set_state_def)

definition cron_moves :: "('g, 'k) cronJob \<Rightarrow> callbacks \<Rightarrow> ('g, 'k) cron_sys \<Rightarrow> sys_label \<Rightarrow> ('g, 'k) cron_sys \<Rightarrow> bool" where
  "cron_moves j sv x l x' \<longleftrightarrow> (\<exists>ms. crun j x ms x' \<and> (\<forall>m \<in> set ms. cron_label_of sv l m))"

text \<open>A change of files, after a change of the controller by one step, or alone.\<close>

lemma cron_moves_files:
  "(\<And>m. l \<noteq> Internal m) \<Longrightarrow> cron_moves j sv x l (x\<lparr>cs_sys := (cs_sys x)\<lparr>s_ctl := s_ctl (cs_sys x), s_fs := f\<rparr>\<rparr>)"
  unfolding cron_moves_def
  using crun_Cons [OF cstep.files crun_Nil, of j x f] by (intro exI [of _ "[Files f]"]) simp

lemma cron_moves_step:
  assumes "cstep j x m (x\<lparr>cs_sys := (cs_sys x)\<lparr>s_ctl := c\<rparr>\<rparr>)" and "cron_label_of sv l m" and "\<And>m. l \<noteq> Internal m"
  shows "cron_moves j sv x l (x\<lparr>cs_sys := (cs_sys x)\<lparr>s_ctl := c, s_fs := f\<rparr>\<rparr>)"
proof -
  let ?x1 = "x\<lparr>cs_sys := (cs_sys x)\<lparr>s_ctl := c\<rparr>\<rparr>"
  have "cstep j ?x1 (Files f) (x\<lparr>cs_sys := (cs_sys x)\<lparr>s_ctl := c, s_fs := f\<rparr>\<rparr>)"
    using cstep.files [of j ?x1 f] by simp
  then have "crun j x [m, Files f] (x\<lparr>cs_sys := (cs_sys x)\<lparr>s_ctl := c, s_fs := f\<rparr>\<rparr>)"
    using assms(1) crun_Cons crun_Nil by metis
  then show ?thesis unfolding cron_moves_def using assms(2,3) by (intro exI [of _ "[m, Files f]"]) simp
qed

lemma reconcile_cases:
  assumes "reconcile gv api t c s req = Ret (c', s', r)"
  obtains (same) "c' = c" "s' = s"
    | (ended) pod r' where "pa_Get api req = Inr pod" "pd_Phase pod \<in> {PodSucceeded, PodFailed}"
      "PodTerminated gv t c (label_of pod LabelExecutionID) (pd_NodeName pod) (pd_Phase pod) = Ret (c', r')"
  using assms
  by (auto simp: Reconcile_def Let_def split: sum.splits if_splits option.splits)

lemma endpoint_cases:
  assumes "endpoint has cfg h (c, s) node eid = (Some (c', s'), code)"
  obtains (refused) "c' = c" "s' = s" "middleware has cfg (Some c) node eid = Some code"
    | (handled) "middleware has cfg (Some c) node eid = None" "h (c, s) = Ret ((c', s'), code)"
  using assms by (auto simp: endpoint_def recovered_def split: option.splits go.splits)

lemma sstep_moves:
  assumes "sstep j sv y l y'"
  shows "cron_moves j sv (sy_cron y) l (sy_cron y')"
  using assms
proof cases
  case (internal m x')
  have "cron_label_of sv l m" using internal(1,3) by (cases m) simp_all
  with internal(4) show ?thesis
    unfolding cron_moves_def internal(2) by (intro exI [of _ "[m]"]) (simp add: crun_Cons crun_Nil)
next
  case (reconciled api t req c' s' r)
  from reconciled(3) show ?thesis
  proof (cases rule: reconcile_cases)
    case same
    with cron_moves_files [of l j sv "sy_cron y" "sy_fs y"] show ?thesis by (simp add: reconciled(1,2))
  next
    case (ended pod r')
    let ?m = "PodEnds t (label_of pod LabelExecutionID) (pd_NodeName pod) (pd_Phase pod)"
    have "cstep j (sy_cron y) ?m ((sy_cron y)\<lparr>cs_sys := (cs_sys (sy_cron y))\<lparr>s_ctl := c'\<rparr>\<rparr>)"
      by (rule cstep.pod_ends [OF ended(3)])
    moreover have "cron_label_of sv l ?m" using ended(1,2) by (simp add: reconciled(1))
    ultimately show ?thesis
      using cron_moves_step [of j "sy_cron y" ?m c' sv l s'] by (simp add: reconciled(1,2))
  qed
next
  case (result_posted t node eid body c' s' code)
  from result_posted(3) show ?thesis
  proof (cases rule: endpoint_cases)
    case refused
    with cron_moves_files [of l j sv "sy_cron y" "sy_fs y"] show ?thesis by (simp add: result_posted(1,2))
  next
    case handled
    from handled(2) show ?thesis
    proof (cases rule: postResult_cases)
      case (saved b v rs f)
      let ?m = "Report t eid node False rs"
      have "cstep j (sy_cron y) ?m ((sy_cron y)\<lparr>cs_sys := (cs_sys (sy_cron y))\<lparr>s_ctl := c'\<rparr>\<rparr>)"
        by (rule cstep.report [OF saved(6)])
      moreover have "cron_label_of sv l ?m" using saved(1-3,7) by (simp add: result_posted(1))
      ultimately show ?thesis
        using cron_moves_step [of j "sy_cron y" ?m c' sv l s'] by (simp add: result_posted(1,2))
    qed (use cron_moves_files [of l j sv "sy_cron y" s'] in \<open>simp_all add: result_posted(1,2)\<close>)
  qed
next
  case (file_posted t uuid node eid rq c' s' code)
  then have "c' = sy_ctl y" by (auto elim!: endpoint_cases simp: file_handler_def split: prod.splits)
  with cron_moves_files [of l j sv "sy_cron y" s'] show ?thesis by (simp add: file_posted(1,2))
next
  case (event_refused node eid code get body)
  then show ?thesis by (simp add: cron_moves_def crun_Nil exI [of _ "[]"])
next
  case (event_posted node eid get body evs code)
  then show ?thesis by (simp add: cron_moves_def crun_Nil exI [of _ "[]"])
qed

text \<open>The system refines the cron job with its environment.\<close>

interpretation sys: refinement "sstep j sv" "\<lambda>y. True" "cstep j" sy_cron "cron_label_of sv"
  by unfold_locales (auto dest: sstep_moves simp: cron_moves_def crun_def)

lemma srun_cron:
  assumes "srun j sv (sys_init j prm f k) ls y"
  shows "\<exists>ms. crun j (cron_init j prm f k) ms (sy_cron y) \<and> (\<forall>m \<in> set ms. \<exists>l \<in> set ls. cron_label_of sv l m)"
  using sys.trace_refines [of j sv "sys_init j prm f k" ls y] assms by (simp add: srun_def crun_def sys_init_def)

text \<open>Both refinements together: the system refines the pool.\<close>

lemma srun_pool:
  assumes "srun j sv (sys_init j prm f k) ls y" and "list_law (cj_client j)"
  obtains ms where "run (cj_gauge j) (cj_sort j) (init (cj_cfg j) prm f) ms (cs_sys (sy_cron y))"
    "\<And>m. m \<in> set ms \<Longrightarrow> \<exists>l \<in> set ls. \<exists>c. cron_label_of sv l c \<and> pool_label c m"
proof -
  obtain cs where cs: "crun j (cron_init j prm f k) cs (sy_cron y)" "\<forall>c \<in> set cs. \<exists>l \<in> set ls. cron_label_of sv l c"
    using srun_cron [OF assms(1)] by blast
  have "cs_sys (cron_init j prm f k) = init (cj_cfg j) prm f" by (simp add: cron_init_def)
  with crun_ok [OF cs(1) cron_ok_init assms(2)] obtain ms where
    "run (cj_gauge j) (cj_sort j) (init (cj_cfg j) prm f) ms (cs_sys (sy_cron y))" "\<forall>m \<in> set ms. \<exists>c \<in> set cs. pool_label c m"
    by auto
  with cs(2) show thesis by (intro that) blast+
qed

lemma srun_cron_ok:
  assumes "srun j sv (sys_init j prm f k) ls y" and "list_law (cj_client j)"
  shows "cron_ok j (sy_cron y)"
  using srun_cron [OF assms(1)] crun_ok [OF _ cron_ok_init assms(2)] by blast

end
