(* ===== verification/Causes.thy ===== *)
theory Causes
  imports Cron_Refinement
begin

text \<open>
  What a pod's state records was reported: only the notification of a termination for the node
  and execution of a pod marks it terminated, and only a report for them marks it reported.
\<close>

definition marked :: "(pod \<Rightarrow> instant option) \<Rightarrow> nat \<Rightarrow> string \<Rightarrow> string \<Rightarrow> 'g controller \<Rightarrow> bool" where
  "marked sel e eid n c \<longleftrightarrow> e < length (heap_ex c) \<and> ex_id (heap_ex c ! e) = eid
     \<and> (\<exists>pa. ex_pods (heap_ex c ! e) n = Some pa \<and> sel (heap_pod c ! pa) \<noteq> None)"

text \<open>A step that registers nothing and keeps the marks of the pods.\<close>

lemma marked_frame:
  assumes "heap_ok c" and "same_reg c c'" and "\<And>pa. pa < length (heap_pod c) \<Longrightarrow> sel (heap_pod c' ! pa) = sel (heap_pod c ! pa)"
    and "marked sel e eid n c'"
  shows "marked sel e eid n c"
proof -
  from assms(4) obtain pa where pa: "e < length (heap_ex c')" "ex_id (heap_ex c' ! e) = eid"
    "ex_pods (heap_ex c' ! e) n = Some pa" "sel (heap_pod c' ! pa) \<noteq> None" by (auto simp: marked_def)
  have e: "e < length (heap_ex c)" using pa(1,3) assms(2) unfolding same_reg_def by (metis linorder_not_less option.distinct(1))
  then have x: "ex_pods (heap_ex c ! e) n = Some pa" "ex_id (heap_ex c ! e) = eid"
    using pa(2,3) assms(2) by (simp_all add: same_reg_def)
  with heap_ok_pod [OF assms(1) e x(1)] assms(3) pa(4) e show ?thesis by (auto simp: marked_def)
qed

text \<open>A node that is registered has a new pod, which has no mark.\<close>

lemma marked_register:
  assumes ok: "heap_ok c" and h: "heap_ex c' = (heap_ex c)[a := x]" and a: "a < length (heap_ex c)"
    and x: "ex_pods x = (ex_pods (heap_ex c ! a))(m \<mapsto> length (heap_pod c))" "ex_id x = ex_id (heap_ex c ! a)"
    and p: "heap_pod c' = heap_pod c @ [new_pod m]" and sel: "sel (new_pod m) = None"
    and mk: "marked sel e eid n c'"
  shows "marked sel e eid n c"
proof -
  from mk h obtain pa where pa: "e < length (heap_ex c)" "ex_id (heap_ex c' ! e) = eid"
    "ex_pods (heap_ex c' ! e) n = Some pa" "sel (heap_pod c' ! pa) \<noteq> None" by (auto simp: marked_def)
  have "pa \<noteq> length (heap_pod c)" using pa(4) sel by (auto simp: p)
  then have y: "ex_pods (heap_ex c ! e) n = Some pa" "ex_id (heap_ex c ! e) = eid"
    using pa(2,3) a x by (auto simp: h nth_list_update split: if_splits)
  from heap_ok_pod [OF ok pa(1) y(1)] pa(4) have "sel (heap_pod c ! pa) \<noteq> None" by (simp add: p nth_append)
  with pa(1) y show ?thesis by (auto simp: marked_def)
qed

text \<open>A change of one pod marks the node and execution it belongs to.\<close>

lemma marked_pod:
  assumes ok: "heap_ok c" and h: "heap_ex c' = heap_ex c" and p: "podForID c i m = Inr q"
    and o': "\<And>pa. pa \<noteq> q \<Longrightarrow> sel (heap_pod c' ! pa) = sel (heap_pod c ! pa)"
    and mk: "marked sel e eid n c'" and nm: "\<not> marked sel e eid n c"
  shows "i = eid \<and> m = n"
proof -
  from mk h obtain pa where pa: "e < length (heap_ex c)" "ex_id (heap_ex c ! e) = eid"
    "ex_pods (heap_ex c ! e) n = Some pa" "sel (heap_pod c' ! pa) \<noteq> None" by (auto simp: marked_def)
  have "pa = q"
  proof (rule ccontr)
    assume "pa \<noteq> q"
    with o' pa(4) have "sel (heap_pod c ! pa) \<noteq> None" by simp
    with pa nm show False by (auto simp: marked_def h)
  qed
  moreover obtain a where a: "executions c i = Some a" "ex_pods (heap_ex c ! a) m = Some q"
    using p by (auto simp: podForID_Inr)
  ultimately show ?thesis
    using heap_ok_unique [OF ok _ pa(1) a(2), of n] heap_ok_execution [OF ok a(1)] pa(2,3) by auto
qed

lemma nth_update_keeps: "g (f (xs ! i)) = g (xs ! i) \<Longrightarrow> g (xs[i := f (xs ! i)] ! k) = g (xs ! k)"
  by (cases "i < length xs") (auto simp: nth_list_update list_update_beyond)

lemma mark_updates:
  "terminated (xs[i := (xs ! i)\<lparr>started := t, status := st\<rparr>] ! k) = terminated (xs ! k)"
  "reportReceived (xs[i := (xs ! i)\<lparr>started := t, status := st\<rparr>] ! k) = reportReceived (xs ! k)"
  "reportReceived (xs[i := (xs ! i)\<lparr>terminated := u, status := st\<rparr>] ! k) = reportReceived (xs ! k)"
  by (rule nth_update_keeps [of _ "\<lambda>p. p\<lparr>started := t, status := st\<rparr>"], simp)+
    (rule nth_update_keeps [of _ "\<lambda>p. p\<lparr>terminated := u, status := st\<rparr>"], simp)

lemma worker_turn_marks:
  assumes "worker_turn t e w c = Some (c', jo)"
  shows "terminated (heap_pod c' ! pa) = terminated (heap_pod c ! pa)"
    and "reportReceived (heap_pod c' ! pa) = reportReceived (heap_pod c ! pa)"
  using assms
  by (auto simp: worker_turn_def set_worker_def upd_ex_def upd_pod_def addProgress_def mark_updates
      split: worker.splits list.splits if_splits sum.splits)

text \<open>The effect of a step on the marks.\<close>

lemma marked_step:
  assumes st: "step gv sortf s l s'" and ok: "sys_ok s"
    and sel: "sel = terminated \<or> sel = reportReceived" and mk: "marked sel e eid n (s_ctl s')"
    and l: "\<And>t i m ph. l \<noteq> LTerm t i m ph" "\<And>t i m b rs. l \<noteq> LReport t i m b rs"
  shows "marked sel e eid n (s_ctl s)"
proof -
  note h = sys_okD(1) [OF ok]
  have np: "sel (new_pod m) = None" for m using sel by (auto simp: new_pod_def)
  from st show ?thesis
  proof cases
    case (new clk m i c' f')
    have "heap_pod c' = heap_pod (s_ctl s)" using new(4) by (auto elim: NewExecution_cases)
    with marked_frame [OF h same_reg_new(1) [OF new(4)], of sel e eid n] mk new(2) show ?thesis by simp
  next
    case (add jb c')
    from add(5) show ?thesis
    proof (rule AddPod_done)
      fix a x
      assume a: "executions (s_ctl s) (job_ID jb) = Some a" and x: "x = heap_ex (s_ctl s) ! a"
        and hx: "a < length (heap_ex (s_ctl s)) \<Longrightarrow> heap_ex c' = (heap_ex (s_ctl s))[a := x\<lparr>ex_pods := (ex_pods x)(job_Node jb \<mapsto> length (heap_pod (s_ctl s))),
          chan_buf := chan_buf x @ [jb]\<rparr>]" and p: "heap_pod c' = heap_pod (s_ctl s) @ [new_pod (job_Node jb)]"
      have al: "a < length (heap_ex (s_ctl s))" using heap_ok_execution [OF h a] by simp
      show ?thesis by (rule marked_register [where sel = sel, OF h hx [OF al] al _ _ p np]) (use x mk add(2) in simp_all)
    qed
  next
    case (add_blocks jb a c')
    from add_blocks(5) show ?thesis
    proof (rule AddPod_blocked)
      fix x
      assume a: "executions (s_ctl s) (job_ID jb) = Some a" and x: "x = heap_ex (s_ctl s) ! a"
        and hx: "a < length (heap_ex (s_ctl s)) \<Longrightarrow> heap_ex c' = (heap_ex (s_ctl s))[a := x\<lparr>ex_pods := (ex_pods x)(job_Node jb \<mapsto> length (heap_pod (s_ctl s)))\<rparr>]"
        and p: "heap_pod c' = heap_pod (s_ctl s) @ [new_pod (job_Node jb)]"
      have al: "a < length (heap_ex (s_ctl s))" using heap_ok_execution [OF h a] by simp
      show ?thesis by (rule marked_register [where sel = sel, OF h hx [OF al] al _ _ p np]) (use x mk add_blocks(2) in simp_all)
    qed
  next
    case (resume a jb c')
    have c': "c' = upd_ex a (\<lambda>x. x\<lparr>chan_buf := chan_buf x @ [jb]\<rparr>) (s_ctl s)" by (rule chan_send_done(3) [OF resume(4)])
    have "same_reg (s_ctl s) c'" by (auto simp: c' upd_ex_def same_reg_def nth_upd)
    from marked_frame [OF h this, of sel e eid n] mk resume(2) show ?thesis by (simp add: c')
  next
    case (all_added t i c' f' r)
    from marked_frame [OF h same_reg_AllAdded [OF all_added(4)], of sel e eid n] AllAdded_effect(1) [OF all_added(4)] mk all_added(2)
    show ?thesis by simp
  next
    case (turn a w t c' jo)
    from marked_frame [OF h worker_turn_reg(1) [OF turn(5)], of sel e eid n] worker_turn_marks [OF turn(5)] sel mk turn(2)
    show ?thesis by auto
  qed (use mk l in simp_all)
qed

lemma step_terminated:
  assumes st: "step gv sortf s l s'" and ok: "sys_ok s"
    and mk: "marked terminated e eid n (s_ctl s')" and nm: "\<not> marked terminated e eid n (s_ctl s)"
  shows "\<exists>t ph. l = LTerm t eid n ph"
  using st
proof cases
  case (terminates t i m ph c' r)
  from terminates(3) show ?thesis
  proof (cases rule: PodTerminated_cases)
    case (first q pr)
    have "i = eid \<and> m = n"
      by (rule marked_pod [OF sys_okD(1) [OF ok] _ first(1) _ mk nm])
        (auto simp: terminates(2) first(4) upd_pod_def)
    with terminates(1) show ?thesis by blast
  qed (use mk nm terminates(2) in simp_all)
next
  case (reports t i m b rs c')
  have "marked terminated e eid n (s_ctl s)"
    by (rule marked_frame [OF sys_okD(1) [OF ok] same_regI [OF ReportReceived_effect(1) [OF reports(3)]]])
      (use ReportReceived_effect(6) [OF reports(3)] mk reports(2) in auto)
  with nm show ?thesis ..
qed (use marked_step [OF st ok _ mk] nm in auto)

lemma step_reported:
  assumes st: "step gv sortf s l s'" and ok: "sys_ok s"
    and mk: "marked reportReceived e eid n (s_ctl s')" and nm: "\<not> marked reportReceived e eid n (s_ctl s)"
  shows "\<exists>t b rs. l = LReport t eid n b rs"
  using st
proof cases
  case (reports t i m b rs c')
  from reports(3) show ?thesis
  proof (cases rule: ReportReceived_cases)
    case (known q pr)
    have "i = eid \<and> m = n"
      by (rule marked_pod [OF sys_okD(1) [OF ok] _ known(1) _ mk nm])
        (auto simp: reports(2) known(2) upd_pod_def)
    with reports(1) show ?thesis by blast
  qed (use mk nm reports(2) in \<open>simp_all add: marked_def\<close>)
next
  case (terminates t i m ph c' r)
  from terminates(3) have "reportReceived (heap_pod c' ! pa) = reportReceived (heap_pod (s_ctl s) ! pa)" for pa
    by (cases rule: PodTerminated_cases)
      (auto simp: upd_pod_def mark_updates)
  then have "marked reportReceived e eid n (s_ctl s)"
    by (intro marked_frame [OF sys_okD(1) [OF ok] same_regI [OF PodTerminated_effect(1) [OF terminates(3)]]])
      (use mk terminates(2) in auto)
  with nm show ?thesis ..
qed (use marked_step [OF st ok _ mk] nm in auto)

text \<open>Along a run from the start.\<close>

lemma not_marked_init: "\<not> marked sel e eid n (s_ctl (init cfg prm f))"
  by (simp add: marked_def init_def NewController_def)

lemma run_terminated:
  assumes "run gv sortf (init cfg prm f) ls s" and "marked terminated e eid n (s_ctl s)"
  shows "\<exists>t ph. LTerm t eid n ph \<in> set ls"
  using pool.trace_cause [of gv sortf "init cfg prm f" ls s "\<lambda>s. marked terminated e eid n (s_ctl s)" "\<lambda>l. \<exists>t ph. l = LTerm t eid n ph"]
    assms not_marked_init sys_ok_init step_terminated
  by (fastforce simp: run_def)

lemma run_reported:
  assumes "run gv sortf (init cfg prm f) ls s" and "marked reportReceived e eid n (s_ctl s)"
  shows "\<exists>t b rs. LReport t eid n b rs \<in> set ls"
  using pool.trace_cause [of gv sortf "init cfg prm f" ls s "\<lambda>s. marked reportReceived e eid n (s_ctl s)" "\<lambda>l. \<exists>t b rs. l = LReport t eid n b rs"]
    assms not_marked_init sys_ok_init step_reported
  by (fastforce simp: run_def)

end
