(* ===== verification/System_Properties.thy ===== *)
theory System_Properties
  imports System Causes
begin

text \<open>
  The properties of the whole controller: it refines the cron job and the pool, what its state
  records has a cause in the requests it got, and the pool bounds the pods in the cluster.
\<close>

section \<open>Refinement\<close>

text \<open>
  C9. The whole controller refines the cron job in its environment. With the reconciler and the
  three routes of the callback server in place, the controller goes through states that the cron
  job and its workers reach when terminations, reports and file changes come in any order; the
  terminations are the ended pods that were reconciled, by their label and node, and the reports
  are the results that were answered with 200.
\<close>

theorem system_refines_cron:
  assumes "srun j sv (sys_init j prm f k) ls y"
  shows "\<exists>ms. crun j (cron_init j prm f k) ms (sy_cron y)
    \<and> (\<forall>t eid n ph. PodEnds t eid n ph \<in> set ms \<longrightarrow>
         (\<exists>api req pod. Reconciled t api req \<in> set ls \<and> pa_Get api req = Inr pod
            \<and> label_of pod LabelExecutionID = eid \<and> pd_NodeName pod = n \<and> pd_Phase pod = ph
            \<and> ph \<in> {PodSucceeded, PodFailed}))
    \<and> (\<forall>t eid n b rs. Report t eid n b rs \<in> set ms \<longrightarrow>
         \<not> b \<and> (\<exists>txt v. ResultPosted t n eid (Inr txt) StatusOK \<in> set ls \<and> sv_parse sv txt = Inr v
            \<and> dec_Results v = Some (Some rs)))"
proof -
  obtain ms where ms: "crun j (cron_init j prm f k) ms (sy_cron y)" "\<forall>m \<in> set ms. \<exists>l \<in> set ls. cron_label_of sv l m"
    using srun_cron [OF assms] by blast
  show ?thesis by (rule exI [of _ ms], intro conjI allI impI, rule ms(1)) (use ms(2) in fastforce)+
qed

section \<open>Causes\<close>

definition ended_at :: "sys_label list \<Rightarrow> string \<Rightarrow> string \<Rightarrow> bool" where
  "ended_at ls eid n \<longleftrightarrow> (\<exists>t api req pod. Reconciled t api req \<in> set ls \<and> pa_Get api req = Inr pod
     \<and> label_of pod LabelExecutionID = eid \<and> pd_NodeName pod = n \<and> pd_Phase pod \<in> {PodSucceeded, PodFailed})"

definition reported_at :: "callbacks \<Rightarrow> sys_label list \<Rightarrow> string \<Rightarrow> string \<Rightarrow> bool" where
  "reported_at sv ls eid n \<longleftrightarrow> (\<exists>t txt v rs. ResultPosted t n eid (Inr txt) StatusOK \<in> set ls
     \<and> sv_parse sv txt = Inr v \<and> dec_Results v = Some (Some rs))"

lemma terminated_cause:
  assumes "srun j sv (sys_init j prm f k) ls y" and "list_law (cj_client j)"
    and "e < length (heap_ex (sy_ctl y))" and "ex_pods (heap_ex (sy_ctl y) ! e) n = Some pa"
    and "terminated (heap_pod (sy_ctl y) ! pa) \<noteq> None"
  shows "ended_at ls (ex_id (heap_ex (sy_ctl y) ! e)) n"
proof -
  obtain ms where ms: "run (cj_gauge j) (cj_sort j) (init (cj_cfg j) prm f) ms (cs_sys (sy_cron y))"
    "\<And>m. m \<in> set ms \<Longrightarrow> \<exists>l \<in> set ls. \<exists>c. cron_label_of sv l c \<and> pool_label c m"
    using srun_pool [OF assms(1,2)] by blast
  have "marked terminated e (ex_id (heap_ex (sy_ctl y) ! e)) n (sy_ctl y)"
    using assms(3-5) by (auto simp: marked_def)
  from run_terminated [OF ms(1) this] obtain t ph where "LTerm t (ex_id (heap_ex (sy_ctl y) ! e)) n ph \<in> set ms" by blast
  from ms(2) [OF this] obtain l c where l: "l \<in> set ls" "cron_label_of sv l c" "pool_label c (LTerm t (ex_id (heap_ex (sy_ctl y) ! e)) n ph)"
    by blast
  then have "c = PodEnds t (ex_id (heap_ex (sy_ctl y) ! e)) n ph" by (cases c) auto
  with l(1,2) show ?thesis unfolding ended_at_def by (simp only: cron_label_of.simps) blast
qed

lemma reported_cause:
  assumes "srun j sv (sys_init j prm f k) ls y" and "list_law (cj_client j)"
    and "e < length (heap_ex (sy_ctl y))" and "ex_pods (heap_ex (sy_ctl y) ! e) n = Some pa"
    and "reportReceived (heap_pod (sy_ctl y) ! pa) \<noteq> None"
  shows "reported_at sv ls (ex_id (heap_ex (sy_ctl y) ! e)) n"
proof -
  obtain ms where ms: "run (cj_gauge j) (cj_sort j) (init (cj_cfg j) prm f) ms (cs_sys (sy_cron y))"
    "\<And>m. m \<in> set ms \<Longrightarrow> \<exists>l \<in> set ls. \<exists>c. cron_label_of sv l c \<and> pool_label c m"
    using srun_pool [OF assms(1,2)] by blast
  have "marked reportReceived e (ex_id (heap_ex (sy_ctl y) ! e)) n (sy_ctl y)"
    using assms(3-5) by (auto simp: marked_def)
  from run_reported [OF ms(1) this] obtain t b rs where "LReport t (ex_id (heap_ex (sy_ctl y) ! e)) n b rs \<in> set ms" by blast
  from ms(2) [OF this] obtain l c where "l \<in> set ls" "cron_label_of sv l c" "pool_label c (LReport t (ex_id (heap_ex (sy_ctl y) ! e)) n b rs)"
    by blast
  then show ?thesis by (cases c) (auto simp: reported_at_def)
qed

text \<open>
  C5. The state records what happened. When a pod is marked as terminated, an ended pod with the
  execution's label and this node was reconciled before; when it is marked as reported, a result
  for this node and execution was posted and accepted before. No other request, and nothing
  sent for another node or execution, sets the marks.
\<close>

theorem system_causes:
  assumes "srun j sv (sys_init j prm f k) ls y" and "list_law (cj_client j)"
    and "e < length (heap_ex (sy_ctl y))" and "ex_pods (heap_ex (sy_ctl y) ! e) n = Some pa"
  shows "(terminated (heap_pod (sy_ctl y) ! pa) \<noteq> None \<longrightarrow> ended_at ls (ex_id (heap_ex (sy_ctl y) ! e)) n)
    \<and> (reportReceived (heap_pod (sy_ctl y) ! pa) \<noteq> None \<longrightarrow> reported_at sv ls (ex_id (heap_ex (sy_ctl y) ! e)) n)"
  using terminated_cause [OF assms] reported_cause [OF assms] by blast

section \<open>The pool and the cluster\<close>

text \<open>
  C2. The load on the cluster. At any time, whatever requests come in and in whatever order, at
  most \<open>podPoolSize\<close> of the pods created for an execution are not yet reconciled as ended.
\<close>

theorem system_bound:
  assumes "srun j sv (sys_init j prm f k) ls y" and "list_law (cj_client j)" and "owner_law (cj_setOwner j)"
    and "e < length (heap_ex (sy_ctl y))"
  shows "card {n \<in> pd_NodeName ` set (created_pods e (sy_cron y)). \<not> ended_at ls (ex_id (heap_ex (sy_ctl y) ! e)) n}
    \<le> nat (PodPoolSize (cj_cfg j))"
proof -
  let ?x = "heap_ex (sy_ctl y) ! e" and ?s = "cs_sys (sy_cron y)"
  obtain ms where r: "run (cj_gauge j) (cj_sort j) (init (cj_cfg j) prm f) ms ?s"
    using srun_pool [OF assms(1,2)] by blast
  have "pd_NodeName ` set (created_pods e (sy_cron y)) = set (created_nodes e ?s)"
    using created_pods_of [OF srun_cron_ok [OF assms(1,2)] assms(3,4)] by (metis set_map)
  moreover have "ended_at ls (ex_id ?x) n" if "ex_pods ?x n = Some pa" "is_terminated (s_ctl ?s) pa" for n pa
    using terminated_cause [OF assms(1,2,4) that(1)] that(2) by (simp add: is_terminated_def)
  ultimately have "{n \<in> pd_NodeName ` set (created_pods e (sy_cron y)). \<not> ended_at ls (ex_id ?x) n}
      \<subseteq> {n \<in> set (created_nodes e ?s). \<not> (\<exists>pa. ex_pods ?x n = Some pa \<and> is_terminated (s_ctl ?s) pa)}" by blast
  then have "card {n \<in> pd_NodeName ` set (created_pods e (sy_cron y)). \<not> ended_at ls (ex_id ?x) n}
      \<le> card {n \<in> set (created_nodes e ?s). \<not> (\<exists>pa. ex_pods ?x n = Some pa \<and> is_terminated (s_ctl ?s) pa)}"
    by (intro card_mono) simp_all
  also have "\<dots> \<le> nat (PodPoolSize (cj_cfg j))" by (rule pool_bound [OF r assms(4)])
  finally show ?thesis .
qed

text \<open>
  C3. When an execution is done. Once all workers of an execution have returned (with a pool of at
  least one), the pod of every registered node was created in the cluster and its end was
  reconciled.
\<close>

theorem system_completes:
  assumes "srun j sv (sys_init j prm f k) ls y" and "list_law (cj_client j)" and "owner_law (cj_setOwner j)"
    and "e < length (heap_ex (sy_ctl y))" and "0 < PodPoolSize (cj_cfg j)"
    and "\<forall>wk \<in> set (ex_workers (heap_ex (sy_ctl y) ! e)). wk = WExit"
    and "n \<in> dom (ex_pods (heap_ex (sy_ctl y) ! e))"
  shows "n \<in> pd_NodeName ` set (created_pods e (sy_cron y)) \<and> ended_at ls (ex_id (heap_ex (sy_ctl y) ! e)) n"
proof -
  let ?s = "cs_sys (sy_cron y)"
  obtain ms where r: "run (cj_gauge j) (cj_sort j) (init (cj_cfg j) prm f) ms ?s"
    using srun_pool [OF assms(1,2)] by blast
  obtain pa where pa: "ex_pods (heap_ex (sy_ctl y) ! e) n = Some pa" using assms(7) by blast
  note c = pool_completes [OF r assms(4-6) pa]
  have "n \<in> pd_NodeName ` set (created_pods e (sy_cron y))"
    using created_pods_of [OF srun_cron_ok [OF assms(1,2)] assms(3,4)] c by (metis set_map)
  with c terminated_cause [OF assms(1,2,4) pa] show ?thesis by (simp add: is_terminated_def)
qed

section \<open>A run\<close>

definition sample_sv :: callbacks where
  "sample_sv = \<lparr>sv_parse = sample_parse, sv_isValidMetricName = (\<lambda>_. True), sv_validate = check_fields,
     sv_mime = sample_mime, sv_SaveUploadedFile = (\<lambda>s p d. (Inr (), s))\<rparr>"

definition ended_pod :: Pod where
  "ended_pod = zero_Pod\<lparr>pd_NodeName := ''n1'', pd_Labels := Some [LabelExecutionID \<mapsto> the_id], pd_Phase := PodSucceeded\<rparr>"

definition ended_api :: pod_api where
  "ended_api = \<lparr>pa_Get = (\<lambda>k. Inr ended_pod), pa_Stream = (\<lambda>ns p c. Inl ApiNotFound)\<rparr>"

lemma ended_pod_simps [simp]:
  "pa_Get ended_api req = Inr ended_pod" "label_of ended_pod LabelExecutionID = the_id"
  "pd_NodeName ended_pod = ''n1''" "pd_Phase ended_pod = PodSucceeded"
  by (simp_all add: ended_api_def ended_pod_def label_of_def)

abbreviation sample_job where "sample_job \<equiv> sample_cron sample_template"

abbreviation sample_sys_init where
  "sample_sys_init \<equiv> sys_init sample_job (sample_collector sample_cfg) sample_fs []"

lemma srun_internal:
  "crun j x ls x' \<Longrightarrow> list_all internal ls \<Longrightarrow> srun j sv (y\<lparr>sy_cron := x\<rparr>) (map Internal ls) (y\<lparr>sy_cron := x'\<rparr>)"
proof (induction rule: crun_induct)
  case (crun_Nil x)
  then show ?case by (simp add: srun_Nil)
next
  case (crun_Cons x l x1 ls x')
  have "sstep j sv (y\<lparr>sy_cron := x\<rparr>) (Internal l) (y\<lparr>sy_cron := x1\<rparr>)"
    using sstep.internal [of l j "y\<lparr>sy_cron := x\<rparr>" x1 sv] crun_Cons by simp
  with crun_Cons show ?case by (simp add: srun_Cons)
qed

text \<open>The turn of the only worker, when it creates no pod.\<close>

lemma sample_turn:
  assumes "heap_ex (s_ctl (cs_sys x)) = [the_ex ps b cl wk]" and "worker_turn t 0 0 (s_ctl (cs_sys x)) = Some (c', None)"
  shows "cstep sample_job x (WorkerTurn t 0 0) (x\<lparr>cs_sys := (cs_sys x)\<lparr>s_ctl := c'\<rparr>\<rparr>)"
  using cstep.worker [of 0 x 0 t c' None sample_job] assms by (simp add: the_ex_def create_job_def)

lemma sample_finished:
  "\<exists>ls x. crun sample_job (sample_cron_init sample_template) ls x \<and> list_all internal ls
     \<and> heap_ex (s_ctl (cs_sys x)) = [the_ex [''n1'' \<mapsto> 0] [] True (WWait (job_on ''n1'') 0)]
     \<and> heap_pod (s_ctl (cs_sys x)) = [started_pod] \<and> executions (s_ctl (cs_sys x)) = [the_id \<mapsto> 0]
     \<and> col_wf map_gauge_vec (prom (s_ctl (cs_sys x)))"
proof -
  obtain ls x where x: "crun sample_job (sample_cron_init sample_template) ls x" "list_all internal ls"
    and h: "heap_ex (s_ctl (cs_sys x)) = [the_ex [''n1'' \<mapsto> 0] [] False (WStart (job_on ''n1''))]"
      "heap_pod (s_ctl (cs_sys x)) = [new_pod ''n1'']" "executions (s_ctl (cs_sys x)) = [the_id \<mapsto> 0]"
      "reportDir (s_ctl (cs_sys x)) = ''/var/www''" "reportHistory (s_ctl (cs_sys x)) = 3"
      "col_wf map_gauge_vec (prom (s_ctl (cs_sys x)))" "s_fs (cs_sys x) = dirs_fs" "cs_pc x = CLoop the_id ''1.1.1.1'' []"
    using sample_created by blast
  define c5 where "c5 = addProgress 1 (set_worker 0 0 (WWait (job_on ''n1'') 0)
      (upd_pod 0 (\<lambda>p. p\<lparr>started := 7, status := ''Started''\<rparr>) (s_ctl (cs_sys x))))"
  have h5: "heap_ex c5 = [the_ex [''n1'' \<mapsto> 0] [] False (WWait (job_on ''n1'') 0)]" "heap_pod c5 = [started_pod]"
    "executions c5 = [the_id \<mapsto> 0]" "reportDir c5 = ''/var/www''" "reportHistory c5 = 3" "prom c5 = prom (s_ctl (cs_sys x))"
    by (simp_all add: c5_def h set_worker_def upd_ex_def upd_pod_def addProgress_def the_ex_def new_pod_def started_pod_def)
  let ?x5 = "x\<lparr>cs_sys := (cs_sys x)\<lparr>s_ctl := c5\<rparr>\<rparr>"
  have s5: "cstep sample_job x (WorkerTurn 7 0 0) ?x5"
    by (rule sample_turn [OF h(1)]) (simp add: h the_ex_def worker_turn_def c5_def ex_pod_def job_on_def)
  define c6 where "c6 = upd_ex 0 (\<lambda>x. x\<lparr>chan_closed := True\<rparr>) c5"
  have "length (by_mtime xs) = length xs" for xs by (simp add: by_mtime_def)
  then have a: "AllAdded map_gauge_vec by_mtime 9 c5 dirs_fs the_id = Ret (c6, dirs_fs, None)"
    by (simp add: AllAdded_def forID_def h5 dirs_ReadDir Let_def close_chan_def c6_def the_ex_def)
  let ?x6 = "?x5\<lparr>cs_sys := (cs_sys ?x5)\<lparr>s_ctl := c6, s_fs := dirs_fs\<rparr>, cs_pc := CIdle, cs_running := False\<rparr>"
  have s6: "cstep sample_job ?x5 (Finish 9) ?x6"
    by (rule cstep.finish [where eid = the_id]) (use h(7,8) a in simp_all)
  have "crun sample_job (sample_cron_init sample_template) (ls @ [WorkerTurn 7 0 0, Finish 9]) ?x6"
    by (rule crun_append [OF x(1) crun_Cons [OF s5 crun_Cons [OF s6 crun_Nil]]])
  moreover have "list_all internal (ls @ [WorkerTurn 7 0 0, Finish 9])" using x(2) by simp
  moreover have "heap_ex c6 = [the_ex [''n1'' \<mapsto> 0] [] True (WWait (job_on ''n1'') 0)]" "heap_pod c6 = [started_pod]"
    "executions c6 = [the_id \<mapsto> 0]" "prom c6 = prom (s_ctl (cs_sys x))"
    by (simp_all add: c6_def upd_ex_def h5 the_ex_def)
  ultimately show ?thesis using h(6) by (intro exI [of _ "ls @ [WorkerTurn 7 0 0, Finish 9]"] exI [of _ ?x6]) simp
qed

lemma sample_system:
  "\<exists>ls y. srun sample_job sample_sv sample_sys_init ls y
     \<and> heap_ex (sy_ctl y) = [the_ex [''n1'' \<mapsto> 0] [] True WExit] \<and> terminated (heap_pod (sy_ctl y) ! 0) \<noteq> None"
proof -
  obtain ls x where x: "crun sample_job (sample_cron_init sample_template) ls x" "list_all internal ls"
    and h: "heap_ex (s_ctl (cs_sys x)) = [the_ex [''n1'' \<mapsto> 0] [] True (WWait (job_on ''n1'') 0)]"
      "heap_pod (s_ctl (cs_sys x)) = [started_pod]" "executions (s_ctl (cs_sys x)) = [the_id \<mapsto> 0]"
      "col_wf map_gauge_vec (prom (s_ctl (cs_sys x)))"
    using sample_finished by blast
  let ?y = "sample_sys_init\<lparr>sy_cron := x\<rparr>"
  have r: "srun sample_job sample_sv sample_sys_init (map Internal ls) ?y"
    using srun_internal [OF x, of sample_sv sample_sys_init] by (simp add: sys_init_def)
  have u: "list_all (gv_utf8 map_gauge_vec) xs" for xs by (simp add: list_all_iff)
  obtain c1 r1 where "PodTerminated map_gauge_vec 9 (s_ctl (cs_sys x)) the_id ''n1'' PodSucceeded = Ret (c1, r1)"
    using PodTerminated_returns [OF h(4) u] by blast
  then obtain c2 s2 r2 where rc: "reconcile map_gauge_vec ended_api 9 (s_ctl (cs_sys x)) (s_fs (cs_sys x)) (''ns'', ''p'') = Ret (c2, s2, r2)"
    using reconcile_returns [of ended_api "(''ns'', ''p'')" ended_pod] by fastforce
  have s7: "sstep sample_job sample_sv ?y (Reconciled 9 ended_api (''ns'', ''p'')) (set_state c2 s2 ?y)"
    by (rule sstep.reconciled) (use rc in simp)
  have p: "podForID (s_ctl (cs_sys x)) the_id ''n1'' = Inr 0" by (simp add: podForID_Inr h the_ex_def)
  obtain r' where "PodTerminated map_gauge_vec 9 (s_ctl (cs_sys x)) the_id ''n1'' PodSucceeded = Ret (c2, r')"
    using rc by (auto simp: Reconcile_def Let_def split: option.splits if_splits)
  then have h7: "heap_ex c2 = [the_ex [''n1'' \<mapsto> 0] [] True (WWait (job_on ''n1'') 0)]" "terminated (heap_pod c2 ! 0) \<noteq> None"
    by (cases rule: PodTerminated_cases; use p in \<open>auto simp: h started_pod_def\<close>)+
  let ?x7 = "x\<lparr>cs_sys := (cs_sys x)\<lparr>s_ctl := c2, s_fs := s2\<rparr>\<rparr>"
  define c8 where "c8 = addProgress 1 (set_worker 0 0 WIdle c2)"
  have h8: "heap_ex c8 = [the_ex [''n1'' \<mapsto> 0] [] True WIdle]" "heap_pod c8 = heap_pod c2"
    by (simp_all add: c8_def set_worker_def upd_ex_def h7 the_ex_def addProgress_def)
  let ?x8 = "?x7\<lparr>cs_sys := (cs_sys ?x7)\<lparr>s_ctl := c8\<rparr>\<rparr>"
  have s8: "cstep sample_job ?x7 (WorkerTurn 9 0 0) ?x8"
    by (rule sample_turn) (use h7(2) in \<open>simp_all add: h7(1) the_ex_def worker_turn_def c8_def\<close>)
  define c9 where "c9 = set_worker 0 0 WExit c8"
  let ?x9 = "?x8\<lparr>cs_sys := (cs_sys ?x8)\<lparr>s_ctl := c9\<rparr>\<rparr>"
  have s9: "cstep sample_job ?x8 (WorkerTurn 9 0 0) ?x9"
    by (rule sample_turn) (simp_all add: h8(1) the_ex_def worker_turn_def c9_def)
  have "crun sample_job ?x7 [WorkerTurn 9 0 0, WorkerTurn 9 0 0] ?x9"
    by (rule crun_Cons [OF s8 crun_Cons [OF s9 crun_Nil]])
  from srun_internal [OF this, of sample_sv ?y]
  have r9: "srun sample_job sample_sv (set_state c2 s2 ?y) [Internal (WorkerTurn 9 0 0), Internal (WorkerTurn 9 0 0)] (?y\<lparr>sy_cron := ?x9\<rparr>)"
    by (simp add: set_state_def)
  let ?ls = "map Internal ls @ Reconciled 9 ended_api (''ns'', ''p'') # [Internal (WorkerTurn 9 0 0), Internal (WorkerTurn 9 0 0)]"
  have "srun sample_job sample_sv sample_sys_init ?ls (?y\<lparr>sy_cron := ?x9\<rparr>)"
    by (rule srun_append [OF r srun_Cons [OF s7 r9]])
  moreover have "heap_ex c9 = [the_ex [''n1'' \<mapsto> 0] [] True WExit]" "heap_pod c9 = heap_pod c2"
    by (simp_all add: c9_def set_worker_def upd_ex_def h8 the_ex_def)
  ultimately show ?thesis using h7(2)
    by (intro exI [of _ ?ls] exI [of _ "?y\<lparr>sy_cron := ?x9\<rparr>"]) simp
qed

section \<open>Witnesses\<close>

lemma sample_laws: "list_law (cj_client sample_job)" "owner_law (cj_setOwner sample_job)" "PodPoolSize (cj_cfg sample_job) = 1"
  using sample_list_law owner_law_set_owner by (simp_all add: pool_cfg_def)

theorem system_refines_cron_witness:
  "\<exists>ls y ms. srun sample_job sample_sv sample_sys_init ls y \<and> crun sample_job (sample_cron_init sample_template) ms (sy_cron y)
     \<and> ex_workers (heap_ex (sy_ctl y) ! 0) = [WExit]"
proof -
  obtain ls y where y: "srun sample_job sample_sv sample_sys_init ls y"
    "heap_ex (sy_ctl y) = [the_ex [''n1'' \<mapsto> 0] [] True WExit]" using sample_system by blast
  obtain ms where "crun sample_job (sample_cron_init sample_template) ms (sy_cron y)"
    using system_refines_cron [OF y(1)] by blast
  with y show ?thesis by (intro exI [of _ ls] exI [of _ y] exI [of _ ms]) (simp add: the_ex_def)
qed

theorem system_causes_witness:
  "\<exists>ls y. srun sample_job sample_sv sample_sys_init ls y \<and> ended_at ls the_id ''n1''"
proof -
  obtain ls y where y: "srun sample_job sample_sv sample_sys_init ls y"
    "heap_ex (sy_ctl y) = [the_ex [''n1'' \<mapsto> 0] [] True WExit]" "terminated (heap_pod (sy_ctl y) ! 0) \<noteq> None"
    using sample_system by blast
  have h: "0 < length (heap_ex (sy_ctl y))" "ex_pods (heap_ex (sy_ctl y) ! 0) ''n1'' = Some 0"
    "ex_id (heap_ex (sy_ctl y) ! 0) = the_id" by (simp_all add: y(2) the_ex_def)
  from system_causes [OF y(1) sample_laws(1) h(1,2)] y h(3) show ?thesis by metis
qed

theorem system_bound_witness:
  "\<exists>ls y. srun sample_job sample_sv sample_sys_init ls y
     \<and> card {n \<in> pd_NodeName ` set (created_pods 0 (sy_cron y)). \<not> ended_at ls the_id n} \<le> 1"
proof -
  obtain ls y where y: "srun sample_job sample_sv sample_sys_init ls y"
    "heap_ex (sy_ctl y) = [the_ex [''n1'' \<mapsto> 0] [] True WExit]" using sample_system by blast
  have h: "0 < length (heap_ex (sy_ctl y))" "ex_id (heap_ex (sy_ctl y) ! 0) = the_id" by (simp_all add: y(2) the_ex_def)
  from system_bound [OF y(1) sample_laws(1,2) h(1)] y(1) h(2) sample_laws(3) show ?thesis by auto
qed

theorem system_completes_witness:
  "\<exists>ls y. srun sample_job sample_sv sample_sys_init ls y
     \<and> ''n1'' \<in> pd_NodeName ` set (created_pods 0 (sy_cron y)) \<and> ended_at ls the_id ''n1''"
proof -
  obtain ls y where y: "srun sample_job sample_sv sample_sys_init ls y"
    "heap_ex (sy_ctl y) = [the_ex [''n1'' \<mapsto> 0] [] True WExit]" using sample_system by blast
  have h: "0 < length (heap_ex (sy_ctl y))" "ex_id (heap_ex (sy_ctl y) ! 0) = the_id"
    "\<forall>wk \<in> set (ex_workers (heap_ex (sy_ctl y) ! 0)). wk = WExit" "''n1'' \<in> dom (ex_pods (heap_ex (sy_ctl y) ! 0))"
    by (simp_all add: y(2) the_ex_def)
  have "0 < PodPoolSize (cj_cfg sample_job)" using sample_laws(3) by simp
  from system_completes [OF y(1) sample_laws(1,2) h(1) this h(3,4)] y(1) h(2) show ?thesis by auto
qed

end
