(* ===== verification/Progress.thy ===== *)
theory Progress
  imports Cron_Properties
begin

text \<open>
  That a run of the cron job can always finish: no operation it needs panics, a worker can always
  make room in a full channel once its pod has ended, and then the loop goes on.
\<close>

section \<open>What every step keeps\<close>

text \<open>Successful operations keep the collector well formed and the report settings.\<close>

lemma withLabelValues_arity:
  "gauge_laws gv \<Longrightarrow> withLabelValues gv h m a v = Ret m' \<Longrightarrow> vec_arity gv (em_gauge m') = vec_arity gv (em_gauge m)"
  using gauge_lawsD(4) by (fastforce simp: withLabelValues_Ret vec_arity_def)

lemma set_fresh_arity:
  "gauge_laws gv \<Longrightarrow> set_fresh gv hm lvs v = Ret hm' \<Longrightarrow> vec_arity gv (em_gauge (snd hm')) = vec_arity gv (em_gauge (snd hm))"
  by (auto simp: set_fresh_def Let_def dest: withLabelValues_arity)

lemma set_node_metric_arity:
  assumes "gauge_laws gv" and "set_node_metric gv l hm n e v = Ret (h', m')"
  shows "vec_arity gv (em_gauge m') = vec_arity gv (em_gauge (snd hm))"
proof -
  obtain hm1 where s: "set_fresh gv hm [n, e] v = Ret hm1" "(if l then set_fresh gv hm1 [n, labelValueLatest] v else Ret hm1) = Ret (h', m')"
    using assms(2) by (auto simp: set_node_metric_def)
  then show ?thesis
    using set_fresh_arity [OF assms(1) s(1)] set_fresh_arity [OF assms(1), of hm1 "[n, labelValueLatest]" v "(h', m')"]
    by (auto split: if_splits)
qed

lemma ProcessingFinished_wf: "col_wf gv c \<Longrightarrow> ProcessingFinished gv c n e b = Ret c' \<Longrightarrow> col_wf gv c'"
  unfolding ProcessingFinished_Ret
  by (auto intro!: col_wf_set_metric dest!: set_node_metric_arity [rotated]) (auto simp: col_wf_def dest: spec [of _ MProc])

lemma Duration_wf: "col_wf gv c \<Longrightarrow> Duration gv c n e d = Ret c' \<Longrightarrow> col_wf gv c'"
  unfolding Duration_Ret
  by (auto intro!: col_wf_set_metric dest!: set_node_metric_arity [rotated]) (auto simp: col_wf_def dest: spec [of _ MDur])

lemma MetricFor_wf:
  assumes wf: "col_wf gv c" and r: "MetricFor gv c e n k x = Ret c'"
  shows "col_wf gv c'"
proof (cases "map_of (gauges c) k")
  case None
  with assms show ?thesis by (simp add: MetricFor_unknown)
next
  case (Some g)
  let ?vs = "label_values e n x (cm_labels g)"
  let ?h = "slices c @ [?vs]" and ?a = "length (slices c)"
  have laws: "gauge_laws gv" and ar: "vec_arity gv (em_gauge (cm_gauge g)) = metric_arity c (MCustom k)"
    using wf Some unfolding col_wf_def by (force dest!: spec [of _ "MCustom k"])+
  obtain m1 where w1: "withLabelValues gv ?h (cm_gauge g) ?a (Value x) = Ret m1"
    and c': "\<exists>m2 h2. (m2 = m1 \<or> withLabelValues gv h2 m1 ?a (Value x) = Ret m2) \<and> c' = set_metric (MCustom k) m2 h2 c"
    using r Some by (fastforce simp: MetricFor_def Let_def set_metric_def split: if_splits)
  from c' obtain m2 h2 where "m2 = m1 \<or> withLabelValues gv h2 m1 ?a (Value x) = Ret m2" and m2: "c' = set_metric (MCustom k) m2 h2 c"
    by blast
  then have "vec_arity gv (em_gauge m2) = metric_arity c (MCustom k)"
    using withLabelValues_arity [OF laws w1] withLabelValues_arity [OF laws, of h2 m1 ?a "Value x" m2] ar by auto
  then show ?thesis unfolding m2 by (rule col_wf_set_metric [OF wf, rotated]) (simp add: Some)
qed

lemma record_results_wf: "col_wf gv c \<Longrightarrow> record_results gv e n rs c = Ret c' \<Longrightarrow> col_wf gv c'"
  by (induction gv e n rs c rule: record_results.induct) (auto dest: MetricFor_wf)

lemma Prune_wf: "col_wf gv c \<Longrightarrow> col_wf gv (Prune gv c e)"
  by (auto simp: col_wf_def metric_of_Prune vec_arity_def prune_desc) (auto simp: Prune_def)

lemma fold_Prune_wf: "col_wf gv c \<Longrightarrow> col_wf gv (fold (\<lambda>f pr. Prune gv pr (g f)) fs c)"
  by (induction fs arbitrary: c) (auto intro: Prune_wf)

definition keeps :: "'g gauge_vec \<Rightarrow> 'g controller \<Rightarrow> 'g controller \<Rightarrow> bool" where
  "keeps gv c c' \<longleftrightarrow> (col_wf gv (prom c) \<longrightarrow> col_wf gv (prom c')) \<and> reportDir c' = reportDir c \<and> reportHistory c' = reportHistory c"

lemma keeps_refl [simp]: "keeps gv c c"
  by (simp add: keeps_def)

lemma NewExecution_keeps:
  assumes "NewExecution gv w clk c s n = Ret (eid, c', s')"
  shows "keeps gv c c'"
proof -
  have "col_wf gv (prom c')" if wf: "col_wf gv (prom c)"
  proof -
    have "0 \<le> podPoolSize c" using assms by (auto elim: NewExecution_cases)
    from NewExecution_returns_wf [OF this _ wf, of w clk s n] assms wf show ?thesis by (auto simp: col_wf_def)
  qed
  with assms show ?thesis unfolding keeps_def by (auto elim!: NewExecution_cases)
qed

lemma AddPod_keeps: "AddPod c jb = AddDone c' \<or> AddPod c jb = AddBlocked e c' \<Longrightarrow> keeps gv c c'"
  by (auto simp: AddPod_def chan_send_def register_pod_def keeps_def Let_def split: sum.splits if_splits)

lemma AllAdded_keeps:
  assumes "AllAdded gv sortf t c s eid = Ret (c', s', r)"
  shows "keeps gv c c'"
  using assms
proof (cases rule: AllAdded_cases)
  case (closed e files n c1)
  with prune_files_effect [OF closed(4)] fold_Prune_wf show ?thesis by (auto simp: keeps_def)
qed simp_all

lemma PodTerminated_keeps:
  assumes "PodTerminated gv t c eid n ph = Ret (c', r)"
  shows "keeps gv c c'"
proof (cases "podForID c eid n")
  case (Inl x)
  with assms show ?thesis by (simp add: PodTerminated_def)
next
  case (Inr pa)
  show ?thesis
  proof (cases "terminated (heap_pod c ! pa) = None")
    case False
    with Inr assms show ?thesis by (simp add: PodTerminated_def Let_def)
  next
    case True
    with Inr assms obtain p1 d where "Duration gv (prom c) n eid d = Ret p1"
      "prom c' = p1 \<or> ProcessingFinished gv p1 n eid True = Ret (prom c')"
      "reportDir c' = reportDir c" "reportHistory c' = reportHistory c"
      by (auto simp: PodTerminated_def Let_def split: if_splits)
    then show ?thesis unfolding keeps_def using Duration_wf ProcessingFinished_wf by metis
  qed
qed

lemma ReportReceived_keeps:
  assumes "ReportReceived gv t c eid n b rs = Ret c'"
  shows "keeps gv c c'"
proof -
  obtain p1 p2 where p: "record_results gv eid n rs (prom c) = Ret p1" "ProcessingFinished gv p1 n eid b = Ret p2"
    and r: "(case forID (c\<lparr>prom := p2\<rparr>) eid of Inl x \<Rightarrow> Ret (c\<lparr>prom := p2\<rparr>)
       | Inr e \<Rightarrow> (case ex_pod (c\<lparr>prom := p2\<rparr>) e n of Inl x \<Rightarrow> Ret (c\<lparr>prom := p2\<rparr>)
           | Inr pa \<Rightarrow> Ret (upd_pod pa (\<lambda>p. p\<lparr>reportReceived := Some t, status := ''ReportReceived''\<rparr>) (c\<lparr>prom := p2\<rparr>)))) = Ret c'"
    using assms unfolding ReportReceived_def Let_def go_bind_Ret_iff by blast
  from r have "prom c' = p2 \<and> reportDir c' = reportDir c \<and> reportHistory c' = reportHistory c"
    by (auto split: sum.splits)
  with p show ?thesis unfolding keeps_def using record_results_wf ProcessingFinished_wf by metis
qed

lemma worker_turn_keeps: "worker_turn t e w c = Some (c', jo) \<Longrightarrow> keeps gv c c'"
  by (auto simp: worker_turn_def keeps_def set_worker_def split: worker.splits list.splits if_splits sum.splits)

text \<open>
  The job that \<open>AddPod\<close> is blocked on is for the execution of the loop, and the report settings
  are those of the configuration.
\<close>

definition live_ok :: "('g, 'k) cronJob \<Rightarrow> ('g, 'k) cron_sys \<Rightarrow> bool" where
  "live_ok j x \<longleftrightarrow> col_wf (cj_gauge j) (prom (s_ctl (cs_sys x)))
     \<and> reportDir (s_ctl (cs_sys x)) = ReportDirectory (cj_cfg j)
     \<and> reportHistory (s_ctl (cs_sys x)) = wrap64 (ReportHistory (cj_cfg j) + 1)
     \<and> (\<forall>eid addr ns. cs_pc x = CBlocked eid addr ns \<longrightarrow>
          (\<exists>e jb. s_pending (cs_sys x) = Some (e, jb) \<and> executions (s_ctl (cs_sys x)) eid = Some e))"

lemma live_okD:
  assumes "live_ok j x"
  shows "col_wf (cj_gauge j) (prom (s_ctl (cs_sys x)))" "reportDir (s_ctl (cs_sys x)) = ReportDirectory (cj_cfg j)"
    "reportHistory (s_ctl (cs_sys x)) = wrap64 (ReportHistory (cj_cfg j) + 1)"
    "cs_pc x = CBlocked eid addr ns \<Longrightarrow>
      \<exists>e jb. s_pending (cs_sys x) = Some (e, jb) \<and> executions (s_ctl (cs_sys x)) eid = Some e"
  using assms unfolding live_ok_def by blast+

lemma live_ok_init: "col_wf (cj_gauge j) prm \<Longrightarrow> live_ok j (cron_init j prm f k)"
  by (simp add: live_ok_def cron_init_def init_def NewController_def)

lemma live_ok_frame:
  assumes "live_ok j x" and "keeps (cj_gauge j) (s_ctl (cs_sys x)) (s_ctl (cs_sys x'))"
    and "(\<forall>eid addr ns. cs_pc x' \<noteq> CBlocked eid addr ns) \<or> cs_pc x' = cs_pc x
      \<and> s_pending (cs_sys x') = s_pending (cs_sys x) \<and> executions (s_ctl (cs_sys x')) = executions (s_ctl (cs_sys x))"
  shows "live_ok j x'"
  using assms unfolding live_ok_def keeps_def by metis

lemma prepare_keeps:
  assumes "startPods_prepare j clk c s k = Ret (c', s', k', pr)"
  shows "keeps (cj_gauge j) c c'"
  using assms by (cases rule: prepare_cases) (auto dest: NewExecution_keeps)

lemma cstep_live:
  assumes "cstep j x l x'" and "cron_ok j x" and "live_ok j x"
  shows "live_ok j x'"
  using assms(1)
proof cases
  case (tick_skip clk)
  with assms(3) show ?thesis by simp
next
  case (tick_abort clk c' f' k')
  have "cs_pc x = CIdle" using cron_okD(2) [OF assms(2)] tick_abort(3) by (cases "cs_pc x") auto
  then show ?thesis by (intro live_ok_frame [OF assms(3)]) (use prepare_keeps [OF tick_abort(4)] tick_abort(2) in simp_all)
next
  case (tick clk c' f' k' eid addr ns)
  show ?thesis by (rule live_ok_frame [OF assms(3)]) (use prepare_keeps [OF tick(4)] tick(2) in simp_all)
next
  case (next_abort eid addr n ns m)
  show ?thesis by (rule live_ok_frame [OF assms(3)]) (use next_abort in simp_all)
next
  case (next_unknown eid addr n ns pj m)
  show ?thesis by (rule live_ok_frame [OF assms(3)]) (use next_unknown in simp_all)
next
  case (next_added eid addr n ns pj e c')
  show ?thesis by (rule live_ok_frame [OF assms(3)]) (use AddPod_keeps [OF disjI1 [OF next_added(6)]] next_added(2) in simp_all)
next
  case (next_blocks eid addr n ns pj e c')
  have "executions (s_ctl (cs_sys x)) (job_ID (pj_job pj)) = Some e \<and> executions c' = executions (s_ctl (cs_sys x))"
    using AddPod_blocked [OF next_blocks(5)] by metis
  then have "executions c' eid = Some e" using startPods_job_Inr(2) [OF next_blocks(4)] by simp
  with AddPod_keeps [OF disjI2 [OF next_blocks(5)], of "cj_gauge j"] assms(3) show ?thesis
    by (simp add: live_ok_def keeps_def next_blocks(2))
next
  case (unblocked eid addr ns e jb c')
  have "keeps (cj_gauge j) (s_ctl (cs_sys x)) c'" by (simp add: keeps_def chan_send_done(3) [OF unblocked(5)])
  then show ?thesis by (intro live_ok_frame [OF assms(3)]) (use unblocked(2) in simp_all)
next
  case (finish eid addr t c' f' r)
  show ?thesis by (rule live_ok_frame [OF assms(3)]) (use AllAdded_keeps [OF finish(4)] finish(2) in simp_all)
next
  case (pod_ends t eid n ph c' r)
  show ?thesis by (rule live_ok_frame [OF assms(3)])
    (use PodTerminated_keeps [OF pod_ends(3)] PodTerminated_effect(2) [OF pod_ends(3)] pod_ends(2) in simp_all)
next
  case (report t eid n b rs c')
  show ?thesis by (rule live_ok_frame [OF assms(3)])
    (use ReportReceived_keeps [OF report(3)] ReportReceived_effect(2) [OF report(3)] report(2) in simp_all)
next
  case (worker e w t c' jo)
  have y: "s_ctl (cs_sys x') = c'" "cs_pc x' = cs_pc x" "s_pending (cs_sys x') = s_pending (cs_sys x)"
    by (auto simp: worker(2) create_job_def split: option.splits)
  show ?thesis by (rule live_ok_frame [OF assms(3)])
    (use worker_turn_keeps [OF worker(5)] worker_turn_reg(2) [OF worker(5)] y in simp_all)
next
  case (files f')
  show ?thesis by (rule live_ok_frame [OF assms(3)]) (use files(2) in simp_all)
qed

text \<open>All invariants of the cron job.\<close>

definition all_ok :: "('g, 'k) cronJob \<Rightarrow> ('g, 'k) cron_sys \<Rightarrow> bool" where
  "all_ok j x \<longleftrightarrow> cron_ok j x \<and> list_law (cj_client j) \<and> open_inv {} x \<and> live_ok j x"

interpretation live: step_invariant "cstep j" "all_ok j"
proof unfold_locales
  fix x l x'
  assume "all_ok j x" and "cstep j x l x'"
  then show "all_ok j x'" using cstep_ok cstep_open cstep_live unfolding all_ok_def by blast
qed

lemma all_ok_init:
  "col_wf (cj_gauge j) prm \<Longrightarrow> list_law (cj_client j) \<Longrightarrow> all_ok j (cron_init j prm f k)"
  by (simp add: all_ok_def cron_ok_init live_ok_init) (simp add: open_inv_def cron_init_def)

lemmas crun_all_ok = live.trace_inv [folded crun_def]

section \<open>Making room\<close>

text \<open>The steps by which a run goes on: the loop's, the workers', and ends of pods of this execution.\<close>

fun goes_on :: "string \<Rightarrow> cron_label \<Rightarrow> bool" where
  "goes_on eid (PodEnds t i n ph) = (i = eid)"
| "goes_on eid NextJob = True"
| "goes_on eid Unblocked = True"
| "goes_on eid (Finish t) = True"
| "goes_on eid (WorkerTurn t e w) = True"
| "goes_on eid _ = False"

definition moves :: "('g, 'k) cronJob \<Rightarrow> string \<Rightarrow> ('g, 'k) cron_sys \<Rightarrow> ('g, 'k) cron_sys \<Rightarrow> bool" where
  "moves j eid x x' \<longleftrightarrow> (\<exists>ls. crun j x ls x' \<and> list_all (goes_on eid) ls)"

lemma moves_refl [simp]: "moves j eid x x"
  unfolding moves_def by (rule exI [of _ "[]"]) (simp add: crun_Nil)

lemma moves_step: "cstep j x l x' \<Longrightarrow> goes_on eid l \<Longrightarrow> moves j eid x x'"
  unfolding moves_def by (rule exI [of _ "[l]"]) (simp add: crun_Cons crun_Nil)

lemma moves_trans: "moves j eid x y \<Longrightarrow> moves j eid y z \<Longrightarrow> moves j eid x z"
  unfolding moves_def by (metis crun_append list_all_append)

lemma moves_all_ok: "moves j eid x x' \<Longrightarrow> all_ok j x \<Longrightarrow> all_ok j x'"
  unfolding moves_def using crun_all_ok by blast

text \<open>\<open>serves e x x'\<close>: moves of the workers, which leave the loop where it is.\<close>

definition serves :: "('g, 'k) cronJob \<Rightarrow> string \<Rightarrow> nat \<Rightarrow> ('g, 'k) cron_sys \<Rightarrow> ('g, 'k) cron_sys \<Rightarrow> bool" where
  "serves j eid e x x' \<longleftrightarrow> moves j eid x x' \<and> cs_pc x' = cs_pc x \<and> s_pending (cs_sys x') = s_pending (cs_sys x)
     \<and> s_fs (cs_sys x') = s_fs (cs_sys x) \<and> executions (s_ctl (cs_sys x')) = executions (s_ctl (cs_sys x))
     \<and> ex_pods (heap_ex (s_ctl (cs_sys x')) ! e) = ex_pods (heap_ex (s_ctl (cs_sys x)) ! e)
     \<and> chan_cap (heap_ex (s_ctl (cs_sys x')) ! e) = chan_cap (heap_ex (s_ctl (cs_sys x)) ! e)"

lemma serves_trans: "serves j eid e x y \<Longrightarrow> serves j eid e y z \<Longrightarrow> serves j eid e x z"
  unfolding serves_def using moves_trans by metis

text \<open>
  The setting: an execution with at least one worker, the nodes and the identifier valid label
  values.
\<close>

definition setting :: "('g, 'k) cronJob \<Rightarrow> string \<Rightarrow> nat \<Rightarrow> ('g, 'k) cron_sys \<Rightarrow> bool" where
  "setting j eid e x \<longleftrightarrow> all_ok j x \<and> executions (s_ctl (cs_sys x)) eid = Some e
     \<and> 0 < chan_cap (heap_ex (s_ctl (cs_sys x)) ! e) \<and> list_all (gv_utf8 (cj_gauge j)) [eid, labelValueLatest]
     \<and> (\<forall>n \<in> dom (ex_pods (heap_ex (s_ctl (cs_sys x)) ! e)). gv_utf8 (cj_gauge j) n)"

lemma setting_serves: "setting j eid e x \<Longrightarrow> serves j eid e x x' \<Longrightarrow> setting j eid e x'"
  unfolding setting_def serves_def using moves_all_ok by metis

lemma settingD:
  assumes "setting j eid e x"
  shows "e < length (heap_ex (s_ctl (cs_sys x)))" "heap_ok (s_ctl (cs_sys x))"
    "ex_workers (heap_ex (s_ctl (cs_sys x)) ! e) \<noteq> []"
    "wk \<in> set (ex_workers (heap_ex (s_ctl (cs_sys x)) ! e)) \<Longrightarrow> worker_ok (heap_ex (s_ctl (cs_sys x)) ! e) wk"
proof -
  have s: "sys_ok (cs_sys x)" and e: "executions (s_ctl (cs_sys x)) eid = Some e"
    using assms by (auto simp: setting_def all_ok_def cron_ok_def)
  show "heap_ok (s_ctl (cs_sys x))" by (rule sys_okD(1) [OF s])
  from heap_ok_execution [OF this e] show l: "e < length (heap_ex (s_ctl (cs_sys x)))" by simp
  have p: "pool_inv (is_terminated (s_ctl (cs_sys x))) (created_nodes e (cs_sys x)) (pending_nodes e (cs_sys x)) (heap_ex (s_ctl (cs_sys x)) ! e)"
    using sys_okD(2) [OF s l] by (simp add: ex_ok_def)
  show "ex_workers (heap_ex (s_ctl (cs_sys x)) ! e) \<noteq> []" using pool_invD(1) [OF p] assms by (auto simp: setting_def)
  show "wk \<in> set (ex_workers (heap_ex (s_ctl (cs_sys x)) ! e)) \<Longrightarrow> worker_ok (heap_ex (s_ctl (cs_sys x)) ! e) wk"
    by (rule pool_invD(5) [OF p])
qed

lemma serves_turn:
  assumes "setting j eid e x" and "worker_turn t e 0 (s_ctl (cs_sys x)) = Some (c', jo)"
  obtains x' where "serves j eid e x x'" "s_ctl (cs_sys x') = c'"
proof -
  note d = settingD [OF assms(1)]
  let ?x' = "create_job j e jo (x\<lparr>cs_sys := (cs_sys x)\<lparr>s_ctl := c',
      s_created := s_created (cs_sys x) @ (case jo of None \<Rightarrow> [] | Some jb \<Rightarrow> [(e, jb)])\<rparr>\<rparr>)"
  have "cstep j x (WorkerTurn t e 0) ?x'" by (rule cstep.worker [OF d(1) _ assms(2)]) (use d(3) in simp)
  then have "moves j eid x ?x'" by (rule moves_step) simp
  moreover have "cs_pc ?x' = cs_pc x" "s_pending (cs_sys ?x') = s_pending (cs_sys x)" "s_fs (cs_sys ?x') = s_fs (cs_sys x)"
    "s_ctl (cs_sys ?x') = c'" by (auto simp: create_job_def split: option.splits)
  moreover have "executions c' = executions (s_ctl (cs_sys x))" by (rule worker_turn_reg(2) [OF assms(2)])
  moreover have "ex_pods (heap_ex c' ! e) = ex_pods (heap_ex (s_ctl (cs_sys x)) ! e)
      \<and> chan_cap (heap_ex c' ! e) = chan_cap (heap_ex (s_ctl (cs_sys x)) ! e)"
    using assms(2) d(1) by (auto simp: worker_turn_def set_worker_def upd_ex_def upd_pod_def addProgress_def
      split: worker.splits list.splits if_splits sum.splits)
  ultimately show thesis by (intro that [of ?x']) (simp_all add: serves_def)
qed

definition first_worker :: "nat \<Rightarrow> ('g, 'k) cron_sys \<Rightarrow> worker" where
  "first_worker e x = ex_workers (heap_ex (s_ctl (cs_sys x)) ! e) ! 0"

definition buffer :: "nat \<Rightarrow> ('g, 'k) cron_sys \<Rightarrow> Job list" where
  "buffer e x = chan_buf (heap_ex (s_ctl (cs_sys x)) ! e)"

lemma room_idle:
  assumes s: "setting j eid e x" and w: "first_worker e x = WIdle" and b: "buffer e x = jb # js"
  shows "\<exists>x'. serves j eid e x x' \<and> buffer e x' = js"
proof -
  let ?c' = "set_worker e 0 (WCreate jb) (upd_ex e (\<lambda>x. x\<lparr>chan_buf := js\<rparr>) (s_ctl (cs_sys x)))"
  have "worker_turn 0 e 0 (s_ctl (cs_sys x)) = Some (?c', None)"
    using w b by (simp add: worker_turn_def first_worker_def buffer_def)
  then obtain x' where "serves j eid e x x'" "s_ctl (cs_sys x') = ?c'" using serves_turn [OF s] by blast
  with settingD(1) [OF s] show ?thesis
    by (intro exI [of _ x']) (simp add: buffer_def set_worker_def upd_ex_def)
qed

lemma room_wait:
  assumes s: "setting j eid e x" and w: "first_worker e x = WWait k pa" and b: "buffer e x = jb # js"
  shows "\<exists>x'. serves j eid e x x' \<and> buffer e x' = js"
proof -
  note d = settingD [OF s]
  let ?c = "s_ctl (cs_sys x)"
  have p: "ex_pods (heap_ex ?c ! e) (job_Node k) = Some pa"
    using d(4) [of "first_worker e x"] d(3) w by (simp add: first_worker_def)
  have ex: "executions ?c eid = Some e" using s by (simp add: setting_def)
  have pf: "podForID ?c eid (job_Node k) = Inr pa" using p ex by (auto simp: podForID_Inr)
  have wf: "col_wf (cj_gauge j) (prom ?c)" using s by (auto simp: setting_def all_ok_def dest: live_okD(1))
  have u: "list_all (gv_utf8 (cj_gauge j)) [job_Node k, eid, labelValueLatest]" using s p by (auto simp: setting_def)
  obtain c1 r where c1: "PodTerminated (cj_gauge j) 0 ?c eid (job_Node k) PodSucceeded = Ret (c1, r)"
    using PodTerminated_returns [OF wf u] by blast
  let ?x1 = "x\<lparr>cs_sys := (cs_sys x)\<lparr>s_ctl := c1\<rparr>\<rparr>"
  note ef = PodTerminated_effect [OF c1]
  have "moves j eid x ?x1" by (rule moves_step [OF cstep.pod_ends [OF c1]]) simp
  then have s1: "serves j eid e x ?x1" using ef(1,2) by (simp add: serves_def)
  note set1 = setting_serves [OF s s1]
  have "terminated (heap_pod c1 ! pa) \<noteq> None"
    using c1 heap_ok_pod [OF d(2,1) p] pf by (cases rule: PodTerminated_cases) auto
  moreover have w1: "ex_workers (heap_ex c1 ! e) ! 0 = WWait k pa" using w ef(1) by (simp add: first_worker_def)
  ultimately have "worker_turn 0 e 0 (s_ctl (cs_sys ?x1)) = Some (addProgress 1 (set_worker e 0 WIdle c1), None)"
    by (simp add: worker_turn_def)
  then obtain x2 where x2: "serves j eid e ?x1 x2" "s_ctl (cs_sys x2) = addProgress 1 (set_worker e 0 WIdle c1)"
    using serves_turn [OF set1] by blast
  have "first_worker e x2 = WIdle" "buffer e x2 = jb # js"
    using d(1,3) b ef(1) by (simp_all add: first_worker_def buffer_def x2(2) set_worker_def upd_ex_def)
  from room_idle [OF setting_serves [OF set1 x2(1)] this] s1 x2(1) show ?thesis using serves_trans by metis
qed

lemma room_start:
  assumes s: "setting j eid e x" and w: "first_worker e x = WStart k" and b: "buffer e x = jb # js"
  shows "\<exists>x'. serves j eid e x x' \<and> buffer e x' = js"
proof -
  note d = settingD [OF s]
  let ?c = "s_ctl (cs_sys x)"
  obtain pa where p: "ex_pods (heap_ex ?c ! e) (job_Node k) = Some pa"
    using d(4) [of "first_worker e x"] d(3) w by (auto simp: first_worker_def)
  let ?c' = "addProgress 1 (set_worker e 0 (WWait k pa) (upd_pod pa (\<lambda>p. p\<lparr>started := 0, status := ''Started''\<rparr>) ?c))"
  have "worker_turn 0 e 0 ?c = Some (?c', None)"
    using w p by (simp add: worker_turn_def first_worker_def ex_pod_def)
  then obtain x1 where x1: "serves j eid e x x1" "s_ctl (cs_sys x1) = ?c'" using serves_turn [OF s] by blast
  have "first_worker e x1 = WWait k pa" "buffer e x1 = jb # js"
    using d(1,3) b by (simp_all add: first_worker_def buffer_def x1(2) set_worker_def upd_ex_def)
  from room_wait [OF setting_serves [OF s x1(1)] this] x1(1) show ?thesis using serves_trans by metis
qed

lemma room_create:
  assumes s: "setting j eid e x" and w: "first_worker e x = WCreate k" and b: "buffer e x = jb # js"
  shows "\<exists>x'. serves j eid e x x' \<and> buffer e x' = js"
proof -
  note d = settingD [OF s]
  let ?c' = "set_worker e 0 (WStart k) (s_ctl (cs_sys x))"
  have "worker_turn 0 e 0 (s_ctl (cs_sys x)) = Some (?c', Some k)"
    using w by (simp add: worker_turn_def first_worker_def)
  then obtain x1 where x1: "serves j eid e x x1" "s_ctl (cs_sys x1) = ?c'" using serves_turn [OF s] by blast
  have "first_worker e x1 = WStart k" "buffer e x1 = jb # js"
    using d(1,3) b by (simp_all add: first_worker_def buffer_def x1(2) set_worker_def upd_ex_def)
  from room_start [OF setting_serves [OF s x1(1)] this] x1(1) show ?thesis using serves_trans by metis
qed

text \<open>A job in the buffer of an open channel can be taken.\<close>

lemma make_room:
  assumes s: "setting j eid e x" and b: "buffer e x = jb # js"
    and cl: "\<not> chan_closed (heap_ex (s_ctl (cs_sys x)) ! e)"
  shows "\<exists>x'. serves j eid e x x' \<and> buffer e x' = js"
proof (cases "first_worker e x")
  case WExit
  have "first_worker e x \<in> set (ex_workers (heap_ex (s_ctl (cs_sys x)) ! e))"
    using settingD(3) [OF s] by (simp add: first_worker_def)
  from settingD(4) [OF s this] WExit cl show ?thesis by simp
qed (use room_idle [OF s _ b] room_create [OF s _ b] room_start [OF s _ b] room_wait [OF s _ b] in blast)+


section \<open>The loop goes on\<close>

lemma setting_open:
  assumes "setting j eid e x" and "loop_id (cs_pc x) = Some eid"
  shows "chan_open (s_ctl (cs_sys x)) e"
  using assms by (auto simp: setting_def all_ok_def open_inv_def)

text \<open>The send that \<open>AddPod\<close> is blocked on goes through once a worker has taken a job.\<close>

lemma unblock:
  assumes s: "setting j eid e x" and pc: "cs_pc x = CBlocked eid addr ns"
  shows "\<exists>x'. moves j eid x x' \<and> setting j eid e x' \<and> cs_pc x' = CLoop eid addr ns \<and> s_fs (cs_sys x') = s_fs (cs_sys x)"
proof -
  have op: "chan_open (s_ctl (cs_sys x)) e" using setting_open [OF s] pc by simp
  have cap: "0 < chan_cap (heap_ex (s_ctl (cs_sys x)) ! e)" using s by (simp add: setting_def)
  have full: "length (buffer e x) \<le> chan_cap (heap_ex (s_ctl (cs_sys x)) ! e)"
  proof -
    have "sys_ok (cs_sys x)" using s by (simp add: setting_def all_ok_def cron_ok_def)
    from sys_okD(2) [OF this settingD(1) [OF s]] show ?thesis
      unfolding ex_ok_def buffer_def by (rule pool_invD(2) [OF conjunct1])
  qed
  have "\<exists>y. serves j eid e x y \<and> length (buffer e y) < chan_cap (heap_ex (s_ctl (cs_sys x)) ! e)"
  proof (cases "buffer e x")
    case Nil
    with cap show ?thesis by (intro exI [of _ x]) (simp add: serves_def)
  next
    case (Cons jb js)
    with make_room [OF s Cons] op full show ?thesis by (auto simp: chan_open_def less_eq_Suc_le)
  qed
  then obtain y where y: "serves j eid e x y" "length (buffer e y) < chan_cap (heap_ex (s_ctl (cs_sys x)) ! e)" by blast
  note sy = setting_serves [OF s y(1)]
  have pcy: "cs_pc y = CBlocked eid addr ns" using y(1) pc by (simp add: serves_def)
  obtain jb where pend: "s_pending (cs_sys y) = Some (e, jb)"
    using live_okD(4) [of j, OF _ pcy] sy by (auto simp: setting_def all_ok_def)
  have opy: "chan_open (s_ctl (cs_sys y)) e" using setting_open [OF sy] pcy by simp
  let ?c' = "upd_ex e (\<lambda>x. x\<lparr>chan_buf := chan_buf x @ [jb]\<rparr>) (s_ctl (cs_sys y))"
  have send: "chan_send e jb (s_ctl (cs_sys y)) = AddDone ?c'"
    using opy y by (simp add: chan_send_def chan_open_def serves_def buffer_def Let_def)
  let ?z = "y\<lparr>cs_sys := (cs_sys y)\<lparr>s_ctl := ?c', s_pending := None\<rparr>, cs_pc := CLoop eid addr ns\<rparr>"
  have z: "moves j eid y ?z" by (rule moves_step [OF cstep.unblocked [OF pcy pend send]]) simp
  then have "setting j eid e ?z"
    using sy moves_all_ok [OF z] settingD(1) [OF sy] by (auto simp: setting_def upd_ex_def)
  then show ?thesis using y(1) z moves_trans [of j eid x y ?z] by (intro exI [of _ ?z]) (auto simp: serves_def)
qed

text \<open>One turn of the loop.\<close>

lemma AddPod_open_channel:
  assumes "executions c (job_ID jb) = Some e" and "chan_open c e"
  shows "\<exists>c'. (AddPod c jb = AddDone c' \<or> AddPod c jb = AddBlocked e c') \<and> executions c' = executions c
    \<and> chan_cap (heap_ex c' ! e) = chan_cap (heap_ex c ! e)
    \<and> dom (ex_pods (heap_ex c' ! e)) = insert (job_Node jb) (dom (ex_pods (heap_ex c ! e)))"
  using assms by (auto simp: AddPod_def forID_def chan_send_def register_pod_def upd_ex_def chan_open_def Let_def)

lemma next_turn:
  assumes s: "setting j eid e x" and pc: "cs_pc x = CLoop eid addr (n # ns)"
    and new: "startPods_job j eid addr n = Ret r" and u: "gv_utf8 (cj_gauge j) (nd_Name n)"
  shows "\<exists>x'. moves j eid x x' \<and> s_fs (cs_sys x') = s_fs (cs_sys x)
    \<and> (cs_pc x' = CIdle \<or> setting j eid e x' \<and> cs_pc x' \<in> {CLoop eid addr ns, CBlocked eid addr ns})"
proof (cases r)
  case (Inl m)
  have "moves j eid x (x\<lparr>cs_pc := CIdle, cs_running := False\<rparr>)"
    by (rule moves_step [OF cstep.next_abort [OF pc new [unfolded Inl]]]) simp
  then show ?thesis by (intro exI [of _ "x\<lparr>cs_pc := CIdle, cs_running := False\<rparr>"]) simp
next
  case (Inr pj)
  note new = new [unfolded Inr]
  note jb = startPods_job_Inr(2) [OF new]
  have e: "executions (s_ctl (cs_sys x)) eid = Some e" using s by (simp add: setting_def)
  have op: "chan_open (s_ctl (cs_sys x)) e" using setting_open [OF s] pc by simp
  obtain c' where a: "AddPod (s_ctl (cs_sys x)) (pj_job pj) = AddDone c' \<or> AddPod (s_ctl (cs_sys x)) (pj_job pj) = AddBlocked e c'"
    and c': "executions c' = executions (s_ctl (cs_sys x))"
      "chan_cap (heap_ex c' ! e) = chan_cap (heap_ex (s_ctl (cs_sys x)) ! e)"
      "dom (ex_pods (heap_ex c' ! e)) = insert (nd_Name n) (dom (ex_pods (heap_ex (s_ctl (cs_sys x)) ! e)))"
    using AddPod_open_channel [of "s_ctl (cs_sys x)" "pj_job pj" e] e op jb by auto
  let ?y = "x\<lparr>cs_sys := (cs_sys x)\<lparr>s_ctl := c'\<rparr>, cs_pc := CLoop eid addr ns, cs_pods := (cs_pods x)((e, nd_Name n) \<mapsto> pj)\<rparr>"
  let ?z = "x\<lparr>cs_sys := (cs_sys x)\<lparr>s_ctl := c', s_pending := Some (e, pj_job pj)\<rparr>,
      cs_pc := CBlocked eid addr ns, cs_pods := (cs_pods x)((e, nd_Name n) \<mapsto> pj)\<rparr>"
  have set: "setting j eid e w" if "moves j eid x w" "s_ctl (cs_sys w) = c'" for w
    using moves_all_ok [OF that(1)] that(2) s c' u by (simp add: setting_def)
  from a show ?thesis
  proof
    assume "AddPod (s_ctl (cs_sys x)) (pj_job pj) = AddDone c'"
    then have "cstep j x NextJob ?y" using cstep.next_added [OF pc new] e by (simp add: forID_def)
    then have "moves j eid x ?y" by (rule moves_step) simp
    with set show ?thesis by (intro exI [of _ ?y]) simp
  next
    assume "AddPod (s_ctl (cs_sys x)) (pj_job pj) = AddBlocked e c'"
    from cstep.next_blocks [OF pc new this] have "moves j eid x ?z" by (rule moves_step) simp
    with set show ?thesis by (intro exI [of _ ?z]) simp
  qed
qed

text \<open>
  What the end of the run rests on: the history setting counts reports, and the report
  directory, if it can be read, has a list of entries.
\<close>

definition can_end :: "('g, 'k) cronJob \<Rightarrow> fs \<Rightarrow> bool" where
  "can_end j f \<longleftrightarrow> sort_law (cj_sort j) \<and> -1 \<le> ReportHistory (cj_cfg j) \<and> ReportHistory (cj_cfg j) < max_int64
     \<and> (case os_ReadDir f (ReportDirectory (cj_cfg j)) of Inl x \<Rightarrow> True | Inr files \<Rightarrow> int (length files) \<le> max_int64)"

lemma end_of_loop:
  assumes s: "setting j eid e x" and pc: "cs_pc x = CLoop eid addr []" and ce: "can_end j (s_fs (cs_sys x))"
  shows "\<exists>x'. moves j eid x x' \<and> cs_pc x' = CIdle"
proof -
  have live: "live_ok j x" and f: "forID (s_ctl (cs_sys x)) eid = Inr e"
    using s by (auto simp: setting_def all_ok_def forID_def)
  have dir: "reportDir (s_ctl (cs_sys x)) = ReportDirectory (cj_cfg j)"
    and h: "reportHistory (s_ctl (cs_sys x)) = ReportHistory (cj_cfg j) + 1"
    using live_okD(2,3) [OF live] ce by (simp_all add: can_end_def wrap64_id int64_range_def min_int64_def)
  have op: "\<not> chan_closed (heap_ex (s_ctl (cs_sys x)) ! e)" using setting_open [OF s] pc by (simp add: chan_open_def)
  have "\<exists>c' f' r. AllAdded (cj_gauge j) (cj_sort j) 0 (s_ctl (cs_sys x)) (s_fs (cs_sys x)) eid = Ret (c', f', r)"
  proof (cases "os_ReadDir (s_fs (cs_sys x)) (ReportDirectory (cj_cfg j))")
    case (Inl y)
    then show ?thesis by (simp add: AllAdded_def f dir)
  next
    case (Inr files)
    have "returns (AllAdded (cj_gauge j) (cj_sort j) 0 (s_ctl (cs_sys x)) (s_fs (cs_sys x)) eid) =
        (if reportHistory (s_ctl (cs_sys x)) < 0 then False else \<not> chan_closed (heap_ex (s_ctl (cs_sys x)) ! e))"
      by (rule AllAdded_returns [OF f, of _ files])
        (use ce Inr dir h in \<open>simp_all add: can_end_def min_int64_def max_int64_def\<close>)
    then show ?thesis using op h ce by (auto simp: returns_iff can_end_def)
  qed
  then obtain c' f' r where r: "AllAdded (cj_gauge j) (cj_sort j) 0 (s_ctl (cs_sys x)) (s_fs (cs_sys x)) eid = Ret (c', f', r)"
    by blast
  from moves_step [OF cstep.finish [OF pc r], of eid] show ?thesis
    by (intro exI [of _ "x\<lparr>cs_sys := (cs_sys x)\<lparr>s_ctl := c', s_fs := f'\<rparr>, cs_pc := CIdle, cs_running := False\<rparr>"]) simp
qed

lemma loop_ends:
  assumes "setting j eid e x" and "cs_pc x \<in> {CLoop eid addr ns, CBlocked eid addr ns}" and "can_end j (s_fs (cs_sys x))"
    and "\<forall>n \<in> set ns. (\<exists>r. startPods_job j eid addr n = Ret r) \<and> gv_utf8 (cj_gauge j) (nd_Name n)"
  shows "\<exists>x'. moves j eid x x' \<and> cs_pc x' = CIdle"
  using assms
proof (induction ns arbitrary: x)
  case Nil
  from Nil(2) have "cs_pc x = CLoop eid addr [] \<or> cs_pc x = CBlocked eid addr []" by simp
  then obtain y where "moves j eid x y" "setting j eid e y" "cs_pc y = CLoop eid addr []" "s_fs (cs_sys y) = s_fs (cs_sys x)"
    using Nil(1) unblock [OF Nil(1)] moves_refl by metis
  with end_of_loop Nil(3) show ?case using moves_trans by metis
next
  case (Cons n ns)
  from Cons(3) have "cs_pc x = CLoop eid addr (n # ns) \<or> cs_pc x = CBlocked eid addr (n # ns)" by simp
  then obtain y where y: "moves j eid x y" "setting j eid e y" "cs_pc y = CLoop eid addr (n # ns)" "s_fs (cs_sys y) = s_fs (cs_sys x)"
    using Cons(2) unblock [OF Cons(2)] moves_refl by metis
  obtain r where "startPods_job j eid addr n = Ret r" "gv_utf8 (cj_gauge j) (nd_Name n)" using Cons(5) by auto
  from next_turn [OF y(2,3) this] obtain z where z: "moves j eid y z" "s_fs (cs_sys z) = s_fs (cs_sys x)"
    "cs_pc z = CIdle \<or> setting j eid e z \<and> cs_pc z \<in> {CLoop eid addr ns, CBlocked eid addr ns}"
    using y(4) by auto
  have xz: "moves j eid x z" by (rule moves_trans [OF y(1) z(1)])
  from z(3) show ?case
  proof
    assume "cs_pc z = CIdle"
    with xz show ?thesis by blast
  next
    assume "setting j eid e z \<and> cs_pc z \<in> {CLoop eid addr ns, CBlocked eid addr ns}"
    with Cons.IH [of z] Cons(4,5) z(2) obtain w where "moves j eid z w" "cs_pc w = CIdle" by auto
    with xz show ?thesis using moves_trans by blast
  qed
qed


section \<open>A run can finish\<close>

definition labels_law :: "(string \<Rightarrow> Pod \<Rightarrow> string + Pod) \<Rightarrow> bool" where
  "labels_law decode \<longleftrightarrow> (\<forall>buf pod. decode buf (zero_Pod\<lparr>pd_Labels := Some Map.empty\<rparr>) = Inr pod \<longrightarrow> pd_Labels pod \<noteq> None)"

lemma startPods_job_returns: "labels_law (cj_decode j) \<Longrightarrow> \<exists>r. startPods_job j eid addr n = Ret r"
proof -
  assume "labels_law (cj_decode j)"
  then have "\<not> (\<exists>m. New (cj_execute j) (cj_decode j) (cj_setOwner j) (cj_cfg j) (nd_Name n) eid addr (Owner (cj_cfg j)) (cj_extender j) = Panic m)"
    unfolding New_panics labels_law_def by blast
  then obtain r where "New (cj_execute j) (cj_decode j) (cj_setOwner j) (cj_cfg j) (nd_Name n) eid addr (Owner (cj_cfg j)) (cj_extender j) = Ret r"
    by (metis go.exhaust)
  then show ?thesis by (simp add: startPods_job_def)
qed

text \<open>
  C16. A run of the cron job cannot be stuck. From every state in which a run is in progress, also
  one in which \<open>AddPod\<close> is blocked on a full channel, the loop, the workers and the end of pods of
  this execution alone bring it to its end: no call panics, a blocked send goes through as soon as
  a worker is free, and \<open>running\<close> is reset, so that the next tick starts a run. It rests on a pool
  with a worker, a template that does not decode to labels \<open>null\<close>, names that are valid label
  values, and a history setting of at least -1.
\<close>

theorem cron_can_finish:
  assumes "crun j (cron_init j prm f k) ls x" and "list_law (cj_client j)"
    and "gauge_laws (cj_gauge j)" and "NewPromCollector (cj_gauge j) reg cfg = Ret (Inr prm)"
    and "0 < PodPoolSize (cj_cfg j)" and "labels_law (cj_decode j)" and "can_end j (s_fs (cs_sys x))"
    and "cs_pc x = CLoop eid addr ns \<or> cs_pc x = CBlocked eid addr ns"
    and "executions (s_ctl (cs_sys x)) eid = Some e"
    and "\<forall>n \<in> {eid, labelValueLatest} \<union> nd_Name ` set ns \<union> dom (ex_pods (heap_ex (s_ctl (cs_sys x)) ! e)). gv_utf8 (cj_gauge j) n"
  shows "\<exists>ls' x'. crun j x ls' x' \<and> list_all (goes_on eid) ls' \<and> cs_pc x' = CIdle \<and> \<not> cs_running x'"
proof -
  have ok: "all_ok j x"
    by (rule crun_all_ok [OF assms(1) all_ok_init [OF col_wf_new [OF assms(3,4)] assms(2)]])
  obtain pls where r: "pool_run j (init (cj_cfg j) prm f) pls (cs_sys x)"
    using crun_ok [OF assms(1) cron_ok_init assms(2)] by (auto simp: cron_init_def)
  have "heap_ok (s_ctl (cs_sys x))" using ok by (auto simp: all_ok_def cron_ok_def dest: sys_okD(1))
  from heap_ok_execution [OF this assms(9)] have "e < length (heap_ex (s_ctl (cs_sys x)))" by simp
  from reachable_pool(2) [OF r this] have "0 < chan_cap (heap_ex (s_ctl (cs_sys x)) ! e)"
    using run_podPoolSize [OF r] assms(5) by (simp add: init_def NewController_def)
  with ok assms(9,10) have s: "setting j eid e x" by (simp add: setting_def)
  have "\<exists>x'. moves j eid x x' \<and> cs_pc x' = CIdle"
    by (rule loop_ends [OF s _ assms(7)]) (use assms(8,10) startPods_job_returns [OF assms(6)] in auto)
  then obtain x' where x': "moves j eid x x'" "cs_pc x' = CIdle" by blast
  have "cron_ok j x'" using moves_all_ok [OF x'(1) ok] by (simp add: all_ok_def)
  from cron_okD(2) [OF this] x' show ?thesis unfolding moves_def by auto
qed

theorem cron_can_finish_witness:
  "\<exists>x ls' x'. crun (sample_cron sample_template) (sample_cron_init sample_template) [Tick sample_clock] x
     \<and> cs_pc x = CLoop the_id ''1.1.1.1'' [sample_node ''n1'' True]
     \<and> crun (sample_cron sample_template) x ls' x' \<and> list_all (goes_on the_id) ls' \<and> cs_pc x' = CIdle"
proof -
  let ?j = "sample_cron sample_template"
  obtain c1 where t: "cstep ?j (sample_cron_init sample_template) (Tick sample_clock) (cron_looping sample_template c1)"
    and h: "heap_ex c1 = [the_ex Map.empty [] False WIdle]" "executions c1 = [the_id \<mapsto> 0]" using sample_tick by blast
  let ?x = "cron_looping sample_template c1"
  have r: "crun ?j (sample_cron_init sample_template) [Tick sample_clock] ?x" using crun_Cons [OF t crun_Nil] .
  have x: "cs_pc ?x = CLoop the_id ''1.1.1.1'' [sample_node ''n1'' True]" "s_ctl (cs_sys ?x) = c1" "s_fs (cs_sys ?x) = dirs_fs"
    by (simp_all add: cron_looping_def dirs_fs_def)
  have l: "labels_law (cj_decode ?j)" by (auto simp: labels_law_def sample_template_def)
  have ce: "can_end ?j (s_fs (cs_sys ?x))"
    unfolding x(3) can_end_def using by_mtime_law dirs_ReadDir
    by (simp add: pool_cfg_def sample_cfg_def max_int64_def)
  have n: "NewPromCollector (cj_gauge ?j) (\<lambda>_. True) sample_cfg = Ret (Inr (sample_collector sample_cfg))"
    using sample_new(1) by simp
  have u: "gv_utf8 (cj_gauge ?j) s" for s by (simp add: map_gauge_vec_def)
  have "\<exists>ls' x'. crun ?j ?x ls' x' \<and> list_all (goes_on the_id) ls' \<and> cs_pc x' = CIdle \<and> \<not> cs_running x'"
    by (rule cron_can_finish [OF r _ _ n _ l ce, where e = 0])
      (use x h u sample_list_law gauge_laws_map_gauge_vec in \<open>simp_all add: pool_cfg_def sample_cfg_def\<close>)
  with r x(1) show ?thesis by blast
qed

end
