(* ===== verification/System_Types.thy ===== *)
theory System_Types
  imports System_Properties Progress
begin

text \<open>
  The typing of the controller's state: pointers lead to objects of the right kind, channels and
  workers have the sizes of the configuration, every metric has as many labels as its vector.
  Every step keeps it, and in a typed state the handlers of requests do not panic.
\<close>

section \<open>Typed states\<close>

definition execution_typed :: "Config \<Rightarrow> execution \<Rightarrow> bool" where
  "execution_typed cfg x \<longleftrightarrow> length (ex_workers x) = nat (PodPoolSize cfg) \<and> length (chan_buf x) \<le> nat (PodPoolSize cfg)
     \<and> (\<forall>w \<in> set (ex_workers x). worker_ok x w)"

definition controller_typed :: "'g gauge_vec \<Rightarrow> Config \<Rightarrow> 'g controller \<Rightarrow> bool" where
  "controller_typed gv cfg c \<longleftrightarrow> heap_ok c \<and> (\<forall>x \<in> set (heap_ex c). execution_typed cfg x) \<and> col_wf gv (prom c)"

text \<open>Results of which every label value is valid.\<close>

definition results_utf8 :: "'g gauge_vec \<Rightarrow> Results \<Rightarrow> bool" where
  "results_utf8 gv rs \<longleftrightarrow> (\<forall>(k, vs) \<in> set rs. \<forall>r \<in> set vs. list_all (gv_utf8 gv \<circ> snd) (res_Labels r))"

lemma record_results_returns:
  assumes "col_wf gv c" and "list_all (gv_utf8 gv) [[], labelValueLatest, e, n]" and "results_utf8 gv rs"
  shows "\<exists>c'. record_results gv e n rs c = Ret c' \<and> col_wf gv c'"
  using assms
proof (induction gv e n rs c rule: record_results.induct)
  case (2 gv e n k rs c)
  then show ?case by (simp add: results_utf8_def)
next
  case (3 gv e n k r rr rs c)
  have "list_all (gv_utf8 gv \<circ> snd) (res_Labels r)" using 3(4) by (simp add: results_utf8_def)
  from MetricFor_returns [OF 3(2,3) this, of k] obtain c1 where c1: "MetricFor gv c e n k r = Ret c1" "col_wf gv c1" by blast
  have "results_utf8 gv ((k, rr) # rs)" using 3(4) by (simp add: results_utf8_def)
  from 3(1) [OF c1(2) 3(3) this] c1(1) show ?case by simp
qed simp

lemma report_returns:
  assumes wf: "col_wf gv (prom c)" and u: "list_all (gv_utf8 gv) [[], labelValueLatest, eid, n]" and rs: "results_utf8 gv rs"
  shows "\<exists>c'. ReportReceived gv t c eid n b rs = Ret c'"
proof -
  obtain p where p: "record_results gv eid n rs (prom c) = Ret p" "col_wf gv p"
    using record_results_returns [OF wf u rs] by blast
  have u': "list_all (gv_utf8 gv) [n, eid, labelValueLatest]" using u by simp
  obtain q where "ProcessingFinished gv p n eid b = Ret q"
    using node_metric_returns [OF p(2), of MProc "procErrorGauge p" n eid "if b then Fin 1 else Fin 0"] u'
    unfolding ProcessingFinished_Ret by fastforce
  with p(1) show ?thesis by (simp add: ReportReceived_def Let_def split: sum.split)
qed

section \<open>The property\<close>

text \<open>
  C4. The state is always well typed, and a request cannot break it. In every state the whole
  controller reaches, the pointers of the maps lead to executions and pods with the right
  identifier and node, no pod is shared by two executions, every execution has the configured
  number of workers and no more buffered jobs, a worker's job is registered where the worker needs
  it, and every metric has the arity of its vector; and then reconciling any pod and recording any
  report whose names and labels are valid label values goes through without a panic.
\<close>

theorem system_typed:
  assumes "srun j sv (sys_init j prm f k) ls y" and "list_law (cj_client j)"
    and "gauge_laws (cj_gauge j)" and "NewPromCollector (cj_gauge j) reg cfg = Ret (Inr prm)"
  shows "controller_typed (cj_gauge j) (cj_cfg j) (sy_ctl y)
    \<and> (\<forall>t api req. (\<forall>pod. pa_Get api req = Inr pod \<longrightarrow>
          list_all (gv_utf8 (cj_gauge j)) [pd_NodeName pod, label_of pod LabelExecutionID, labelValueLatest]) \<longrightarrow>
         (\<exists>y'. sstep j sv y (Reconciled t api req) y'))
    \<and> (\<forall>t eid n b rs. list_all (gv_utf8 (cj_gauge j)) [[], labelValueLatest, eid, n] \<and> results_utf8 (cj_gauge j) rs \<longrightarrow>
         (\<exists>c'. ReportReceived (cj_gauge j) t (sy_ctl y) eid n b rs = Ret c'))"
proof -
  obtain ms where ms: "crun j (cron_init j prm f k) ms (sy_cron y)" using srun_cron [OF assms(1)] by blast
  have ok: "all_ok j (sy_cron y)"
    by (rule crun_all_ok [OF ms all_ok_init [OF col_wf_new [OF assms(3,4)] assms(2)]])
  have wf: "col_wf (cj_gauge j) (prom (sy_ctl y))" using ok by (auto simp: all_ok_def dest: live_okD(1))
  have s: "sys_ok (cs_sys (sy_cron y))" using ok by (simp add: all_ok_def cron_ok_def)
  obtain pls where "pool_run j (init (cj_cfg j) prm f) pls (cs_sys (sy_cron y))"
    using crun_ok [OF ms cron_ok_init assms(2)] by (auto simp: cron_init_def)
  then have size: "podPoolSize (sy_ctl y) = PodPoolSize (cj_cfg j)"
    using run_podPoolSize by (fastforce simp: init_def NewController_def)
  have "execution_typed (cj_cfg j) (heap_ex (sy_ctl y) ! e)" if "e < length (heap_ex (sy_ctl y))" for e
    using sys_okD(2) [OF s that] size pool_invD(1,2,5) unfolding ex_ok_def execution_typed_def by metis
  then have typed: "controller_typed (cj_gauge j) (cj_cfg j) (sy_ctl y)"
    using sys_okD(1) [OF s] wf unfolding controller_typed_def by (metis in_set_conv_nth)
  have "\<exists>y'. sstep j sv y (Reconciled t api req) y'"
    if u: "\<forall>pod. pa_Get api req = Inr pod \<longrightarrow>
          list_all (gv_utf8 (cj_gauge j)) [pd_NodeName pod, label_of pod LabelExecutionID, labelValueLatest]" for t api req
  proof -
    have "\<exists>c' s' r. reconcile (cj_gauge j) api t (sy_ctl y) (sy_fs y) req = Ret (c', s', r)"
    proof (cases "pa_Get api req")
      case (Inl e)
      then show ?thesis by (simp add: Reconcile_def)
    next
      case (Inr pod)
      with u have "list_all (gv_utf8 (cj_gauge j)) [pd_NodeName pod, label_of pod LabelExecutionID, labelValueLatest]" by blast
      from PodTerminated_returns [OF wf this] reconcile_returns [OF Inr] show ?thesis by blast
    qed
    then show ?thesis using sstep.reconciled by blast
  qed
  with typed report_returns [OF wf] show ?thesis by blast
qed

theorem system_typed_witness:
  "\<exists>ls y y'. srun sample_job sample_sv sample_sys_init ls y \<and> heap_ex (sy_ctl y) \<noteq> []
     \<and> controller_typed map_gauge_vec pool_cfg (sy_ctl y)
     \<and> sstep sample_job sample_sv y (Reconciled 9 ended_api (''ns'', ''p'')) y'"
proof -
  obtain ls y where r: "srun sample_job sample_sv sample_sys_init ls y"
    and h: "heap_ex (sy_ctl y) = [the_ex [''n1'' \<mapsto> 0] [] True WExit]" using sample_system by blast
  have l: "list_law (cj_client sample_job)" "gauge_laws (cj_gauge sample_job)"
    using sample_list_law gauge_laws_map_gauge_vec by simp_all
  have n: "NewPromCollector (cj_gauge sample_job) (\<lambda>_. True) sample_cfg = Ret (Inr (sample_collector sample_cfg))"
    using sample_new(1) by simp
  have u: "list_all (gv_utf8 (cj_gauge sample_job)) xs" for xs by (simp add: list_all_iff)
  note t = system_typed [OF r l n]
  from t u obtain y' where "sstep sample_job sample_sv y (Reconciled 9 ended_api (''ns'', ''p'')) y'" by blast
  with r h t show ?thesis by (intro exI [of _ ls] exI [of _ y] exI [of _ y']) simp
qed

end
