(* ===== verification/Server.thy ===== *)
theory Server
  imports Http
begin

text \<open>
  \<open>pkg/http\<close>: the servers themselves: the callback server, the file server and the mock server as
  their constructors make them, with the routes they register, the chain of handlers a request
  runs through, and the injection of what the callback server needs. How gin finds the route of
  a request is an argument, with the documented behaviour as \<open>router_law\<close>.
\<close>

section \<open>Routes\<close>

definition CallbackBasePath :: string where "CallbackBasePath = ''/report/:node/:executionID''"

datatype http_method = GET | POST

text \<open>What stands in front of a handler, and the handlers by their names.\<close>

datatype mw = GinRecovery | Middleware
datatype route_handler = HResult | HFile | HEvent | HPprof string

record route =
  rt_Method :: http_method
  rt_Path :: string
  rt_Chain :: "mw list"
  rt_Handler :: route_handler

text \<open>A group of routes has a common base path and common middleware.\<close>

record router_group =
  gr_Base :: string
  gr_Chain :: "mw list"

definition gin_Group :: "string \<Rightarrow> router_group" where
  "gin_Group base = \<lparr>gr_Base = base, gr_Chain = []\<rparr>"

definition gin_Use :: "mw list \<Rightarrow> router_group \<Rightarrow> router_group" where
  "gin_Use ms g = g\<lparr>gr_Chain := gr_Chain g @ ms\<rparr>"

definition gin_POST :: "router_group \<Rightarrow> string \<Rightarrow> route_handler \<Rightarrow> route" where
  "gin_POST g sub h = \<lparr>rt_Method = POST, rt_Path = gr_Base g @ sub, rt_Chain = gr_Chain g, rt_Handler = h\<rparr>"

definition gin_GET :: "string \<Rightarrow> route_handler \<Rightarrow> route" where
  "gin_GET p h = \<lparr>rt_Method = GET, rt_Path = p, rt_Chain = [], rt_Handler = h\<rparr>"

text \<open>The three routes of the callbacks.\<close>

definition callback_routes :: "router_group \<Rightarrow> route list" where
  "callback_routes rep =
     [gin_POST rep CallbackBaseResultSubPath HResult,
      gin_POST rep CallbackBaseFileSubPath HFile,
      gin_POST rep CallbackBaseEventSubPath HEvent]"

definition SetupProfiling :: "route list" where
  "SetupProfiling =
     [gin_GET ''/debug/pprof/'' (HPprof ''Index''),
      gin_GET ''/debug/pprof/cmdline'' (HPprof ''Cmdline''),
      gin_GET ''/debug/pprof/profile'' (HPprof ''Profile''),
      gin_GET ''/debug/pprof/symbol'' (HPprof ''Symbol''),
      gin_GET ''/debug/pprof/goroutine'' (HPprof ''goroutine''),
      gin_GET ''/debug/pprof/heap'' (HPprof ''heap''),
      gin_GET ''/debug/pprof/threadcreate'' (HPprof ''threadcreate''),
      gin_GET ''/debug/pprof/block'' (HPprof ''block''),
      gin_GET ''/debug/pprof/mutex'' (HPprof ''mutex''),
      gin_GET ''/debug/pprof/allocs'' (HPprof ''allocs''),
      gin_GET ''/debug/pprof/trace'' (HPprof ''trace'')]"

section \<open>The servers\<close>

datatype http_handler = FileServer string | Engine "route list"

record Server =
  sv_Port :: int
  sv_Kind :: string
  sv_Handler :: http_handler
  sv_Config :: Config

definition StaticFileServer :: "int \<Rightarrow> Config \<Rightarrow> Server" where
  "StaticFileServer port cfg =
     \<lparr>sv_Port = port, sv_Kind = ''public'', sv_Handler = FileServer (ReportDirectory cfg), sv_Config = cfg\<rparr>"

text \<open>
  The callback server; a nil interface is \<^term>\<open>None\<close>, and of the event recorder and the client
  only whether they are set.
\<close>

record 'c PostServer =
  ps_Server :: Server
  ps_Controller :: "'c option"
  ps_Config :: Config
  ps_EventRecorder :: bool
  ps_Client :: bool

definition GenericAPIServer :: "int \<Rightarrow> Config \<Rightarrow> 'c PostServer" where
  "GenericAPIServer port cfg =
     (let rep = gin_Use [GinRecovery, Middleware] (gin_Group CallbackBasePath);
          r = callback_routes rep @ SetupProfiling
      in \<lparr>ps_Server = \<lparr>sv_Port = port, sv_Kind = ''internal'', sv_Handler = Engine r, sv_Config = cfg\<rparr>,
          ps_Controller = None, ps_Config = cfg, ps_EventRecorder = False, ps_Client = False\<rparr>)"

definition MockAPIServer :: "int \<Rightarrow> Server" where
  "MockAPIServer port =
     \<lparr>sv_Port = port, sv_Kind = ''internal'', sv_Handler = Engine (callback_routes (gin_Group CallbackBasePath)),
      sv_Config = mock_cfg\<rparr>"

definition PostServer_InjectEventRecorder :: "'c PostServer \<Rightarrow> 'c PostServer" where
  "PostServer_InjectEventRecorder s = s\<lparr>ps_EventRecorder := True\<rparr>"

definition PostServer_InjectController :: "'c \<Rightarrow> 'c PostServer \<Rightarrow> 'c PostServer" where
  "PostServer_InjectController c s = s\<lparr>ps_Controller := Some c\<rparr>"

definition PostServer_InjectReader :: "'c PostServer \<Rightarrow> 'c PostServer" where
  "PostServer_InjectReader s = s\<lparr>ps_Client := True\<rparr>"

text \<open>The configuration of the embedded server stays.\<close>

definition PostServer_InjectConfig :: "Config \<Rightarrow> 'c PostServer \<Rightarrow> 'c PostServer" where
  "PostServer_InjectConfig cfg s = s\<lparr>ps_Config := cfg\<rparr>"

definition ReadyzCheck ::
  "(string \<Rightarrow> int \<times> bool) \<Rightarrow> (int \<Rightarrow> string \<Rightarrow> err option) \<Rightarrow> env \<Rightarrow> Server \<Rightarrow> err option" where
  "ReadyzCheck parseDuration dial env s = HealthzCheck parseDuration dial env (sv_Port s)"

definition PostServer_ReadyzCheck ::
  "(string \<Rightarrow> int \<times> bool) \<Rightarrow> (int \<Rightarrow> string \<Rightarrow> err option) \<Rightarrow> env \<Rightarrow> 'c PostServer \<Rightarrow> err option" where
  "PostServer_ReadyzCheck parseDuration dial env s = ReadyzCheck parseDuration dial env (ps_Server s)"

definition PostServer_HealthzCheck ::
  "(string \<Rightarrow> int \<times> bool) \<Rightarrow> (int \<Rightarrow> string \<Rightarrow> err option) \<Rightarrow> env \<Rightarrow> 'c PostServer \<Rightarrow> err option" where
  "PostServer_HealthzCheck parseDuration dial env s = HealthzCheck parseDuration dial env (sv_Port (ps_Server s))"

section \<open>Finding the route\<close>

text \<open>
  The pattern of a route, segment by segment: \<open>:x\<close> stands for one segment that is not empty, which
  becomes the value of the parameter \<open>x\<close>; any other segment stands for itself.
\<close>

fun match_segs :: "string list \<Rightarrow> string list \<Rightarrow> (string \<times> string) list option" where
  "match_segs [] [] = Some []"
| "match_segs (p # ps) (x # xs) =
     (if p \<noteq> [] \<and> hd p = CHR '':''
      then if x = [] then None else map_option (\<lambda>bs. (tl p, x) # bs) (match_segs ps xs)
      else if p = x then match_segs ps xs else None)"
| "match_segs _ _ = None"

definition match_path :: "string \<Rightarrow> string \<Rightarrow> (string \<times> string) list option" where
  "match_path p path = match_segs (strings_Split CHR ''/'' p) (strings_Split CHR ''/'' path)"

definition candidates :: "route list \<Rightarrow> http_method \<Rightarrow> string \<Rightarrow> route list" where
  "candidates rs m path = filter (\<lambda>r. rt_Method r = m \<and> match_path (rt_Path r) path \<noteq> None) rs"

definition find_route :: "route list \<Rightarrow> http_method \<Rightarrow> string \<Rightarrow> (route \<times> (string \<rightharpoonup> string)) option" where
  "find_route rs m path =
     (case candidates rs m path of
        [] \<Rightarrow> None
      | r # _ \<Rightarrow> Some (r, map_of (the (match_path (rt_Path r) path))))"

text \<open>
  What gin documents for a path that at most one route matches: that route is served with its
  parameters bound; otherwise no handler runs.
\<close>

definition router_law :: "(route list \<Rightarrow> http_method \<Rightarrow> string \<Rightarrow> (route \<times> (string \<rightharpoonup> string)) option) \<Rightarrow> bool" where
  "router_law gin \<longleftrightarrow> (\<forall>rs m path. length (candidates rs m path) \<le> 1 \<longrightarrow> gin rs m path = find_route rs m path)"

text \<open>The parameters of a request; a missing one is empty.\<close>

definition ctx_Param :: "(string \<rightharpoonup> string) \<Rightarrow> string \<Rightarrow> string" where
  "ctx_Param ps k = (case ps k of None \<Rightarrow> [] | Some v \<Rightarrow> v)"

definition nodeAndID :: "(string \<rightharpoonup> string) \<Rightarrow> string \<times> string" where
  "nodeAndID ps = (ctx_Param ps ''node'', ctx_Param ps ''executionID'')"

definition server_routes :: "Server \<Rightarrow> route list" where
  "server_routes s = (case sv_Handler s of Engine rs \<Rightarrow> rs | FileServer dir \<Rightarrow> [])"

section \<open>The chain of a request\<close>

text \<open>
  What a chain does around its handler: \<open>Recovery\<close> turns a panic behind it into the status 500
  (the state it leaves is not known), and the middleware may answer by itself.
\<close>

fun run_chain :: "('s \<Rightarrow> http_status option) \<Rightarrow> mw list \<Rightarrow> ('s \<Rightarrow> ('s \<times> http_status) go) \<Rightarrow> 's \<Rightarrow>
   ('s option \<times> http_status) go" where
  "run_chain mwf [] h s = go_bind (h s) (\<lambda>(s', st). Ret (Some s', st))"
| "run_chain mwf (GinRecovery # ms) h s =
     (case run_chain mwf ms h s of
        Ret r \<Rightarrow> Ret r
      | Panic m \<Rightarrow> Ret (None, StatusInternalServerError))"
| "run_chain mwf (Middleware # ms) h s =
     (case mwf s of
        Some code \<Rightarrow> Ret (Some s, code)
      | None \<Rightarrow> run_chain mwf ms h s)"

text \<open>
  With the recovery and the middleware of the callback server, a chain is what \<open>endpoint\<close> says
  and never panics.
\<close>

lemma run_chain_endpoint:
  "run_chain (\<lambda>st. middleware has cfg (Some (fst st)) n e) [GinRecovery, Middleware] h st = Ret (endpoint has cfg h st n e)"
  by (auto simp: endpoint_def recovered_def split: option.split go.split)

lemma run_chain_recovers: "\<exists>r. run_chain mwf (GinRecovery # ms) h s = Ret r"
  by (simp split: go.split)

end
