(* ===== verification/Server_Properties.thy ===== *)
theory Server_Properties
  imports Server Job_Properties
begin

text \<open>
  Which requests reach which handler, that the URLs in a job's environment are among them, and
  that the mock server has the routes of the real one.
\<close>

section \<open>Routes\<close>

lemma join_Split: "join_with [c] (strings_Split c s) = s"
proof (induction s)
  case (Cons x s)
  obtain y ys where "strings_Split c s = y # ys" using strings_Split_nonempty [of c s] by (cases "strings_Split c s") auto
  with Cons show ?case by (cases ys) auto
qed simp

lemma strings_Split_eq:
  "strings_Split c s = xs \<longleftrightarrow> xs \<noteq> [] \<and> s = join_with [c] xs \<and> (\<forall>x \<in> set xs. c \<notin> set x)"
proof
  assume "strings_Split c s = xs"
  then show "xs \<noteq> [] \<and> s = join_with [c] xs \<and> (\<forall>x \<in> set xs. c \<notin> set x)"
    using strings_Split_no_sep [of _ c s] join_Split [of c s] strings_Split_nonempty [of c s] by auto
next
  assume a: "xs \<noteq> [] \<and> s = join_with [c] xs \<and> (\<forall>x \<in> set xs. c \<notin> set x)"
  then have "concat (map (strings_Split c) xs) = concat (map (\<lambda>x. [x]) xs)"
    by (intro arg_cong [of _ _ concat] map_cong) (simp_all add: strings_Split_id)
  with a show "strings_Split c s = xs" using strings_Split_join [of xs c] by simp
qed

lemma Split_CallbackBasePath:
  "CHR ''/'' \<notin> set x \<Longrightarrow>
   strings_Split CHR ''/'' (CallbackBasePath @ CHR ''/'' # x) = [[], ''report'', '':node'', '':executionID'', x]"
  by (simp add: CallbackBasePath_def strings_Split_app strings_Split_id)

text \<open>The parameters of a callback.\<close>

definition callback_params :: "string \<Rightarrow> string \<Rightarrow> (string \<times> string) list" where
  "callback_params n e = [(''node'', n), (''executionID'', e)]"

definition callback_path :: "string \<Rightarrow> string \<Rightarrow> string \<Rightarrow> string" where
  "callback_path n e sub = ''/report/'' @ n @ ''/'' @ e @ sub"

definition plain_segment :: "string \<Rightarrow> bool" where
  "plain_segment s \<longleftrightarrow> s \<noteq> [] \<and> CHR ''/'' \<notin> set s"

lemma match_segs_Nil: "match_segs [] xs = Some bs \<longleftrightarrow> xs = [] \<and> bs = []"
  by (cases xs) auto

lemma match_segs_Cons:
  "match_segs (p # ps) xs = Some bs \<longleftrightarrow> (\<exists>x ys. xs = x # ys \<and>
     (if p \<noteq> [] \<and> hd p = CHR '':'' then x \<noteq> [] \<and> (\<exists>cs. bs = (tl p, x) # cs \<and> match_segs ps ys = Some cs)
      else p = x \<and> match_segs ps ys = Some bs))"
  by (cases xs) auto

lemma match_segs_callback:
  assumes "x \<noteq> []" and "hd x \<noteq> CHR '':''"
  shows "match_segs [[], ''report'', '':node'', '':executionID'', x] xs = Some bs \<longleftrightarrow>
    (\<exists>n e. n \<noteq> [] \<and> e \<noteq> [] \<and> xs = [[], ''report'', n, e, x] \<and> bs = callback_params n e)"
  using assms by (auto simp: match_segs_Cons match_segs_Nil callback_params_def)

lemma match_path_callback:
  assumes "plain_segment x" and "hd x \<noteq> CHR '':''"
  shows "match_path (CallbackBasePath @ CHR ''/'' # x) path = Some bs \<longleftrightarrow>
    (\<exists>n e. plain_segment n \<and> plain_segment e \<and> path = callback_path n e (CHR ''/'' # x) \<and> bs = callback_params n e)"
  using assms unfolding match_path_def plain_segment_def
  by (auto simp: Split_CallbackBasePath match_segs_callback strings_Split_eq callback_path_def)

text \<open>The sub paths of the callbacks, and the handlers behind them.\<close>

definition callback_table :: "(string \<times> route_handler) list" where
  "callback_table = [(CallbackBaseResultSubPath, HResult), (CallbackBaseFileSubPath, HFile), (CallbackBaseEventSubPath, HEvent)]"

lemma callback_routes_table: "callback_routes g = map (\<lambda>(sub, h). gin_POST g sub h) callback_table"
  by (simp add: callback_routes_def callback_table_def)

lemma callback_table_sub:
  "(sub, h) \<in> set callback_table \<Longrightarrow> \<exists>x. sub = CHR ''/'' # x \<and> plain_segment x \<and> hd x \<noteq> CHR '':''"
  by (auto simp: callback_table_def plain_segment_def CallbackBaseResultSubPath_def CallbackBaseFileSubPath_def
      CallbackBaseEventSubPath_def)

lemma match_path_sub:
  assumes "(sub, h) \<in> set callback_table"
  shows "match_path (CallbackBasePath @ sub) path = Some bs \<longleftrightarrow>
    (\<exists>n e. plain_segment n \<and> plain_segment e \<and> path = callback_path n e sub \<and> bs = callback_params n e)"
proof -
  obtain x where x: "sub = CHR ''/'' # x" "plain_segment x" "hd x \<noteq> CHR '':''" using callback_table_sub [OF assms] by blast
  show ?thesis unfolding x(1) by (rule match_path_callback [OF x(2,3)])
qed

lemma Split_callback_path:
  assumes "plain_segment n" and "plain_segment e" and "(sub, h) \<in> set callback_table"
  shows "strings_Split CHR ''/'' (callback_path n e sub) = [[], ''report'', n, e, tl sub]"
  unfolding strings_Split_eq using callback_table_sub [OF assms(3)] assms(1,2)
  by (auto simp: callback_path_def plain_segment_def)

lemma callback_path_inject:
  assumes "plain_segment n" and "plain_segment e" and "(sub, h) \<in> set callback_table"
    and "plain_segment n'" and "plain_segment e'" and "(sub', h') \<in> set callback_table"
  shows "callback_path n e sub = callback_path n' e' sub' \<longleftrightarrow> n = n' \<and> e = e' \<and> sub = sub'"
proof
  assume "callback_path n e sub = callback_path n' e' sub'"
  then have "[[], ''report'', n, e, tl sub] = [[], ''report'', n', e', tl sub']"
    using Split_callback_path [OF assms(1-3)] Split_callback_path [OF assms(4-6)] by simp
  then show "n = n' \<and> e = e' \<and> sub = sub'"
    using callback_table_sub [OF assms(3)] callback_table_sub [OF assms(6)] by auto
qed simp

lemma find_route_iff:
  assumes "length (candidates rs m path) \<le> 1"
  shows "find_route rs m path = Some (r, ps) \<longleftrightarrow>
    r \<in> set rs \<and> rt_Method r = m \<and> (\<exists>bs. match_path (rt_Path r) path = Some bs \<and> ps = map_of bs)"
proof -
  have "candidates rs m path = [] \<or> (\<exists>x. candidates rs m path = [x])"
    using assms by (cases "candidates rs m path") auto
  moreover have "r \<in> set (candidates rs m path) \<longleftrightarrow> r \<in> set rs \<and> rt_Method r = m \<and> match_path (rt_Path r) path \<noteq> None"
    by (auto simp: candidates_def)
  ultimately show ?thesis by (auto simp: find_route_def)
qed

lemma profiling_GET: "r \<in> set SetupProfiling \<Longrightarrow> rt_Method r = GET"
  by (auto simp: SetupProfiling_def gin_GET_def)

lemma one_candidate:
  assumes "gr_Base g = CallbackBasePath" and "\<forall>r \<in> set rs. rt_Method r = GET"
  shows "length (candidates (callback_routes g @ rs) POST path) \<le> 1"
proof -
  have "candidates rs POST path = []" using assms(2) by (auto simp: candidates_def filter_empty_conv)
  then have c: "candidates (callback_routes g @ rs) POST path = filter (\<lambda>r. match_path (rt_Path r) path \<noteq> None) (callback_routes g)"
    by (simp add: candidates_def callback_routes_def gin_POST_def)
  have one: "match_path (CallbackBasePath @ sub) path = None \<or> match_path (CallbackBasePath @ sub') path = None"
    if "(sub, h) \<in> set callback_table" "(sub', h') \<in> set callback_table" "sub \<noteq> sub'" for sub h sub' h'
  proof (rule ccontr)
    note t = that
    assume "\<not> ?thesis"
    then obtain n e n' e' where "plain_segment n" "plain_segment e" "plain_segment n'" "plain_segment e'"
      "path = callback_path n e sub" "path = callback_path n' e' sub'"
      using match_path_sub [OF t(1), of path] match_path_sub [OF t(2), of path] by auto
    with callback_path_inject [OF _ _ t(1) _ _ t(2)] t(3) show False by blast
  qed
  have "match_path (CallbackBasePath @ CallbackBaseResultSubPath) path = None \<or> match_path (CallbackBasePath @ CallbackBaseFileSubPath) path = None"
    "match_path (CallbackBasePath @ CallbackBaseResultSubPath) path = None \<or> match_path (CallbackBasePath @ CallbackBaseEventSubPath) path = None"
    "match_path (CallbackBasePath @ CallbackBaseFileSubPath) path = None \<or> match_path (CallbackBasePath @ CallbackBaseEventSubPath) path = None"
    by (rule one [of _ HResult _ HFile] one [of _ HResult _ HEvent] one [of _ HFile _ HEvent],
        simp_all add: callback_table_def CallbackBaseResultSubPath_def CallbackBaseFileSubPath_def CallbackBaseEventSubPath_def)+
  then show ?thesis unfolding c by (auto simp: callback_routes_def gin_POST_def assms(1))
qed

lemma callback_route_found:
  assumes g: "router_law gin" and b: "gr_Base g = CallbackBasePath" and rs: "\<forall>r \<in> set rs. rt_Method r = GET"
  shows "gin (callback_routes g @ rs) POST path = Some (r, ps) \<longleftrightarrow>
    (\<exists>n e sub h. plain_segment n \<and> plain_segment e \<and> (sub, h) \<in> set callback_table \<and> path = callback_path n e sub
       \<and> r = gin_POST g sub h \<and> ps = map_of (callback_params n e))"
proof -
  have m: "(\<exists>bs. match_path (CallbackBasePath @ sub) path = Some bs \<and> ps = map_of bs) \<longleftrightarrow>
      (\<exists>n e. plain_segment n \<and> plain_segment e \<and> path = callback_path n e sub \<and> ps = map_of (callback_params n e))"
    if "(sub, h) \<in> set callback_table" for sub h using match_path_sub [OF that, of path] by auto
  have "gin (callback_routes g @ rs) POST path = find_route (callback_routes g @ rs) POST path"
    using g one_candidate [OF b rs] unfolding router_law_def by blast
  then have "gin (callback_routes g @ rs) POST path = Some (r, ps) \<longleftrightarrow>
      r \<in> set (callback_routes g @ rs) \<and> rt_Method r = POST \<and> (\<exists>bs. match_path (rt_Path r) path = Some bs \<and> ps = map_of bs)"
    by (simp only: find_route_iff [OF one_candidate [OF b rs]])
  also have "\<dots> \<longleftrightarrow> (\<exists>(sub, h) \<in> set callback_table. r = gin_POST g sub h
      \<and> (\<exists>bs. match_path (CallbackBasePath @ sub) path = Some bs \<and> ps = map_of bs))"
    using rs b by (auto simp: callback_routes_table gin_POST_def)
  also have "\<dots> \<longleftrightarrow> (\<exists>n e sub h. plain_segment n \<and> plain_segment e \<and> (sub, h) \<in> set callback_table \<and> path = callback_path n e sub
       \<and> r = gin_POST g sub h \<and> ps = map_of (callback_params n e))"
    unfolding Bex_def split_paired_Ex prod.case using m by blast
  finally show ?thesis .
qed

section \<open>The callback server\<close>

definition api_route :: "string \<Rightarrow> route_handler \<Rightarrow> route" where
  "api_route sub h = \<lparr>rt_Method = POST, rt_Path = CallbackBasePath @ sub, rt_Chain = [GinRecovery, Middleware], rt_Handler = h\<rparr>"

lemma api_route_found:
  assumes "router_law gin"
  shows "gin (server_routes (ps_Server (GenericAPIServer port cfg))) POST path = Some (r, ps) \<longleftrightarrow>
    (\<exists>n e sub h. plain_segment n \<and> plain_segment e \<and> (sub, h) \<in> set callback_table \<and> path = callback_path n e sub
       \<and> r = api_route sub h \<and> ps = map_of (callback_params n e))"
proof -
  let ?g = "gin_Use [GinRecovery, Middleware] (gin_Group CallbackBasePath)"
  have g: "gr_Base ?g = CallbackBasePath" by (simp add: gin_Use_def gin_Group_def)
  have r: "gin_POST ?g sub h = api_route sub h" for sub h
    by (simp add: gin_POST_def gin_Use_def gin_Group_def api_route_def)
  have s: "server_routes (ps_Server (GenericAPIServer port cfg)) = callback_routes ?g @ SetupProfiling"
    by (simp add: server_routes_def GenericAPIServer_def Let_def)
  have p: "\<forall>r \<in> set SetupProfiling. rt_Method r = GET" using profiling_GET by blast
  show ?thesis unfolding s callback_route_found [OF assms g p] r ..
qed


lemma router_law_find: "router_law find_route"
  by (simp add: router_law_def)


text \<open>
  The URLs in the environment of a job are served. Without the scheme and the host, the URL
  that a job of a node and an execution gets for results, files or events is a path for which the
  callback server runs the handler of this kind, with the node and the execution of the job.
\<close>

theorem job_url_served:
  assumes "router_law gin" and "plain_segment n" and "plain_segment e" and "(sub, h) \<in> set callback_table"
  shows "\<exists>r ps. callback_url cfg addr n e sub = ''http://'' @ net_JoinHostPort addr (strconv_Itoa (CallbackServicePort cfg)) @ callback_path n e sub
    \<and> gin (server_routes (ps_Server (GenericAPIServer (CallbackServicePort cfg) cfg))) POST (callback_path n e sub) = Some (r, ps)
    \<and> rt_Handler r = h \<and> nodeAndID ps = (n, e)"
proof -
  have "gin (server_routes (ps_Server (GenericAPIServer (CallbackServicePort cfg) cfg))) POST (callback_path n e sub)
      = Some (api_route sub h, map_of (callback_params n e))"
    using assms unfolding api_route_found [OF assms(1)] by blast
  moreover have "callback_url cfg addr n e sub = ''http://'' @ net_JoinHostPort addr (strconv_Itoa (CallbackServicePort cfg)) @ callback_path n e sub"
    by (simp add: callback_url_def callback_path_def)
  ultimately show ?thesis
    by (intro exI [of _ "api_route sub h"] exI [of _ "map_of (callback_params n e)"]) (simp add: api_route_def callback_params_def nodeAndID_def ctx_Param_def)
qed

theorem job_url_served_witness:
  "\<exists>r ps. find_route (server_routes (ps_Server (GenericAPIServer (CallbackServicePort sample_cfg) sample_cfg))) POST
       (callback_path ''n1'' ''e1'' CallbackBaseEventSubPath) = Some (r, ps) \<and> rt_Handler r = HEvent"
  using job_url_served [OF router_law_find, of "''n1''" "''e1''" CallbackBaseEventSubPath HEvent sample_cfg "''1.1.1.1''"]
  by (auto simp: plain_segment_def callback_table_def)

text \<open>
  The mock server is the callback server without its checks: for every path it runs the same
  handler with the same node and execution, or none where the callback server runs none, but with
  neither the middleware nor the recovery in front.
\<close>

theorem mock_routes:
  assumes "router_law gin"
  shows "gin (server_routes (MockAPIServer port)) POST path =
    map_option (\<lambda>(r, ps). (r\<lparr>rt_Chain := []\<rparr>, ps)) (gin (server_routes (ps_Server (GenericAPIServer port' cfg :: 'c PostServer))) POST path)"
proof -
  have g: "gr_Base (gin_Group CallbackBasePath) = CallbackBasePath" by (simp add: gin_Group_def)
  have m: "server_routes (MockAPIServer port) = callback_routes (gin_Group CallbackBasePath)"
    by (simp add: server_routes_def MockAPIServer_def)
  have r: "gin_POST (gin_Group CallbackBasePath) sub h = (api_route sub h)\<lparr>rt_Chain := []\<rparr>" for sub h
    by (simp add: gin_POST_def gin_Group_def api_route_def)
  have i: "gin (server_routes (MockAPIServer port)) POST path = Some (r, ps) \<longleftrightarrow>
      (\<exists>r'. gin (server_routes (ps_Server (GenericAPIServer port' cfg :: 'c PostServer))) POST path = Some (r', ps) \<and> r = r'\<lparr>rt_Chain := []\<rparr>)" for r ps
  proof -
    have "gin (callback_routes (gin_Group CallbackBasePath)) POST path = Some (r, ps) \<longleftrightarrow>
      (\<exists>n e sub h. plain_segment n \<and> plain_segment e \<and> (sub, h) \<in> set callback_table \<and> path = callback_path n e sub
         \<and> r = (api_route sub h)\<lparr>rt_Chain := []\<rparr> \<and> ps = map_of (callback_params n e))"
      using callback_route_found [OF assms g, of "[]" path r ps] by (simp only: append_Nil2 list.set ball_empty simp_thms r)
    then show ?thesis unfolding m api_route_found [OF assms] by blast
  qed
  show ?thesis
  proof (cases "gin (server_routes (MockAPIServer port)) POST path")
    case None
    then have "gin (server_routes (ps_Server (GenericAPIServer port' cfg :: 'c PostServer))) POST path \<noteq> Some (r, ps)" for r ps
      using i [of "r\<lparr>rt_Chain := []\<rparr>" ps] by auto
    then have "gin (server_routes (ps_Server (GenericAPIServer port' cfg :: 'c PostServer))) POST path = None"
      by (cases "gin (server_routes (ps_Server (GenericAPIServer port' cfg :: 'c PostServer))) POST path") auto
    with None show ?thesis by simp
  next
    case (Some x)
    then show ?thesis using i [of "fst x" "snd x"] by (cases x) auto
  qed
qed

theorem mock_routes_witness:
  "\<exists>r ps. find_route (server_routes (MockAPIServer 8090)) POST ''/report/n1/e1/result'' = Some (r, ps)
     \<and> rt_Handler r = HResult \<and> rt_Chain r = []"
proof -
  have "find_route (server_routes (ps_Server (GenericAPIServer 8090 sample_cfg :: unit PostServer))) POST ''/report/n1/e1/result'' \<noteq> None"
    by code_simp
  then obtain r ps where f: "find_route (server_routes (ps_Server (GenericAPIServer 8090 sample_cfg :: unit PostServer))) POST ''/report/n1/e1/result'' = Some (r, ps)"
    by auto
  have "rt_Handler r = HResult"
    using f unfolding api_route_found [OF router_law_find]
    by (auto simp: api_route_def callback_table_def callback_path_def CallbackBaseFileSubPath_def CallbackBaseEventSubPath_def)
  moreover have "find_route (server_routes (MockAPIServer 8090)) POST ''/report/n1/e1/result'' = map_option (\<lambda>(r, ps). (r\<lparr>rt_Chain := []\<rparr>, ps))
      (find_route (server_routes (ps_Server (GenericAPIServer 8090 sample_cfg :: unit PostServer))) POST ''/report/n1/e1/result'')"
    by (rule mock_routes [OF router_law_find])
  ultimately show ?thesis using f by auto
qed

end
