(* ===== verification/Serving.thy ===== *)
theory Serving
  imports Server Traces
begin

text \<open>
  \<open>Server.Start\<close> of \<open>pkg/http/fileserver.go\<close>: two goroutines, the one that serves and the one that
  waits for the end of the context and shuts the server down, with the steps of \<open>net/http\<close> they
  wait for. The address is given to \<open>Listen\<close>; requests are only counted.
\<close>

section \<open>State\<close>

text \<open>
  Where the two goroutines are: before listening, in \<open>Serve\<close>, waiting for \<open>idleConnsClosed\<close>,
  returned; and waiting for the context, after the listeners are closed, finished. A run also
  has the context, the flag \<open>inShutdown\<close> of the server, the requests in progress, and whether
  \<open>idleConnsClosed\<close> is closed.
\<close>

datatype serve_pc = SListen | SServe | SWait | SReturned "err option"
datatype down_pc = DWait | DShutdown | DFinished

record serving =
  sg_serve :: serve_pc
  sg_down :: down_pc
  sg_ctxDone :: bool
  sg_inShutdown :: bool
  sg_active :: nat
  sg_idleConnsClosed :: bool

definition serving_init :: serving where
  "serving_init = \<lparr>sg_serve = SListen, sg_down = DWait, sg_ctxDone = False, sg_inShutdown = False, sg_active = 0,
     sg_idleConnsClosed = False\<rparr>"

text \<open>The address that the server listens on: \<open>fmt.Sprintf(":%v", s.Port)\<close>.\<close>

definition listen_addr :: "Server \<Rightarrow> string" where
  "listen_addr s = CHR '':'' # strconv_Itoa (sv_Port s)"

section \<open>Steps\<close>

text \<open>
  \<open>Listen\<close>, with the address and the result; \<open>ServeFails\<close>, an error of accepting connections other
  than \<open>ErrServerClosed\<close>; \<open>ServeClosed\<close>, the return of \<open>ListenAndServe\<close> with \<open>ErrServerClosed\<close>;
  \<open>CloseListeners\<close> and \<open>ShutdownReturns\<close>, the two halves of \<open>Shutdown(ctx)\<close>: after closing the
  listeners it waits for \<open>Serve\<close> to return, and then for idle connections or the context. The
  context is the one whose end has started it, so it need not wait for requests; its error is
  only logged.
\<close>

datatype serve_label =
    Cancel
  | Listen string "err option"
  | Request
  | Response
  | ServeFails err
  | ServeClosed
  | CloseListeners
  | ShutdownReturns
  | Returns

inductive serve_step :: "Server \<Rightarrow> serving \<Rightarrow> serve_label \<Rightarrow> serving \<Rightarrow> bool" for srv :: Server where
  cancel: "serve_step srv s Cancel (s\<lparr>sg_ctxDone := True\<rparr>)"
| listen_ok: "sg_serve s = SListen \<Longrightarrow> \<not> sg_inShutdown s \<Longrightarrow>
    serve_step srv s (Listen (listen_addr srv) None) (s\<lparr>sg_serve := SServe\<rparr>)"
| listen_err: "sg_serve s = SListen \<Longrightarrow> \<not> sg_inShutdown s \<Longrightarrow>
    serve_step srv s (Listen (listen_addr srv) (Some e)) (s\<lparr>sg_serve := SReturned (Some e)\<rparr>)"
| listen_closed: "sg_serve s = SListen \<Longrightarrow> sg_inShutdown s \<Longrightarrow> serve_step srv s ServeClosed (s\<lparr>sg_serve := SWait\<rparr>)"
| request: "sg_serve s = SServe \<Longrightarrow> \<not> sg_inShutdown s \<Longrightarrow> serve_step srv s Request (s\<lparr>sg_active := sg_active s + 1\<rparr>)"
| response: "sg_active s > 0 \<Longrightarrow> serve_step srv s Response (s\<lparr>sg_active := sg_active s - 1\<rparr>)"
| serve_fails: "sg_serve s = SServe \<Longrightarrow> \<not> sg_inShutdown s \<Longrightarrow>
    serve_step srv s (ServeFails e) (s\<lparr>sg_serve := SReturned (Some e)\<rparr>)"
| serve_closed: "sg_serve s = SServe \<Longrightarrow> sg_inShutdown s \<Longrightarrow> serve_step srv s ServeClosed (s\<lparr>sg_serve := SWait\<rparr>)"
| close_listeners: "sg_down s = DWait \<Longrightarrow> sg_ctxDone s \<Longrightarrow>
    serve_step srv s CloseListeners (s\<lparr>sg_down := DShutdown, sg_inShutdown := True\<rparr>)"
| shutdown_returns: "sg_down s = DShutdown \<Longrightarrow> sg_serve s \<noteq> SServe \<Longrightarrow> sg_active s = 0 \<or> sg_ctxDone s \<Longrightarrow>
    serve_step srv s ShutdownReturns (s\<lparr>sg_down := DFinished, sg_idleConnsClosed := True\<rparr>)"
| returns_nil: "sg_serve s = SWait \<Longrightarrow> sg_idleConnsClosed s \<Longrightarrow> serve_step srv s Returns (s\<lparr>sg_serve := SReturned None\<rparr>)"

definition serve_run :: "Server \<Rightarrow> serving \<Rightarrow> serve_label list \<Rightarrow> serving \<Rightarrow> bool" where
  "serve_run srv = trace (serve_step srv)"

lemmas serve_run_Nil = trace_Nil [of "serve_step srv" for srv, folded serve_run_def]
lemmas serve_run_Cons = trace_Cons [of "serve_step srv" for srv, folded serve_run_def]
lemmas serve_run_append = trace_append [of "serve_step srv" for srv, folded serve_run_def]

section \<open>Invariant\<close>

text \<open>
  The shutdown has begun only after the end of the context; \<open>idleConnsClosed\<close> is closed exactly
  when the second goroutine has finished; the server waits or returns nil only then, or in
  shutdown.
\<close>

definition serving_ok :: "serving \<Rightarrow> bool" where
  "serving_ok s \<longleftrightarrow> (sg_inShutdown s \<longleftrightarrow> sg_down s \<noteq> DWait) \<and> (sg_inShutdown s \<longrightarrow> sg_ctxDone s)
     \<and> (sg_idleConnsClosed s \<longleftrightarrow> sg_down s = DFinished)
     \<and> (sg_serve s = SWait \<longrightarrow> sg_inShutdown s)
     \<and> (sg_serve s = SReturned None \<longrightarrow> sg_idleConnsClosed s)
     \<and> (sg_idleConnsClosed s \<longrightarrow> sg_serve s \<noteq> SServe)"

lemma serving_ok_init: "serving_ok serving_init"
  by (simp add: serving_ok_def serving_init_def)

lemma serve_step_ok: "serving_ok s \<Longrightarrow> serve_step srv s l s' \<Longrightarrow> serving_ok s'"
  by (erule serve_step.cases) (auto simp: serving_ok_def)

interpretation serving: step_invariant "serve_step srv" serving_ok
  by unfold_locales (rule serve_step_ok)

lemma serve_run_ok: "serve_run srv serving_init ls s \<Longrightarrow> serving_ok s"
  using serving.trace_inv serving_ok_init unfolding serve_run_def by blast

text \<open>The context ends only by a \<open>Cancel\<close>, and stays ended.\<close>

lemma serve_run_cancelled:
  assumes "serve_run srv s ls s'" and "serving_ok s" and "sg_ctxDone s'" and "\<not> sg_ctxDone s"
  shows "Cancel \<in> set ls"
proof -
  have "\<exists>l \<in> set ls. l = Cancel"
    by (rule serving.trace_cause [OF assms(1) [unfolded serve_run_def] assms(2), of sg_ctxDone])
      (use assms(3,4) in \<open>auto elim: serve_step.cases\<close>)
  then show ?thesis by blast
qed

section \<open>What the goroutines do by themselves\<close>

text \<open>After the end of the context: how many steps the two goroutines still have to make, at most.\<close>

fun own_step :: "serve_label \<Rightarrow> bool" where
  "own_step Cancel = False"
| "own_step Request = False"
| "own_step Response = False"
| "own_step _ = True"

fun serve_left :: "serve_pc \<Rightarrow> nat" where
  "serve_left SListen = 3"
| "serve_left SServe = 2"
| "serve_left SWait = 1"
| "serve_left (SReturned r) = 0"

fun down_left :: "down_pc \<Rightarrow> nat" where
  "down_left DWait = 2"
| "down_left DShutdown = 1"
| "down_left DFinished = 0"

definition steps_left :: "serving \<Rightarrow> nat" where
  "steps_left s = serve_left (sg_serve s) + down_left (sg_down s)"

lemma own_step_decreases: "serve_step srv s l s' \<Longrightarrow> own_step l \<Longrightarrow> steps_left s' < steps_left s"
  by (erule serve_step.cases) (auto simp: steps_left_def)

lemma other_step_keeps: "serve_step srv s l s' \<Longrightarrow> steps_left s' \<le> steps_left s"
  by (erule serve_step.cases) (auto simp: steps_left_def)

text \<open>Once the context has ended, one of the goroutines can make a step until both have finished.\<close>

definition stopped :: "serving \<Rightarrow> bool" where
  "stopped s \<longleftrightarrow> (\<exists>r. sg_serve s = SReturned r) \<and> sg_down s = DFinished"

lemma cancelled_progress:
  assumes "serving_ok s" and "sg_ctxDone s" and "\<not> stopped s"
  shows "\<exists>l s'. serve_step srv s l s' \<and> own_step l"
proof (cases "sg_down s")
  case DWait
  with close_listeners [OF DWait assms(2)] show ?thesis by (meson own_step.simps)
next
  case DShutdown
  with assms(1) have "sg_inShutdown s" by (simp add: serving_ok_def)
  show ?thesis
  proof (cases "sg_serve s = SServe")
    case True
    from serve_closed [OF True \<open>sg_inShutdown s\<close>] show ?thesis by (meson own_step.simps)
  next
    case False
    from shutdown_returns [OF DShutdown False] assms(2) show ?thesis by (meson own_step.simps)
  qed
next
  case DFinished
  with assms(1) have i: "sg_inShutdown s" "sg_idleConnsClosed s" "sg_serve s \<noteq> SServe" by (simp_all add: serving_ok_def)
  show ?thesis
  proof (cases "sg_serve s")
    case SListen
    from listen_closed [OF SListen i(1)] show ?thesis by (meson own_step.simps)
  next
    case SServe
    with i show ?thesis by simp
  next
    case SWait
    from returns_nil [OF SWait i(2)] show ?thesis by (meson own_step.simps)
  next
    case (SReturned r)
    with DFinished assms(3) show ?thesis by (simp add: stopped_def)
  qed
qed

section \<open>Properties\<close>

text \<open>
  What \<open>Server.Start\<close> returns. It returns no error only after its context has ended and the
  shutdown has returned, and then it listens no more; it returns an error only if the address of
  its port could not be listened on or accepting connections failed, with this error. So a
  server whose context never ends, as in the mock program, returns with an error or not at all.
\<close>

theorem server_returns:
  assumes "serve_run srv serving_init ls s" and "sg_serve s = SReturned r"
  shows "(case r of
      None \<Rightarrow> Cancel \<in> set ls \<and> ShutdownReturns \<in> set ls \<and> sg_inShutdown s
    | Some e \<Rightarrow> Listen (CHR '':'' # strconv_Itoa (sv_Port srv)) (Some e) \<in> set ls \<or> ServeFails e \<in> set ls)"
proof (cases r)
  case None
  have ok: "serving_ok s" by (rule serve_run_ok [OF assms(1)])
  then have i: "sg_idleConnsClosed s" "sg_inShutdown s" "sg_ctxDone s" using assms(2) None by (auto simp: serving_ok_def)
  have "\<exists>l \<in> set ls. l = ShutdownReturns"
    by (rule serving.trace_cause [OF assms(1) [unfolded serve_run_def] serving_ok_init, of sg_idleConnsClosed])
      (use i in \<open>auto simp: serving_init_def elim: serve_step.cases\<close>)
  moreover have "Cancel \<in> set ls"
    by (rule serve_run_cancelled [OF assms(1) serving_ok_init i(3)]) (simp add: serving_init_def)
  ultimately show ?thesis using None i by auto
next
  case (Some e)
  have "\<exists>l \<in> set ls. l = Listen (listen_addr srv) (Some e) \<or> l = ServeFails e"
    by (rule serving.trace_cause [OF assms(1) [unfolded serve_run_def] serving_ok_init, of "\<lambda>s. sg_serve s = SReturned (Some e)"])
      (use assms(2) Some in \<open>auto simp: serving_init_def elim: serve_step.cases\<close>)
  then show ?thesis using Some by (auto simp: listen_addr_def)
qed

text \<open>A run that is cancelled while a number of requests are in progress.\<close>

lemma serve_requests:
  "\<exists>ls. serve_run srv (serving_init\<lparr>sg_serve := SServe\<rparr>) ls (serving_init\<lparr>sg_serve := SServe, sg_active := n\<rparr>)"
proof (induction n)
  case 0
  show ?case by (rule exI [of _ "[]"]) (simp add: serve_run_def trace_Nil_iff serving_init_def)
next
  case (Suc n)
  then obtain ls where r: "serve_run srv (serving_init\<lparr>sg_serve := SServe\<rparr>) ls (serving_init\<lparr>sg_serve := SServe, sg_active := n\<rparr>)" by blast
  have "serve_step srv (serving_init\<lparr>sg_serve := SServe, sg_active := n\<rparr>) Request (serving_init\<lparr>sg_serve := SServe, sg_active := Suc n\<rparr>)"
    using request [of "serving_init\<lparr>sg_serve := SServe, sg_active := n\<rparr>" srv] by (simp add: serving_init_def)
  with r show ?case unfolding serve_run_def by (intro exI [of _ "ls @ [Request]"]) (rule trace_snoc)
qed

lemma serve_cancelled_run:
  "\<exists>ls. serve_run srv serving_init ls \<lparr>sg_serve = SReturned None, sg_down = DFinished, sg_ctxDone = True, sg_inShutdown = True,
     sg_active = n, sg_idleConnsClosed = True\<rparr>"
proof -
  let ?s = "\<lambda>m d i c. \<lparr>sg_serve = m, sg_down = d, sg_ctxDone = True, sg_inShutdown = i, sg_active = n, sg_idleConnsClosed = c\<rparr>"
  obtain ls where r: "serve_run srv (serving_init\<lparr>sg_serve := SServe\<rparr>) ls (serving_init\<lparr>sg_serve := SServe, sg_active := n\<rparr>)"
    using serve_requests by blast
  have 1: "serve_step srv serving_init (Listen (listen_addr srv) None) (serving_init\<lparr>sg_serve := SServe\<rparr>)"
    by (rule listen_ok) (simp_all add: serving_init_def)
  have 2: "serve_step srv (serving_init\<lparr>sg_serve := SServe, sg_active := n\<rparr>) Cancel (?s SServe DWait False False)"
    using cancel [of srv "serving_init\<lparr>sg_serve := SServe, sg_active := n\<rparr>"] by (simp add: serving_init_def)
  have 3: "serve_step srv (?s SServe DWait False False) CloseListeners (?s SServe DShutdown True False)"
    using close_listeners [of "?s SServe DWait False False" srv] by simp
  have 4: "serve_step srv (?s SServe DShutdown True False) ServeClosed (?s SWait DShutdown True False)"
    using serve_closed [of "?s SServe DShutdown True False" srv] by simp
  have 5: "serve_step srv (?s SWait DShutdown True False) ShutdownReturns (?s SWait DFinished True True)"
    using shutdown_returns [of "?s SWait DShutdown True False" srv] by simp
  have 6: "serve_step srv (?s SWait DFinished True True) Returns (?s (SReturned None) DFinished True True)"
    using returns_nil [of "?s SWait DFinished True True" srv] by simp
  have t: "serve_run srv (serving_init\<lparr>sg_serve := SServe, sg_active := n\<rparr>) [Cancel, CloseListeners, ServeClosed, ShutdownReturns, Returns]
      (?s (SReturned None) DFinished True True)"
    by (rule serve_run_Cons [OF 2 serve_run_Cons [OF 3 serve_run_Cons [OF 4 serve_run_Cons [OF 5 serve_run_Cons [OF 6 serve_run_Nil]]]]])
  from serve_run_Cons [OF 1 serve_run_append [OF r t]] show ?thesis by blast
qed

theorem server_returns_witness:
  "\<exists>ls s. serve_run (StaticFileServer 8080 zero_Config) serving_init ls s \<and> sg_serve s = SReturned None \<and> Cancel \<in> set ls"
proof -
  obtain ls where r: "serve_run (StaticFileServer 8080 zero_Config) serving_init ls
      \<lparr>sg_serve = SReturned None, sg_down = DFinished, sg_ctxDone = True, sg_inShutdown = True, sg_active = 0, sg_idleConnsClosed = True\<rparr>"
    using serve_cancelled_run by blast
  with server_returns [OF r, of None] show ?thesis by fastforce
qed

text \<open>
  C29. A cancelled server stops. Once the context has ended, in every state the server can be in,
  also one in which it has not listened yet, its two goroutines can finish, \<open>Start\<close> returning;
  as long as they have not, one of them can make a step, and whatever else happens they make no
  more than five steps.
\<close>

theorem server_stops:
  assumes "serve_run srv serving_init ls s" and "sg_ctxDone s"
  shows "(\<exists>ls' s'. serve_run srv s ls' s' \<and> list_all own_step ls' \<and> stopped s')
    \<and> (\<forall>ls' s'. serve_run srv s ls' s' \<longrightarrow> length (filter own_step ls') \<le> 5
        \<and> (stopped s' \<or> (\<exists>l s''. serve_step srv s' l s'' \<and> own_step l)))"
proof -
  have ok: "serving_ok s" by (rule serve_run_ok [OF assms(1)])
  have "\<exists>ls' s'. serve_run srv s ls' s' \<and> list_all own_step ls' \<and> stopped s'"
    using ok assms(2)
  proof (induction "steps_left s" arbitrary: s rule: less_induct)
    case less
    show ?case
    proof (cases "stopped s")
      case True
      then show ?thesis using serve_run_Nil by fastforce
    next
      case False
      then obtain l s1 where l: "serve_step srv s l s1" "own_step l" using cancelled_progress less.prems by blast
      have "sg_ctxDone s1" using l(1) less.prems(2) by (auto elim: serve_step.cases)
      with less.hyps [OF own_step_decreases [OF l] serve_step_ok [OF less.prems(1) l(1)]] obtain ls' s' where
        "serve_run srv s1 ls' s'" "list_all own_step ls'" "stopped s'" by blast
      with l show ?thesis by (intro exI [of _ "l # ls'"] exI [of _ s']) (simp add: serve_run_Cons)
    qed
  qed
  moreover have "length (filter own_step ls') + steps_left s' \<le> steps_left s \<and> serving_ok s' \<and> sg_ctxDone s'"
    if "serve_run srv s ls' s'" for ls' s'
    using that [unfolded serve_run_def] ok assms(2)
  proof (induction rule: trace.induct)
    case (trace_Cons s l s1 ls s')
    have "sg_ctxDone s1" using trace_Cons.hyps(1) trace_Cons.prems(2) by (auto elim: serve_step.cases)
    with trace_Cons.IH serve_step_ok [OF trace_Cons.prems(1) trace_Cons.hyps(1)]
      own_step_decreases [OF trace_Cons.hyps(1)] other_step_keeps [OF trace_Cons.hyps(1)] show ?case
      by (cases "own_step l") auto
  qed simp
  moreover have "steps_left s \<le> 5"
    by (cases "sg_serve s"; cases "sg_down s") (simp_all add: steps_left_def)
  ultimately show ?thesis using cancelled_progress by (meson add_leD1 le_trans)
qed

theorem server_stops_witness:
  "\<exists>ls' s'. serve_run (StaticFileServer 8080 zero_Config) (serving_init\<lparr>sg_ctxDone := True\<rparr>) ls' s' \<and> stopped s'"
proof -
  have "serve_run (StaticFileServer 8080 zero_Config) serving_init [Cancel] (serving_init\<lparr>sg_ctxDone := True\<rparr>)"
    by (rule serve_run_Cons [OF cancel serve_run_Nil])
  from server_stops [OF this] show ?thesis by auto
qed

text \<open>
  The shutdown does not wait for requests. \<open>Shutdown\<close> is given the context whose end triggers
  it, so it may give up at once: for every number of requests in progress there is a run in
  which \<open>Start\<close> returns without an error while they are still in progress.
\<close>

theorem shutdown_drops_requests:
  "\<exists>ls s. serve_run srv serving_init ls s \<and> sg_serve s = SReturned None \<and> sg_active s = n"
  using serve_cancelled_run [of srv n] by force

end
