(* ===== verification/Cmd.thy ===== *)
theory Cmd
  imports Cron Client
begin

text \<open>
  \<open>cmd\<close>: starting the controller (\<open>Setup\<close>, \<open>Start\<close>), giving the runnables what they ask for
  (\<open>addToManager\<close>) and the custom section of the configuration. \<open>os.Exit(1)\<close> is a result. The
  manager is an argument: what its constructor and its \<open>Add*\<close> calls return; the calls it gets
  are logged.
\<close>

section \<open>Results\<close>

datatype 'a proc = Running 'a | Exit1 string | Crash string | Diverges

fun proc_bind :: "'a proc \<Rightarrow> ('a \<Rightarrow> 'b proc) \<Rightarrow> 'b proc" where
  "proc_bind (Running x) f = f x"
| "proc_bind (Exit1 m) f = Exit1 m"
| "proc_bind (Crash m) f = Crash m"
| "proc_bind Diverges f = Diverges"

section \<open>Setup\<close>

text \<open>The logger: development mode, JSON or console lines, times in ISO format or as epochs.\<close>

record logger_options =
  lo_Development :: bool
  lo_JSON :: bool
  lo_ISOTime :: bool

definition SetupLogger :: "bool \<Rightarrow> bool \<Rightarrow> env \<Rightarrow> logger_options" where
  "SetupLogger json isoTime env = \<lparr>lo_Development = IsDevMode env, lo_JSON = json, lo_ISOTime = isoTime\<rparr>"

definition EnvNamespace :: string where "EnvNamespace = ''NAMESPACE''"

record manager_options =
  mo_BindAddress :: string
  mo_LeaderElection :: bool
  mo_LeaderElectionID :: string
  mo_LeaderElectionNamespace :: string
  mo_LeaderElectionResourceLock :: string
  mo_LeaderElectionReleaseOnCancel :: bool
  mo_DefaultNamespaces :: "string list"
  mo_HealthProbeBindAddress :: string

definition manager_options_of :: "Config \<Rightarrow> string \<Rightarrow> manager_options" where
  "manager_options_of cfg ns =
     \<lparr>mo_BindAddress = BindAddress (cfg_Metrics cfg), mo_LeaderElection = (\<not> DevMode cfg),
      mo_LeaderElectionID = cfg_Name cfg @ ''-leader-election'', mo_LeaderElectionNamespace = ns,
      mo_LeaderElectionResourceLock = LeaderElectionResourceLock cfg,
      mo_LeaderElectionReleaseOnCancel = True, mo_DefaultNamespaces = [ns],
      mo_HealthProbeBindAddress = HealthProbeBindAddress cfg\<rparr>"

text \<open>
  An owner search that does not return hangs \<open>Setup\<close>. \<open>addCheck\<close> is the manager's \<open>AddHealthzCheck\<close> or \<open>AddReadyzCheck\<close>, by kind and name. A failed
  \<open>NewManager\<close> returns a nil manager, on which the first check is added before the error is
  looked at.
\<close>

datatype check_kind = Healthz | Readyz

record 'g Main =
  m_Config :: Config
  m_Controller :: "'g controller"
  m_eventRecorder :: bool

definition Setup ::
  "'g gauge_vec \<Rightarrow> ((string \<times> string \<times> string list) list \<Rightarrow> bool) \<Rightarrow> env \<Rightarrow> (string \<Rightarrow> string + Config) \<Rightarrow> err + reader \<Rightarrow>
   (manager_options \<Rightarrow> err option) \<Rightarrow> (check_kind \<Rightarrow> string \<Rightarrow> err option) \<Rightarrow> 'g Main proc" where
  "Setup gv register_ok env decode newClient newManager addCheck =
     (case env EnvNamespace of
        None \<Rightarrow> Exit1 ''missing environment variable''
      | Some ns \<Rightarrow>
          (case Get decode env ns newClient of
             None \<Rightarrow> Diverges
           | Some (Inl e) \<Rightarrow> Exit1 ''unable to get config''
           | Some (Inr cfg) \<Rightarrow>
               (case newManager (manager_options_of cfg ns) of
                  Some e \<Rightarrow> Crash ''invalid memory address or nil pointer dereference''
                | None \<Rightarrow>
                    if addCheck Healthz ''healthz'' \<noteq> None then Exit1 ''unable to set up health check''
                    else if addCheck Readyz ''readyz'' \<noteq> None then Exit1 ''unable to set up ready check''
                    else (case NewPromCollector gv register_ok cfg of
                            Panic m \<Rightarrow> Crash m
                          | Ret (Inl e) \<Rightarrow> Exit1 ''error creating prometheus collector''
                          | Ret (Inr pc) \<Rightarrow>
                              Running \<lparr>m_Config = cfg, m_Controller = NewController cfg pc, m_eventRecorder = False\<rparr>))))"

section \<open>Runnables\<close>

text \<open>Which interfaces a runnable implements; \<open>Healthz\<close> with its name and which checks are not nil.\<close>

record runnable =
  rn_id :: nat
  rn_EventRecorder :: bool
  rn_Config :: bool
  rn_Controller :: bool
  rn_Reader :: bool
  rn_Client :: bool
  rn_Healthz :: "(string \<times> bool \<times> bool) option"
  rn_CustomPodEnv :: "CustomPodEnv option"

datatype manager_call =
    GetEventRecorder string
  | InjectEventRecorder nat
  | InjectConfig nat
  | InjectController nat
  | InjectReader nat
  | InjectClient nat
  | AddCheck check_kind string
  | AddRunnable nat

definition addToManager :: "runnable \<Rightarrow> 'g Main \<times> manager_call list \<Rightarrow> 'g Main \<times> manager_call list" where
  "addToManager r ms =
     (let (m, calls) = ms;
          i = rn_id r;
          rec = (if rn_EventRecorder r
                 then (if \<not> m_eventRecorder m then [GetEventRecorder (cfg_Name (m_Config m))] else []) @ [InjectEventRecorder i]
                 else []);
          m' = (if rn_EventRecorder r then m\<lparr>m_eventRecorder := True\<rparr> else m);
          inj = (if rn_Config r then [InjectConfig i] else [])
              @ (if rn_Controller r then [InjectController i] else [])
              @ (if rn_Reader r then [InjectReader i] else [])
              @ (if rn_Client r then [InjectClient i] else []);
          checks = (case rn_Healthz r of
                      None \<Rightarrow> []
                    | Some (name, hc, rc) \<Rightarrow>
                        (if hc then [AddCheck Healthz name] else []) @ (if rc then [AddCheck Readyz name] else []))
      in (m', calls @ rec @ inj @ checks @ [AddRunnable i]))"

text \<open>\<open>cron.Job\<close> asks for the configuration, the controller and the client.\<close>

definition cron_runnable :: "nat \<Rightarrow> runnable" where
  "cron_runnable i = \<lparr>rn_id = i, rn_EventRecorder = False, rn_Config = True, rn_Controller = True, rn_Reader = False,
     rn_Client = True, rn_Healthz = None, rn_CustomPodEnv = None\<rparr>"

text \<open>
  \<open>Start\<close>: what is wired, and the extenders the cron job gets; \<open>newForConfig\<close> and \<open>buildComplete\<close> are
  what the reconciler's \<open>SetupWithManager\<close> calls, \<open>startManager\<close> is the manager's blocking \<open>Start\<close>.
\<close>

definition main_Start ::
  "err option \<Rightarrow> (registration \<Rightarrow> err option) \<Rightarrow> err option \<Rightarrow> nat \<Rightarrow> runnable list \<Rightarrow> 'g Main \<Rightarrow> ('g Main \<times> manager_call list \<times> CustomPodEnv list) proc" where
  "main_Start newForConfig buildComplete startManager cronId runnables m =
     (let (m', calls) = fold addToManager (runnables @ [cron_runnable cronId]) (m, []);
          envExtender = map (\<lambda>r. the (rn_CustomPodEnv r)) (filter (\<lambda>r. rn_CustomPodEnv r \<noteq> None) runnables)
      in if SetupWithManager newForConfig buildComplete \<noteq> None then Exit1 ''unable to create controller''
         else if startManager \<noteq> None then Exit1 ''problem running manager''
         else Running (m', calls, envExtender))"

section \<open>Custom configuration\<close>

definition CustomConfigValue :: "Config \<Rightarrow> string \<Rightarrow> any proc" where
  "CustomConfigValue cfg name =
     (case map_of (Custom cfg) name of Some v \<Rightarrow> Running v | None \<Rightarrow> Exit1 ''missing custom config value'')"

definition CustomConfigString :: "Config \<Rightarrow> string \<Rightarrow> string proc" where
  "CustomConfigString cfg name =
     proc_bind (CustomConfigValue cfg name) (\<lambda>v. case v of
       AnyString s \<Rightarrow> Running s
     | AnyOther x \<Rightarrow> Exit1 ''wrong custom config value type'')"

section \<open>Wiring\<close>

definition added :: "manager_call list \<Rightarrow> nat list" where
  "added cs = concat (map (\<lambda>c. case c of AddRunnable i \<Rightarrow> [i] | _ \<Rightarrow> []) cs)"

definition recorders :: "manager_call list \<Rightarrow> nat" where
  "recorders cs = length (filter (\<lambda>c. case c of GetEventRecorder n \<Rightarrow> True | _ \<Rightarrow> False) cs)"

lemma added_append [simp]: "added (a @ b) = added a @ added b"
  by (simp add: added_def)

lemma recorders_append [simp]: "recorders (a @ b) = recorders a + recorders b"
  by (simp add: recorders_def)

lemma addToManager_effect:
  assumes "addToManager r (m, cs) = (m', cs')"
  shows "added cs' = added cs @ [rn_id r]" and "m_Config m' = m_Config m" and "m_Controller m' = m_Controller m"
    and "recorders cs' + (if m_eventRecorder m then 1 else 0) = recorders cs + (if m_eventRecorder m' then 1 else 0)"
  using assms
  by (cases "rn_Healthz r"; auto simp: addToManager_def Let_def added_def recorders_def split: if_splits)+

lemma fold_addToManager:
  assumes "fold addToManager rs (m, cs) = (m', cs')"
  shows "added cs' = added cs @ map rn_id rs" and "m_Config m' = m_Config m" and "m_Controller m' = m_Controller m"
    and "recorders cs' + (if m_eventRecorder m then 1 else 0) = recorders cs + (if m_eventRecorder m' then 1 else 0)"
proof -
  have "added cs' = added cs @ map rn_id rs \<and> m_Config m' = m_Config m \<and> m_Controller m' = m_Controller m
      \<and> recorders cs' + (if m_eventRecorder m then 1 else 0) = recorders cs + (if m_eventRecorder m' then 1 else 0)"
    using assms
  proof (induction rs arbitrary: m cs)
    case (Cons r rs)
    obtain m1 cs1 where a: "addToManager r (m, cs) = (m1, cs1)" by fastforce
    with Cons.IH [of m1 cs1] Cons.prems addToManager_effect [OF a] show ?case by auto
  qed simp
  then show "added cs' = added cs @ map rn_id rs" and "m_Config m' = m_Config m" and "m_Controller m' = m_Controller m"
    and "recorders cs' + (if m_eventRecorder m then 1 else 0) = recorders cs + (if m_eventRecorder m' then 1 else 0)" by blast+
qed

text \<open>
  \<open>Start\<close> adds every runnable to the manager exactly once, in order, and the cron job last;
  the event recorder is created at most once and shared; the configuration and the
  controller stay as \<open>Setup\<close> made them; and the cron job gets the extenders of all runnables that
  have one.
\<close>

theorem start_wires:
  assumes "main_Start newForConfig buildComplete startManager cronId rs m = Running (m', calls, ext)" and "\<not> m_eventRecorder m"
  shows "added calls = map rn_id rs @ [cronId] \<and> recorders calls \<le> 1
    \<and> m_Config m' = m_Config m \<and> m_Controller m' = m_Controller m
    \<and> map Some ext = filter (\<lambda>x. x \<noteq> None) (map rn_CustomPodEnv rs)"
proof -
  have f: "fold addToManager (rs @ [cron_runnable cronId]) (m, []) = (m', calls)"
    and e: "ext = map (\<lambda>r. the (rn_CustomPodEnv r)) (filter (\<lambda>r. rn_CustomPodEnv r \<noteq> None) rs)"
    using assms(1) by (auto simp: main_Start_def Let_def split: prod.splits if_splits)
  have "map Some ext = filter (\<lambda>x. x \<noteq> None) (map rn_CustomPodEnv rs)"
    unfolding e by (induction rs) auto
  then show ?thesis
    using fold_addToManager [OF f] assms(2) by (simp add: added_def recorders_def cron_runnable_def split: if_splits)
qed

definition api_runnable :: runnable where
  "api_runnable = \<lparr>rn_id = 1, rn_EventRecorder = True, rn_Config = True, rn_Controller = True, rn_Reader = True,
     rn_Client = False, rn_Healthz = Some (PostServer_Name, True, True), rn_CustomPodEnv = None\<rparr>"

theorem start_wires_witness:
  "\<exists>m' calls ext. main_Start None (\<lambda>_. None) None 3 [api_runnable, api_runnable\<lparr>rn_id := 2\<rparr>]
      \<lparr>m_Config = zero_Config, m_Controller = NewController zero_Config (pc :: 'g Collector), m_eventRecorder = False\<rparr>
      = Running (m', calls, ext)
    \<and> added calls = [1, 2, 3] \<and> recorders calls \<le> 1"
proof -
  let ?m = "\<lparr>m_Config = zero_Config, m_Controller = NewController zero_Config pc, m_eventRecorder = False\<rparr>"
  obtain m' calls where "fold addToManager ([api_runnable, api_runnable\<lparr>rn_id := 2\<rparr>] @ [cron_runnable 3]) (?m, []) = (m', calls)"
    by fastforce
  then obtain ext where r: "main_Start None (\<lambda>_. None) None 3 [api_runnable, api_runnable\<lparr>rn_id := 2\<rparr>] ?m = Running (m', calls, ext)"
    by (simp add: main_Start_def SetupWithManager_def)
  from start_wires [OF r] r show ?thesis by (auto simp: api_runnable_def)
qed

text \<open>A manager that cannot be created crashes \<open>Setup\<close>: the checks are added before the error is looked at.\<close>

lemma Setup_nil_manager:
  assumes "env EnvNamespace = Some ns" and "Get decode env ns newClient = Some (Inr cfg)"
    and "newManager (manager_options_of cfg ns) = Some e"
  shows "Setup gv register_ok env decode newClient newManager addCheck = Crash ''invalid memory address or nil pointer dereference''"
  using assms by (simp add: Setup_def)

end
