(* ===== verification/Startup.thy ===== *)
theory Startup
  imports Cmd Server Config_Properties
begin

text \<open>
  The programs: \<open>cmd/generic/main.go\<close>, which starts the controller with its file server and its
  callback server, and \<open>cmd/mock/main.go\<close>. The components are the structs as their constructors
  make them, the interfaces of \<open>pkg/inject\<close> they implement are their method sets, and the calls
  that \<open>Start\<close> makes are carried out on them.
\<close>

section \<open>Components and interfaces\<close>

text \<open>The cron job before it runs: of the client only whether it is set.\<close>

record 'c cron_fields =
  cf_client :: bool
  cf_controller :: "'c option"
  cf_running :: bool
  cf_cfg :: "Config option"
  cf_extender :: "CustomPodEnv list"

definition cron_Job :: "CustomPodEnv list \<Rightarrow> 'c cron_fields" where
  "cron_Job ext = \<lparr>cf_client = False, cf_controller = None, cf_running = False, cf_cfg = None, cf_extender = ext\<rparr>"

definition cron_InjectConfig :: "Config \<Rightarrow> 'c cron_fields \<Rightarrow> 'c cron_fields" where
  "cron_InjectConfig cfg j = j\<lparr>cf_cfg := Some cfg\<rparr>"

definition cron_InjectController :: "'c \<Rightarrow> 'c cron_fields \<Rightarrow> 'c cron_fields" where
  "cron_InjectController c j = j\<lparr>cf_controller := Some c\<rparr>"

definition cron_InjectClient :: "'c cron_fields \<Rightarrow> 'c cron_fields" where
  "cron_InjectClient j = j\<lparr>cf_client := True\<rparr>"

definition NeedLeaderElection :: "'c cron_fields \<Rightarrow> bool" where
  "NeedLeaderElection j = True"

datatype 'c part = PFile Server | PPost "'c PostServer" | PCron "'c cron_fields"

text \<open>The interfaces, and which of them the methods of a component satisfy.\<close>

datatype iface = IEventRecorder | IController | IReader | IClient | IConfig | IHealthz

fun implements :: "'c part \<Rightarrow> iface \<Rightarrow> bool" where
  "implements (PFile s) i = (i = IHealthz)"
| "implements (PPost s) i = (i \<in> {IEventRecorder, IController, IReader, IConfig, IHealthz})"
| "implements (PCron j) i = (i \<in> {IController, IClient, IConfig})"

fun part_Name :: "'c part \<Rightarrow> string" where
  "part_Name (PFile s) = Server_Name"
| "part_Name (PPost s) = PostServer_Name"
| "part_Name (PCron j) = []"

definition runnable_of :: "nat \<Rightarrow> 'c part \<Rightarrow> runnable" where
  "runnable_of i p = \<lparr>rn_id = i, rn_EventRecorder = implements p IEventRecorder, rn_Config = implements p IConfig,
     rn_Controller = implements p IController, rn_Reader = implements p IReader, rn_Client = implements p IClient,
     rn_Healthz = (if implements p IHealthz then Some (part_Name p, True, True) else None), rn_CustomPodEnv = None\<rparr>"

lemma runnable_of_cron: "runnable_of i (PCron j) = cron_runnable i"
  by (simp add: runnable_of_def cron_runnable_def)

section \<open>Carrying out the injections\<close>

fun inject :: "Config \<Rightarrow> 'c \<Rightarrow> manager_call \<Rightarrow> (nat \<Rightarrow> 'c part) \<Rightarrow> nat \<Rightarrow> 'c part" where
  "inject cfg c (InjectEventRecorder i) st =
     (case st i of PPost s \<Rightarrow> st(i := PPost (PostServer_InjectEventRecorder s)) | _ \<Rightarrow> st)"
| "inject cfg c (InjectConfig i) st =
     (case st i of PPost s \<Rightarrow> st(i := PPost (PostServer_InjectConfig cfg s))
      | PCron j \<Rightarrow> st(i := PCron (cron_InjectConfig cfg j)) | _ \<Rightarrow> st)"
| "inject cfg c (InjectController i) st =
     (case st i of PPost s \<Rightarrow> st(i := PPost (PostServer_InjectController c s))
      | PCron j \<Rightarrow> st(i := PCron (cron_InjectController c j)) | _ \<Rightarrow> st)"
| "inject cfg c (InjectReader i) st =
     (case st i of PPost s \<Rightarrow> st(i := PPost (PostServer_InjectReader s)) | _ \<Rightarrow> st)"
| "inject cfg c (InjectClient i) st =
     (case st i of PCron j \<Rightarrow> st(i := PCron (cron_InjectClient j)) | _ \<Rightarrow> st)"
| "inject cfg c call st = st"

definition injected :: "'g Main \<Rightarrow> manager_call list \<Rightarrow> (nat \<Rightarrow> 'g controller part) \<Rightarrow> nat \<Rightarrow> 'g controller part" where
  "injected m calls st = fold (inject (m_Config m) (m_Controller m)) calls st"

section \<open>The programs\<close>

text \<open>The components of the generic program, by number; the cron job is made by \<open>Start\<close>.\<close>

definition generic_parts :: "Config \<Rightarrow> nat \<Rightarrow> 'c part" where
  "generic_parts cfg i =
     (if i = 0 then PFile (StaticFileServer 8080 cfg)
      else if i = 1 then PPost (GenericAPIServer (CallbackServicePort cfg) cfg)
      else PCron (cron_Job []))"

definition generic_main ::
  "'g Main proc \<Rightarrow> err option \<Rightarrow> (registration \<Rightarrow> err option) \<Rightarrow> err option \<Rightarrow>
   ('g Main \<times> manager_call list \<times> CustomPodEnv list) proc" where
  "generic_main setup newForConfig buildComplete startManager =
     proc_bind setup (\<lambda>m.
       main_Start newForConfig buildComplete startManager 2
         [runnable_of 0 (generic_parts (m_Config m) 0 :: 'g controller part),
          runnable_of 1 (generic_parts (m_Config m) 1 :: 'g controller part)] m)"

text \<open>The mock: its flags with their defaults, the logger, and the server whose \<open>Start\<close> it calls.\<close>

record mock_flags =
  mf_port :: int
  mf_json :: bool
  mf_isoTime :: bool

definition mock_defaults :: mock_flags where
  "mock_defaults = \<lparr>mf_port = 8090, mf_json = False, mf_isoTime = True\<rparr>"

definition mock_main :: "mock_flags \<Rightarrow> env \<Rightarrow> logger_options \<times> Server" where
  "mock_main fl env = (SetupLogger (mf_json fl) (mf_isoTime fl) env, MockAPIServer (mf_port fl))"

section \<open>Wiring\<close>

text \<open>Everything a component gets comes before it is given to the manager.\<close>

fun target :: "manager_call \<Rightarrow> nat option" where
  "target (InjectEventRecorder i) = Some i"
| "target (InjectConfig i) = Some i"
| "target (InjectController i) = Some i"
| "target (InjectReader i) = Some i"
| "target (InjectClient i) = Some i"
| "target call = None"

fun added_last :: "manager_call list \<Rightarrow> bool" where
  "added_last [] = True"
| "added_last (AddRunnable i # cs) = ((\<forall>c \<in> set cs. target c \<noteq> Some i) \<and> added_last cs)"
| "added_last (c # cs) = added_last cs"

lemma generic_calls:
  assumes "\<not> m_eventRecorder m" and "main_Start newForConfig buildComplete startManager 2
     [runnable_of 0 (PFile f), runnable_of 1 (PPost s)] m = Running (m', calls, ext)"
  shows "calls = [AddCheck Healthz Server_Name, AddCheck Readyz Server_Name, AddRunnable 0,
      GetEventRecorder (cfg_Name (m_Config m)), InjectEventRecorder 1, InjectConfig 1, InjectController 1, InjectReader 1,
      AddCheck Healthz PostServer_Name, AddCheck Readyz PostServer_Name, AddRunnable 1,
      InjectConfig 2, InjectController 2, InjectClient 2, AddRunnable 2]
    \<and> ext = [] \<and> m_Config m' = m_Config m \<and> m_Controller m' = m_Controller m"
  using assms
  by (auto simp: main_Start_def Let_def addToManager_def runnable_of_def cron_runnable_def split: if_splits)

text \<open>
  C21. The running program is wired. When the generic program has started, the callback server has
  the controller (without one its middleware would let every request pass), the event recorder,
  the reader and the configuration, and the cron job has the same controller, the same
  configuration and the client; each of them before it was given to the manager; the health
  checks of the two servers have different names; and the controller is a new one for the
  configuration that \<open>Setup\<close> has read.
\<close>

theorem generic_main_wired:
  assumes "generic_main (Setup gv register_ok env decode newClient newManager addCheck) newForConfig buildComplete startManager
      = Running (m, calls, ext)"
  defines "st \<equiv> injected m calls (generic_parts (m_Config m))"
  shows "\<exists>ns pc. env EnvNamespace = Some ns \<and> Get decode env ns newClient = Some (Inr (m_Config m))
      \<and> NewPromCollector gv register_ok (m_Config m) = Ret (Inr pc) \<and> m_Controller m = NewController (m_Config m) pc
      \<and> (\<exists>s. st 1 = PPost s \<and> ps_Controller s = Some (m_Controller m) \<and> ps_Config s = m_Config m
           \<and> ps_EventRecorder s \<and> ps_Client s \<and> sv_Port (ps_Server s) = CallbackServicePort (m_Config m))
      \<and> st 2 = PCron \<lparr>cf_client = True, cf_controller = Some (m_Controller m), cf_running = False,
           cf_cfg = Some (m_Config m), cf_extender = ext\<rparr>
      \<and> added_last calls \<and> added calls = [0, 1, 2]
      \<and> (\<forall>k. distinct (filter (\<lambda>c. \<exists>n. c = AddCheck k n) calls) \<and> {n. AddCheck k n \<in> set calls} = {''file-server'', ''api-server''})"
proof -
  obtain m0 where m0: "Setup gv register_ok env decode newClient newManager addCheck = Running m0"
    and r: "main_Start newForConfig buildComplete startManager 2
      [runnable_of 0 (generic_parts (m_Config m0) 0 :: 'a controller part), runnable_of 1 (generic_parts (m_Config m0) 1 :: 'a controller part)] m0
      = Running (m, calls, ext)"
    using assms(1) unfolding generic_main_def
    by (cases "Setup gv register_ok env decode newClient newManager addCheck") auto
  from m0 obtain ns pc where s: "env EnvNamespace = Some ns" "Get decode env ns newClient = Some (Inr (m_Config m0))"
      "NewPromCollector gv register_ok (m_Config m0) = Ret (Inr pc)" "m_Controller m0 = NewController (m_Config m0) pc"
      "\<not> m_eventRecorder m0"
    by (auto simp: Setup_def split: option.splits sum.splits if_splits go.splits)
  have "main_Start newForConfig buildComplete startManager 2
      [runnable_of 0 (PFile (StaticFileServer 8080 (m_Config m0)) :: 'a controller part),
       runnable_of 1 (PPost (GenericAPIServer (CallbackServicePort (m_Config m0)) (m_Config m0)) :: 'a controller part)] m0
      = Running (m, calls, ext)" using r by (simp add: generic_parts_def)
  note c = generic_calls [OF s(5) this]
  have "distinct (filter (\<lambda>c. \<exists>n. c = AddCheck k n) calls) \<and> {n. AddCheck k n \<in> set calls} = {''file-server'', ''api-server''}" for k
    using c by (cases k) (auto simp: Server_Name_def PostServer_Name_def)
  moreover have "(\<exists>s. st 1 = PPost s \<and> ps_Controller s = Some (m_Controller m) \<and> ps_Config s = m_Config m
           \<and> ps_EventRecorder s \<and> ps_Client s \<and> sv_Port (ps_Server s) = CallbackServicePort (m_Config m))
      \<and> st 2 = PCron \<lparr>cf_client = True, cf_controller = Some (m_Controller m), cf_running = False,
           cf_cfg = Some (m_Config m), cf_extender = ext\<rparr>"
    using c unfolding st_def
    by (simp add: injected_def generic_parts_def cron_Job_def GenericAPIServer_def Let_def PostServer_InjectEventRecorder_def
        PostServer_InjectConfig_def PostServer_InjectController_def PostServer_InjectReader_def cron_InjectConfig_def
        cron_InjectController_def cron_InjectClient_def)
  moreover have "added_last calls \<and> added calls = [0, 1, 2]" using c by (simp add: added_def)
  ultimately show ?thesis using s c by auto
qed

definition sample_setup :: "((string \<times> string \<times> string list) \<times> (string list \<rightharpoonup> float64)) Main proc" where
  "sample_setup = Setup map_gauge_vec (\<lambda>_. True) [''NAMESPACE'' \<mapsto> ''ns''] (\<lambda>_. Inr zero_Config) (Inr sample_reader)
     (\<lambda>_. None) (\<lambda>_ _. None)"

lemma sample_setup_runs: "\<exists>m. sample_setup = Running m \<and> \<not> m_eventRecorder m"
proof -
  have "findOwner sample_reader ''v1'' ''Pod'' ''ns'' [] = Some ([], None)"
    by (subst findOwner.simps) (simp add: sample_reader_def)
  then have "\<exists>cfg. Get (\<lambda>_. Inr zero_Config) [''NAMESPACE'' \<mapsto> ''ns''] ''ns'' (Inr sample_reader) = Some (Inr cfg)
      \<and> cfg_Metrics cfg = cfg_Metrics zero_Config"
    by (simp add: Get_def getInternal_def configMap_def findPodOwner_def os_Getenv_def EnvHostname_def EnvConfigMapName_def
        EnvReportDirectory_def ConfigFileName_def PodTemplateName_def sample_reader_def Let_def)
  then obtain cfg where g: "Get (\<lambda>_. Inr zero_Config) [''NAMESPACE'' \<mapsto> ''ns''] ''ns'' (Inr sample_reader) = Some (Inr cfg)"
    "cfg_Metrics cfg = cfg_Metrics zero_Config" by blast
  have "\<exists>pc. NewPromCollector map_gauge_vec (\<lambda>_. True) cfg = Ret (Inr pc)"
    by (simp add: NewPromCollector_def g(2) zero_Config_def Let_def map_gauge_vec_def)
  with g show ?thesis by (auto simp: sample_setup_def Setup_def EnvNamespace_def)
qed

theorem generic_main_wired_witness:
  "\<exists>m calls ext s. generic_main sample_setup None (\<lambda>_. None) None = Running (m, calls, ext)
     \<and> injected m calls (generic_parts (m_Config m)) 1 = PPost s \<and> ps_Controller s = Some (m_Controller m)"
proof -
  obtain m0 where m0: "sample_setup = Running m0" using sample_setup_runs by blast
  have "\<exists>m calls ext. main_Start None (\<lambda>_. None) None 2 rs m0 = Running (m, calls, ext)" for rs
    by (cases "fold addToManager (rs @ [cron_runnable 2]) (m0, [])") (simp add: main_Start_def SetupWithManager_def)
  then obtain m calls ext where r: "generic_main sample_setup None (\<lambda>_. None) None = Running (m, calls, ext)"
    unfolding generic_main_def m0 proc_bind.simps by blast
  from generic_main_wired [OF r [unfolded sample_setup_def]] obtain s where
    "injected m calls (generic_parts (m_Config m)) 1 = PPost s" "ps_Controller s = Some (m_Controller m)"
    by (elim exE conjE)
  with r show ?thesis by (intro exI conjI)
qed

end
