(* ===== verification/End_To_End.thy ===== *)
theory End_To_End
  imports Server_Properties System Client_Properties
begin

text \<open>
  A request to the callback server from the path on: the route gin finds, the chain of the route,
  the handler. Every request that is answered with its state known is a step of \<open>System\<close>; and
  what a job sends with the client, to the URL in its environment, arrives there.
\<close>

section \<open>Serving a request\<close>

text \<open>
  A POST request: its path, what reading its body gives, its parts as \<open>postFile\<close> sees them; and
  what the handlers take from outside at that moment: the time, a fresh UUID, and the API reader.
\<close>

record http_request =
  hr_path :: string
  hr_body :: "err + string"
  hr_file :: file_request
  hr_time :: instant
  hr_uuid :: string
  hr_get :: "string \<times> string \<Rightarrow> err + Pod"

type_synonym 'g served = "'g controller \<times> fs \<times> recorded_event list"

text \<open>The handlers by their names; what the profiling handlers answer is an argument.\<close>

fun api_handler ::
  "(string \<Rightarrow> http_status) \<Rightarrow> 'g gauge_vec \<Rightarrow> callbacks \<Rightarrow> Config \<Rightarrow> http_request \<Rightarrow> string \<times> string \<Rightarrow> route_handler \<Rightarrow>
   'g served \<Rightarrow> ('g served \<times> http_status) go" where
  "api_handler pprof gv sv cfg rq (node, eid) HResult (c, s, evs) =
     go_bind (postResult (ReportReceived gv) (sv_parse sv) (sv_isValidMetricName sv) (hr_time rq) cfg node eid (hr_body rq) (c, s))
       (\<lambda>((c', s'), code). Ret ((c', s', evs), code))"
| "api_handler pprof gv sv cfg rq (node, eid) HFile (c, s, evs) =
     go_bind (file_handler sv (hr_time rq) (hr_uuid rq) cfg node eid (hr_file rq) (c, s))
       (\<lambda>((c', s'), code). Ret ((c', s', evs), code))"
| "api_handler pprof gv sv cfg rq (node, eid) HEvent (c, s, evs) =
     go_bind (postEvent (sv_parse sv) (sv_validate sv) (hr_get rq) cfg node eid (hr_body rq) evs)
       (\<lambda>(evs', code). Ret ((c, s, evs'), code))"
| "api_handler pprof gv sv cfg rq p (HPprof n) st = Ret (st, pprof n)"

definition api_serve ::
  "(route list \<Rightarrow> http_method \<Rightarrow> string \<Rightarrow> (route \<times> (string \<rightharpoonup> string)) option) \<Rightarrow> (string \<Rightarrow> http_status) \<Rightarrow>
   'g gauge_vec \<Rightarrow> callbacks \<Rightarrow> 'c PostServer \<Rightarrow> http_request \<Rightarrow> 'g served \<Rightarrow> ('g served option \<times> http_status) go" where
  "api_serve gin pprof gv sv srv rq st =
     (case gin (server_routes (ps_Server srv)) POST (hr_path rq) of
        None \<Rightarrow> Ret (Some st, StatusNotFound)
      | Some (r, ps) \<Rightarrow>
          run_chain
            (\<lambda>(c, s, evs). middleware Has (ps_Config srv) (map_option (\<lambda>_. c) (ps_Controller srv)) (fst (nodeAndID ps)) (snd (nodeAndID ps)))
            (rt_Chain r) (api_handler pprof gv sv (ps_Config srv) rq (nodeAndID ps) (rt_Handler r)) st)"

text \<open>A callback server that \<open>Start\<close> has wired, see \<open>Startup\<close>.\<close>

definition wired :: "Config \<Rightarrow> 'c PostServer \<Rightarrow> bool" where
  "wired cfg srv \<longleftrightarrow> (\<exists>port cfg'. ps_Server srv = ps_Server (GenericAPIServer port cfg' :: 'c PostServer))
     \<and> ps_Controller srv \<noteq> None \<and> ps_Config srv = cfg"

lemma wired_route:
  assumes "router_law gin" and "wired cfg srv"
  shows "gin (server_routes (ps_Server srv)) POST path = Some (r, ps) \<longleftrightarrow>
    (\<exists>n e sub h. plain_segment n \<and> plain_segment e \<and> (sub, h) \<in> set callback_table \<and> path = callback_path n e sub
       \<and> r = api_route sub h \<and> ps = map_of (callback_params n e))"
  using assms(2) api_route_found [OF assms(1)] unfolding wired_def by metis

lemma nodeAndID_params [simp]: "nodeAndID (map_of (callback_params n e)) = (n, e)"
  by (simp add: nodeAndID_def ctx_Param_def callback_params_def)

text \<open>What a routed request is answered.\<close>

lemma api_serve_routed:
  assumes "router_law gin" and "wired cfg srv" and "plain_segment n" and "plain_segment e" and "(sub, h) \<in> set callback_table"
    and "hr_path rq = callback_path n e sub"
  shows "api_serve gin pprof gv sv srv rq (c, s, evs) =
    Ret (case middleware Has cfg (Some c) n e of
        Some code \<Rightarrow> (Some (c, s, evs), code)
      | None \<Rightarrow> recovered (api_handler pprof gv sv cfg rq (n, e) h (c, s, evs)))"
proof -
  have "gin (server_routes (ps_Server srv)) POST (hr_path rq) = Some (api_route sub h, map_of (callback_params n e))"
    using assms wired_route [OF assms(1,2)] by blast
  moreover obtain c0 where "ps_Controller srv = Some c0" "ps_Config srv = cfg" using assms(2) by (auto simp: wired_def)
  ultimately show ?thesis
    by (auto simp: api_serve_def api_route_def recovered_def split: option.split go.split)
qed

text \<open>The two views of a handler on the controller and the files, with and without the events.\<close>

lemma recovered_events:
  "recovered (go_bind r (\<lambda>((c', s'), code). Ret ((c', s', evs), code))) =
    (map_option (\<lambda>(c', s'). (c', s', evs)) (fst (recovered r)), snd (recovered r))"
  by (cases r) (auto simp: recovered_def)

lemma api_serve_returns:
  assumes "router_law gin" and "wired cfg srv"
  shows "\<exists>out code. api_serve gin pprof gv sv srv rq st = Ret (out, code)"
proof (cases "gin (server_routes (ps_Server srv)) POST (hr_path rq)")
  case None
  then show ?thesis by (simp add: api_serve_def)
next
  case (Some rp)
  then obtain r ps where rp: "gin (server_routes (ps_Server srv)) POST (hr_path rq) = Some (r, ps)" by (cases rp) simp
  then obtain n e sub h where r: "plain_segment n" "plain_segment e" "(sub, h) \<in> set callback_table"
    "hr_path rq = callback_path n e sub" using wired_route [OF assms] by blast
  obtain c s evs where st: "st = (c, s, evs)" by (cases st) auto
  show ?thesis unfolding st api_serve_routed [OF assms r] by (metis surj_pair)
qed

section \<open>Requests are steps\<close>

text \<open>The requests at the routes as labels of the system.\<close>

fun request_label :: "http_request \<Rightarrow> route_handler \<Rightarrow> string \<Rightarrow> string \<Rightarrow> http_status \<Rightarrow> sys_label option" where
  "request_label rq HResult n e code = Some (ResultPosted (hr_time rq) n e (hr_body rq) code)"
| "request_label rq HFile n e code = Some (FilePosted (hr_time rq) (hr_uuid rq) n e (hr_file rq) code)"
| "request_label rq HEvent n e code = Some (EventPosted (hr_get rq) n e (hr_body rq) code)"
| "request_label rq (HPprof p) n e code = None"

definition with_served :: "('g, 'k) system \<Rightarrow> 'g served \<Rightarrow> ('g, 'k) system" where
  "with_served y st = (set_state (fst st) (fst (snd st)) y)\<lparr>sy_events := snd (snd st)\<rparr>"

lemma set_state_same [simp]: "set_state (sy_ctl y) (sy_fs y) y = y"
  by (simp add: set_state_def)

lemma with_served_set [simp]: "with_served y (c, s, sy_events y) = set_state c s y"
  by (simp add: with_served_def set_state_def)

lemma endpoint_eq:
  "endpoint has cfg h st n e = (case middleware has cfg (Some (fst st)) n e of
      Some code \<Rightarrow> (Some st, code) | None \<Rightarrow> recovered (h st))"
  by (simp add: endpoint_def)

text \<open>Each kind of request, once it is routed: answering it is the step of its label.\<close>

abbreviation answered ::
  "(string \<Rightarrow> http_status) \<Rightarrow> ('g, 'k) cronJob \<Rightarrow> callbacks \<Rightarrow> http_request \<Rightarrow> route_handler \<Rightarrow> string \<Rightarrow> string \<Rightarrow> ('g, 'k) system \<Rightarrow>
   'g served option \<times> http_status" where
  "answered pprof j sv rq h n e y \<equiv>
     (case middleware Has (cj_cfg j) (Some (sy_ctl y)) n e of
        Some code \<Rightarrow> (Some (sy_ctl y, sy_fs y, sy_events y), code)
      | None \<Rightarrow> recovered (api_handler pprof (cj_gauge j) sv (cj_cfg j) rq (n, e) h (sy_ctl y, sy_fs y, sy_events y)))"

lemma answered_result:
  assumes "answered pprof j sv rq HResult n e y = (Some (c', s', evs'), code)"
  shows "sstep j sv y (ResultPosted (hr_time rq) n e (hr_body rq) code) (with_served y (c', s', evs'))"
proof -
  have "endpoint Has (cj_cfg j) (postResult (ReportReceived (cj_gauge j)) (sv_parse sv) (sv_isValidMetricName sv)
      (hr_time rq) (cj_cfg j) n e (hr_body rq)) (sy_ctl y, sy_fs y) n e = (Some (c', s'), code) \<and> evs' = sy_events y"
    using assms unfolding endpoint_eq api_handler.simps recovered_events by (auto simp: prod_eq_iff split: option.splits)
  with sstep.result_posted [of j sv "hr_time rq" n e "hr_body rq" y c' s' code] show ?thesis by simp
qed

lemma answered_file:
  assumes "answered pprof j sv rq HFile n e y = (Some (c', s', evs'), code)"
  shows "sstep j sv y (FilePosted (hr_time rq) (hr_uuid rq) n e (hr_file rq) code) (with_served y (c', s', evs'))"
proof -
  have "endpoint Has (cj_cfg j) (file_handler sv (hr_time rq) (hr_uuid rq) (cj_cfg j) n e (hr_file rq))
      (sy_ctl y, sy_fs y) n e = (Some (c', s'), code) \<and> evs' = sy_events y"
    using assms unfolding endpoint_eq api_handler.simps recovered_events by (auto simp: prod_eq_iff split: option.splits)
  with sstep.file_posted [of j sv "hr_time rq" "hr_uuid rq" n e "hr_file rq" y c' s' code] show ?thesis by simp
qed

lemma answered_event:
  assumes "answered pprof j sv rq HEvent n e y = (Some (c', s', evs'), code)"
  shows "sstep j sv y (EventPosted (hr_get rq) n e (hr_body rq) code) (with_served y (c', s', evs'))"
proof (cases "middleware Has (cj_cfg j) (Some (sy_ctl y)) n e")
  case (Some code')
  with sstep.event_refused [OF Some] assms show ?thesis by auto
next
  case None
  then have "postEvent (sv_parse sv) (sv_validate sv) (hr_get rq) (cj_cfg j) n e (hr_body rq) (sy_events y) = Ret (evs', code)"
    "c' = sy_ctl y" "s' = sy_fs y"
    using assms by (auto simp: recovered_def split: go.splits prod.splits)
  with sstep.event_posted [OF None] show ?thesis by (auto simp: with_served_def set_state_def)
qed

lemma answered_step:
  assumes "answered pprof j sv rq h n e y = (out, code)" and "(sub, h) \<in> set callback_table"
  shows "\<exists>l. request_label rq h n e code = Some l
    \<and> (case out of None \<Rightarrow> code = 500 | Some st \<Rightarrow> sstep j sv y l (with_served y st))"
proof (cases out)
  case None
  then show ?thesis using assms
    by (auto simp: callback_table_def recovered_def StatusInternalServerError_def split: option.splits go.splits prod.splits)
next
  case (Some st)
  obtain c' s' evs' where st: "st = (c', s', evs')" by (cases st) auto
  show ?thesis
    using assms answered_result [of pprof j sv rq n e y c' s' evs' code] answered_file [of pprof j sv rq n e y c' s' evs' code]
      answered_event [of pprof j sv rq n e y c' s' evs' code]
    unfolding Some st by (auto simp del: with_served_set simp: callback_table_def)
qed


definition sample_srv :: "nat PostServer" where
  "sample_srv = PostServer_InjectController 0 (GenericAPIServer 8090 sample_cfg)"

lemma sample_wired: "wired sample_cfg sample_srv"
  by (auto simp: wired_def sample_srv_def PostServer_InjectController_def GenericAPIServer_def Let_def)

definition api_job :: "((string \<times> string \<times> string list) \<times> (string list \<rightharpoonup> float64), Pod list) cronJob" where
  "api_job = (sample_cron sample_template)\<lparr>cj_cfg := sample_cfg\<rparr>"

definition api_sv :: callbacks where
  "api_sv = \<lparr>sv_parse = sample_parse, sv_isValidMetricName = \<lambda>_. True, sv_validate = check_fields,
     sv_mime = \<lparr>mm_ParseMediaType = \<lambda>m. (m, Map.empty), mm_ExtensionsByType = \<lambda>_. []\<rparr>, sv_SaveUploadedFile = \<lambda>s p d. (Inr (), s)\<rparr>"

definition api_request :: http_request where
  "api_request = \<lparr>hr_path = ''/report/n1/e1/result'', hr_body = Inr ''ok'',
     hr_file = \<lparr>rq_form = None, rq_body = Inr ''ok'', rq_name = [], rq_ContentDisposition = [], rq_ContentType = []\<rparr>,
     hr_time = 9, hr_uuid = ''uuid'', hr_get = \<lambda>_. Inl ApiNotFound\<rparr>"

definition api_state :: "((string \<times> string \<times> string list) \<times> (string list \<rightharpoonup> float64), Pod list) system" where
  "api_state = set_state (started_controller sample_cfg) report_fs (sys_init api_job (sample_collector sample_cfg) report_fs [])"

lemma api_state_simps [simp]:
  "sy_ctl api_state = started_controller sample_cfg" "sy_fs api_state = report_fs" "sy_events api_state = []"
  by (simp_all add: api_state_def sys_init_def)

lemma api_job_simps [simp]: "cj_cfg api_job = sample_cfg" "cj_gauge api_job = map_gauge_vec" "cj_setOwner api_job = set_owner"
  by (simp_all add: api_job_def)


section \<open>From the job to the controller\<close>

text \<open>A result at its route, in terms of \<open>endpoint\<close>.\<close>

lemma api_serve_result:
  fixes gv :: "'g gauge_vec" and sv :: callbacks
  assumes "router_law gin" and "wired cfg srv" and "plain_segment n" and "plain_segment e"
    and "hr_path rq = callback_path n e CallbackBaseResultSubPath"
  defines "E \<equiv> \<lambda>c s. endpoint Has cfg (postResult (ReportReceived gv) (sv_parse sv) (sv_isValidMetricName sv) (hr_time rq) cfg n e (hr_body rq)) (c, s) n e"
  shows "api_serve gin pprof gv sv srv rq (c, s, evs) =
    Ret (map_option (\<lambda>(c', s'). (c', s', evs)) (fst (E c s)), snd (E c s))"
proof -
  have "(CallbackBaseResultSubPath, HResult) \<in> set callback_table" by (simp add: callback_table_def)
  note a = api_serve_routed [OF assms(1-4) this assms(5)]
  show ?thesis
    unfolding E_def endpoint_eq a api_handler.simps recovered_events by (simp split: option.split)
qed

lemma result_accepted:
  assumes "endpoint Has cfg (postResult rr parse valid t cfg n e (Inr txt)) (c, s) n e = (out, StatusOK)"
    and "parse txt = Inr v" and "dec_Results v = Some (Some rs)"
  shows "\<exists>c' s'. out = Some (c', s') \<and> rr t c e n False rs = Ret c'"
proof -
  have "middleware Has cfg (Some c) n e = None"
    using assms(1) by (auto simp: endpoint_def middleware_def split: if_splits)
  then have r: "recovered (postResult rr parse valid t cfg n e (Inr txt) (c, s)) = (out, StatusOK)"
    using assms(1) by (simp add: endpoint_def)
  then obtain c' s' where p: "postResult rr parse valid t cfg n e (Inr txt) (c, s) = Ret ((c', s'), StatusOK)" "out = Some (c', s')"
    by (auto simp: recovered_def split: go.splits prod.splits)
  from p(1) have "rr t c e n False rs = Ret c'"
    by (cases rule: postResult_cases) (use assms(2,3) in auto)
  with p(2) show ?thesis by blast
qed

text \<open>
  The network: a request to a URL of the host is answered by the server there for the rest of
  the URL.
\<close>

definition reaches :: "resty \<Rightarrow> (json \<Rightarrow> string) \<Rightarrow> string \<Rightarrow> (string \<Rightarrow> string \<Rightarrow> http_status) \<Rightarrow> bool" where
  "reaches post render host answer \<longleftrightarrow> (\<forall>rq path txt. cr_url rq = ''http://'' @ host @ path \<longrightarrow> wire render (cr_body rq) = Some txt \<longrightarrow>
     (\<exists>st msg. post rq = (Some \<lparr>rs_StatusCode = answer path txt, rs_Status = st, rs_String = msg\<rparr>, None)))"

lemma Default_resultURL:
  assumes "owner_law setOwner" and "New execute decode setOwner cfg n eid addr owner ext = Ret (Inr pod)"
    and "x \<in> set (pd_Containers pod) \<union> set (pd_InitContainers pod)"
  shows "resultURL (Default (env_value (cn_Env x)) k) = callback_url cfg addr n eid CallbackBaseResultSubPath"
proof -
  obtain c0 :: Container where "cn_Env x = mergeEnv cfg n eid addr c0 ext"
    by (rule New_pod [OF assms(1,2)]) (use assms(3) in auto)
  then have "env_value (cn_Env x) ''CALLBACK_SERVICE_RESULT_URL'' = Some (callback_url cfg addr n eid ''/result'')"
    by (simp only: mergeEnv_value)
  then show ?thesis
    by (simp add: Default_def client_New_def os_Getenv_def EnvCallbackServiceResultURL_def CallbackBaseResultSubPath_def)
qed

lemma startPods_job_New:
  assumes "startPods_job j eid addr nd = Ret (Inr pj)"
  shows "New (cj_execute j) (cj_decode j) (cj_setOwner j) (cj_cfg j) (nd_Name nd) eid addr (Owner (cj_cfg j)) (cj_extender j)
    = Ret (Inr (pj_pod pj))"
proof -
  from assms obtain z where z: "New (cj_execute j) (cj_decode j) (cj_setOwner j) (cj_cfg j) (nd_Name nd) eid addr (Owner (cj_cfg j)) (cj_extender j) = Ret z"
    "(case z of Inl e \<Rightarrow> Inl e | Inr pod \<Rightarrow> Inr \<lparr>pj_id = eid, pj_nodeName = nd_Name nd, pj_pod = pod\<rparr>) = Inr pj"
    unfolding startPods_job_def go_bind_Ret_iff by blast
  then show ?thesis by (cases z) auto
qed

text \<open>The client returns no error exactly if the network brings back a 200 for its URL.\<close>

lemma SendResult_answer:
  assumes "reaches post render host answer" and "resultURL cl = ''http://'' @ host @ path" and "wire render (BodyResults rs) = Some txt"
  shows "SendResult post cl rs = None \<longleftrightarrow> answer path txt = StatusOK"
proof -
  obtain st msg where "post \<lparr>cr_url = resultURL cl, cr_headers = default_headers cl, cr_body = BodyResults rs\<rparr>
      = (Some \<lparr>rs_StatusCode = answer path txt, rs_Status = st, rs_String = msg\<rparr>, None)"
    using assms unfolding reaches_def by (metis request.select_convs(1,3))
  then show ?thesis by (simp add: SendResult_def StatusOK_def)
qed

text \<open>The steps of accepted results, by the endpoint.\<close>

abbreviation result_endpoint where
  "result_endpoint j sv t n eid body y \<equiv>
     endpoint Has (cj_cfg j) (postResult (ReportReceived (cj_gauge j)) (sv_parse sv) (sv_isValidMetricName sv) t (cj_cfg j) n eid body)
       (sy_ctl y, sy_fs y) n eid"

lemma accepted_steps:
  "sstep j sv y (ResultPosted t n eid body StatusOK) y' \<longleftrightarrow>
     (\<exists>c' s'. result_endpoint j sv t n eid body y = (Some (c', s'), StatusOK) \<and> y' = set_state c' s' y)"
  by (auto intro: sstep.result_posted elim: sstep.cases)

lemma accepted_results:
  assumes "snd (result_endpoint j sv t n eid (Inr txt) y) = StatusOK"
    and "sv_parse sv txt = Inr v" and "dec_Results v = Some (Some rs)"
  shows "\<exists>c' s'. result_endpoint j sv t n eid (Inr txt) y = (Some (c', s'), StatusOK)
    \<and> ReportReceived (cj_gauge j) t (sy_ctl y) eid n False rs = Ret c'"
  using result_accepted [of "cj_cfg j" _ "sv_parse sv" _ t n eid "txt" "sy_ctl y" "sy_fs y" "fst (result_endpoint j sv t n eid (Inr txt) y)" v rs]
    assms by (metis prod.collapse)

text \<open>
  C10. What a job reports reaches its controller. Take a pod that the controller made for a node and
  an execution, any of its containers, the client it makes from its environment, and a network
  that connects it to the wired callback server. Then sending results returns no error exactly if
  the system makes the step of an accepted result for this node and this execution, and every
  such step gives the controller exactly the results that were sent.
\<close>

theorem report_end_to_end:
  assumes "router_law gin" and "wired (cj_cfg j) srv" and "owner_law (cj_setOwner j)"
    and "startPods_job j eid addr nd = Ret (Inr pj)"
    and "x \<in> set (pd_Containers (pj_pod pj)) \<union> set (pd_InitContainers (pj_pod pj))"
    and "plain_segment (nd_Name nd)" and "plain_segment eid"
    and "results_ok rs" and "\<And>v. enc_Results rs = Some v \<Longrightarrow> sv_parse sv (render v) = Inr v"
    and "\<And>path txt. api_serve gin pprof (cj_gauge j) sv srv (rq\<lparr>hr_path := path, hr_body := Inr txt\<rparr>)
          (sy_ctl y, sy_fs y, sy_events y) = Ret (out path txt, answer path txt)"
    and "reaches post render (net_JoinHostPort addr (strconv_Itoa (CallbackServicePort (cj_cfg j)))) answer"
  shows "\<exists>txt. wire render (BodyResults rs) = Some txt
    \<and> (SendResult post (Default (env_value (cn_Env x)) k) rs = None \<longleftrightarrow>
         (\<exists>y'. sstep j sv y (ResultPosted (hr_time rq) (nd_Name nd) eid (Inr txt) StatusOK) y'))
    \<and> (\<forall>y'. sstep j sv y (ResultPosted (hr_time rq) (nd_Name nd) eid (Inr txt) StatusOK) y' \<longrightarrow>
         ReportReceived (cj_gauge j) (hr_time rq) (sy_ctl y) eid (nd_Name nd) False rs = Ret (sy_ctl y'))"
proof -
  obtain v where v: "enc_Results rs = Some v" "dec_Results v = Some (Some rs)" using dec_enc_Results [OF assms(8)] by blast
  let ?txt = "render v" and ?n = "nd_Name nd"
  let ?path = "callback_path ?n eid CallbackBaseResultSubPath" and ?E = "result_endpoint j sv (hr_time rq) (nd_Name nd) eid (Inr (render v)) y"
  have w: "wire render (BodyResults rs) = Some ?txt" using v by simp
  have url: "resultURL (Default (env_value (cn_Env x)) k) =
      ''http://'' @ net_JoinHostPort addr (strconv_Itoa (CallbackServicePort (cj_cfg j))) @ ?path"
    unfolding Default_resultURL [OF assms(3) startPods_job_New [OF assms(4)] assms(5)] by (simp add: callback_url_def callback_path_def)
  have "answer ?path ?txt = snd ?E"
    using assms(10) [of ?txt ?path]
      api_serve_result [OF assms(1,2,6,7), of "rq\<lparr>hr_path := ?path, hr_body := Inr ?txt\<rparr>" pprof "cj_gauge j" sv "sy_ctl y" "sy_fs y" "sy_events y"]
    by simp
  then have s: "SendResult post (Default (env_value (cn_Env x)) k) rs = None \<longleftrightarrow> snd ?E = StatusOK"
    using SendResult_answer [OF assms(11) url w] by simp
  note acc = accepted_results [of j sv "hr_time rq" ?n eid ?txt y v rs, OF _ assms(9) [OF v(1)] v(2)]
  show ?thesis
  proof (intro exI [of _ ?txt] conjI allI impI)
    show "SendResult post (Default (env_value (cn_Env x)) k) rs = None \<longleftrightarrow>
        (\<exists>y'. sstep j sv y (ResultPosted (hr_time rq) ?n eid (Inr ?txt) StatusOK) y')"
      unfolding s accepted_steps using acc by fastforce
  next
    fix y'
    assume "sstep j sv y (ResultPosted (hr_time rq) ?n eid (Inr ?txt) StatusOK) y'"
    then obtain c' s' where e: "?E = (Some (c', s'), StatusOK)" "y' = set_state c' s' y" unfolding accepted_steps by blast
    with acc show "ReportReceived (cj_gauge j) (hr_time rq) (sy_ctl y) eid ?n False rs = Ret (sy_ctl y')" by auto
  qed (rule w)
qed

definition net_deliver :: "string \<Rightarrow> (json \<Rightarrow> string) \<Rightarrow> (string \<Rightarrow> string \<Rightarrow> http_status) \<Rightarrow> resty" where
  "net_deliver host render answer rq =
     (case wire render (cr_body rq) of
        None \<Rightarrow> (None, None)
      | Some b \<Rightarrow> (Some \<lparr>rs_StatusCode = answer (drop (length (''http://'' @ host)) (cr_url rq)) b, rs_Status = ''status'', rs_String = []\<rparr>, None))"

lemma reaches_net_deliver: "reaches (net_deliver host render answer) render host answer"
  by (simp add: reaches_def net_deliver_def)

theorem report_end_to_end_witness:
  "\<exists>pj x post y'. startPods_job api_job ''e1'' ''1.1.1.1'' (sample_node ''n1'' True) = Ret (Inr pj) \<and> x \<in> set (pd_Containers (pj_pod pj))
     \<and> SendResult post (Default (env_value (cn_Env x)) 3) sample_results = None
     \<and> sstep api_job api_sv api_state (ResultPosted 9 ''n1'' ''e1'' (Inr ''ok'') StatusOK) y'"
proof -
  obtain pj where pj: "startPods_job api_job ''e1'' ''1.1.1.1'' (sample_node ''n1'' True) = Ret (Inr pj)" "pd_Containers (pj_pod pj) \<noteq> []"
    by (simp add: startPods_job_def New_def sample_execute_def sample_template_def Let_def api_job_def sample_cfg_def zero_Config_def
        split: option.splits)
  obtain x where x: "x \<in> set (pd_Containers (pj_pod pj))" using pj(2) by (cases "pd_Containers (pj_pod pj)") auto
  have "\<forall>path b. \<exists>r. api_serve find_route (\<lambda>_. 200) (cj_gauge api_job) api_sv sample_srv (api_request\<lparr>hr_path := path, hr_body := Inr b\<rparr>)
      (sy_ctl api_state, sy_fs api_state, sy_events api_state) = Ret (fst r, snd r)"
  proof (intro allI)
    fix path b
    obtain out code where "api_serve find_route (\<lambda>_. 200) (cj_gauge api_job) api_sv sample_srv
        (api_request\<lparr>hr_path := path, hr_body := Inr b\<rparr>) (sy_ctl api_state, sy_fs api_state, sy_events api_state) = Ret (out, code)"
      using api_serve_returns [OF router_law_find sample_wired] by blast
    then show "\<exists>r. api_serve find_route (\<lambda>_. 200) (cj_gauge api_job) api_sv sample_srv
        (api_request\<lparr>hr_path := path, hr_body := Inr b\<rparr>) (sy_ctl api_state, sy_fs api_state, sy_events api_state) = Ret (fst r, snd r)"
      by (intro exI [of _ "(out, code)"]) simp
  qed
  then obtain r where r: "api_serve find_route (\<lambda>_. 200) (cj_gauge api_job) api_sv sample_srv (api_request\<lparr>hr_path := path, hr_body := Inr b\<rparr>)
      (sy_ctl api_state, sy_fs api_state, sy_events api_state) = Ret (fst (r path b), snd (r path b))" for path b by metis
  have w: "wired (cj_cfg api_job) sample_srv" "owner_law (cj_setOwner api_job)"
    using sample_wired owner_law_set_owner by simp_all
  have pl: "plain_segment (nd_Name (sample_node ''n1'' True))" "plain_segment ''e1''" by (simp_all add: plain_segment_def sample_node_def)
  have pa: "sv_parse api_sv ((\<lambda>_. ''ok'') v) = Inr v" if "enc_Results sample_results = Some v" for v
    using sample_results_parse [OF that] by (simp add: api_sv_def)
  let ?post = "net_deliver (net_JoinHostPort ''1.1.1.1'' (strconv_Itoa (CallbackServicePort (cj_cfg api_job)))) (\<lambda>_. ''ok'') (\<lambda>path b. snd (r path b))"
  have h: "x \<in> set (pd_Containers (pj_pod pj)) \<union> set (pd_InitContainers (pj_pod pj))" using x by simp
  note E = report_end_to_end [OF router_law_find w pj(1) h pl sample_results_ok pa r reaches_net_deliver, of 3]
  have t: "wire (\<lambda>_. ''ok'') (BodyResults sample_results) = Some ''ok''" by (simp add: sample_enc)
  obtain c' s' where e: "endpoint Has sample_cfg (postResult (ReportReceived map_gauge_vec) sample_parse (\<lambda>_. True) 9 sample_cfg ''n1'' ''e1'' (Inr ''ok''))
       (started_controller sample_cfg, report_fs) ''n1'' ''e1'' = (Some (c', s'), StatusOK)" using sample_accepted by blast
  have "sstep api_job api_sv api_state (ResultPosted 9 ''n1'' ''e1'' (Inr ''ok'') StatusOK) (set_state c' s' api_state)"
    by (rule sstep.result_posted) (use e in \<open>simp add: api_sv_def\<close>)
  moreover from this have "SendResult ?post (Default (env_value (cn_Env x)) 3) sample_results = None"
    using E t by (auto simp: api_request_def sample_node_def)
  ultimately show ?thesis using pj(1) x by blast
qed

end
