(* ===== verification/Overlap.thy ===== *)
theory Overlap
  imports Cron_Properties
begin

text \<open>
  The flag \<open>running\<close> of \<open>pkg/cron\<close> with several goroutines in \<open>startPods\<close>: the schedule calls it in
  a new goroutine at every tick, \<open>Start\<close> in one more. The test of the flag, its setting and the
  deferred reset are steps of their own here. As long as nobody tests between the test and the
  setting of another, this is the cron job of \<open>Cron\<close>, with one place and one run at a time;
  otherwise two runs overlap.
\<close>

section \<open>Goroutines\<close>

text \<open>
  Where a goroutine is in \<open>startPods\<close>: before the test, before the setting, before the list of
  nodes, in the loop (with what is left of it), blocked in \<open>AddPod\<close> (on an execution with a job),
  before the deferred reset, returned.
\<close>

datatype start_pc =
    GTest
  | GSet
  | GPrepare
  | GLoop string string "Node list"
  | GBlocked string string "Node list" nat Job
  | GReset
  | GReturned

text \<open>What the goroutines share: \<open>Cron\<close>'s state without the place of the one goroutine.\<close>

record ('g, 'k) crew =
  cw_ctl :: "'g controller"
  cw_fs :: fs
  cw_cluster :: 'k
  cw_running :: bool
  cw_gos :: "start_pc list"
  cw_pods :: "nat \<times> string \<rightharpoonup> podJob"
  cw_created :: "(nat \<times> podJob) list"
  cw_jobs :: "(nat \<times> Job) list"

definition crew_init :: "('g, 'k) cronJob \<Rightarrow> 'g Collector \<Rightarrow> fs \<Rightarrow> 'k \<Rightarrow> ('g, 'k) crew" where
  "crew_init j prm f k = \<lparr>cw_ctl = NewController (cj_cfg j) prm, cw_fs = f, cw_cluster = k, cw_running = False,
     cw_gos = [], cw_pods = Map.empty, cw_created = [], cw_jobs = []\<rparr>"

definition pc_at :: "start_pc list \<Rightarrow> nat \<Rightarrow> start_pc" where
  "pc_at gos i = (if i < length gos then gos ! i else GReturned)"

text \<open>The cron job that one of the goroutines would be without the others.\<close>

fun place :: "start_pc \<Rightarrow> cron_pc" where
  "place (GLoop eid addr ns) = CLoop eid addr ns"
| "place (GBlocked eid addr ns e jb) = CBlocked eid addr ns"
| "place _ = CIdle"

fun pending :: "start_pc \<Rightarrow> (nat \<times> Job) option" where
  "pending (GBlocked eid addr ns e jb) = Some (e, jb)"
| "pending _ = None"

definition view :: "start_pc \<Rightarrow> ('g, 'k) crew \<Rightarrow> ('g, 'k) cron_sys" where
  "view p x = \<lparr>cs_sys = \<lparr>s_ctl = cw_ctl x, s_fs = cw_fs x, s_created = cw_jobs x, s_pending = pending p\<rparr>,
     cs_cluster = cw_cluster x, cs_pc = place p, cs_running = (place p \<noteq> CIdle), cs_pods = cw_pods x, cs_created = cw_created x\<rparr>"

definition merge :: "('g, 'k) cron_sys \<Rightarrow> ('g, 'k) crew \<Rightarrow> ('g, 'k) crew" where
  "merge y x = x\<lparr>cw_ctl := s_ctl (cs_sys y), cw_fs := s_fs (cs_sys y), cw_cluster := cs_cluster y, cw_pods := cs_pods y,
     cw_created := cs_created y, cw_jobs := s_created (cs_sys y)\<rparr>"

section \<open>Steps\<close>

text \<open>
  \<open>Fire\<close> is a new goroutine; the steps of a goroutine have its number. \<open>Around\<close> is a step of the
  rest of the system: the end of a pod, a report, a turn of a worker, a change of files.
\<close>

datatype crew_label =
    Fire
  | Test nat
  | SetRunning nat
  | Prepare nat clock
  | Next nat
  | Unblock nat
  | Complete nat instant
  | Reset nat
  | Around cron_label

fun environment :: "cron_label \<Rightarrow> bool" where
  "environment (PodEnds t eid n ph) = True"
| "environment (Report t eid n b rs) = True"
| "environment (WorkerTurn t e w) = True"
| "environment (Files f) = True"
| "environment _ = False"

inductive crew_step :: "('g, 'k) cronJob \<Rightarrow> ('g, 'k) crew \<Rightarrow> crew_label \<Rightarrow> ('g, 'k) crew \<Rightarrow> bool"
  for j :: "('g, 'k) cronJob" where
  fire: "crew_step j x Fire (x\<lparr>cw_gos := cw_gos x @ [GTest]\<rparr>)"
| test_running: "pc_at (cw_gos x) i = GTest \<Longrightarrow> cw_running x \<Longrightarrow>
    crew_step j x (Test i) (x\<lparr>cw_gos := (cw_gos x)[i := GReturned]\<rparr>)"
| test_free: "pc_at (cw_gos x) i = GTest \<Longrightarrow> \<not> cw_running x \<Longrightarrow>
    crew_step j x (Test i) (x\<lparr>cw_gos := (cw_gos x)[i := GSet]\<rparr>)"
| set_running: "pc_at (cw_gos x) i = GSet \<Longrightarrow>
    crew_step j x (SetRunning i) (x\<lparr>cw_running := True, cw_gos := (cw_gos x)[i := GPrepare]\<rparr>)"
| prepare_abort: "pc_at (cw_gos x) i = GPrepare \<Longrightarrow>
    startPods_prepare j clk (cw_ctl x) (cw_fs x) (cw_cluster x) = Ret (c', f', k', Aborted) \<Longrightarrow>
    crew_step j x (Prepare i clk) (x\<lparr>cw_ctl := c', cw_fs := f', cw_cluster := k', cw_gos := (cw_gos x)[i := GReset]\<rparr>)"
| prepare: "pc_at (cw_gos x) i = GPrepare \<Longrightarrow>
    startPods_prepare j clk (cw_ctl x) (cw_fs x) (cw_cluster x) = Ret (c', f', k', Prepared eid addr ns) \<Longrightarrow>
    crew_step j x (Prepare i clk) (x\<lparr>cw_ctl := c', cw_fs := f', cw_cluster := k', cw_gos := (cw_gos x)[i := GLoop eid addr ns]\<rparr>)"
| next_abort: "pc_at (cw_gos x) i = GLoop eid addr (n # ns) \<Longrightarrow> startPods_job j eid addr n = Ret (Inl m) \<Longrightarrow>
    crew_step j x (Next i) (x\<lparr>cw_gos := (cw_gos x)[i := GReset]\<rparr>)"
| next_unknown: "pc_at (cw_gos x) i = GLoop eid addr (n # ns) \<Longrightarrow> startPods_job j eid addr n = Ret (Inr pj) \<Longrightarrow>
    AddPod (cw_ctl x) (pj_job pj) = AddErr m \<Longrightarrow>
    crew_step j x (Next i) (x\<lparr>cw_gos := (cw_gos x)[i := GLoop eid addr ns]\<rparr>)"
| next_added: "pc_at (cw_gos x) i = GLoop eid addr (n # ns) \<Longrightarrow> startPods_job j eid addr n = Ret (Inr pj) \<Longrightarrow>
    forID (cw_ctl x) eid = Inr e \<Longrightarrow> AddPod (cw_ctl x) (pj_job pj) = AddDone c' \<Longrightarrow>
    crew_step j x (Next i) (x\<lparr>cw_ctl := c', cw_pods := (cw_pods x)((e, nd_Name n) \<mapsto> pj),
      cw_gos := (cw_gos x)[i := GLoop eid addr ns]\<rparr>)"
| next_blocks: "pc_at (cw_gos x) i = GLoop eid addr (n # ns) \<Longrightarrow> startPods_job j eid addr n = Ret (Inr pj) \<Longrightarrow>
    AddPod (cw_ctl x) (pj_job pj) = AddBlocked e c' \<Longrightarrow>
    crew_step j x (Next i) (x\<lparr>cw_ctl := c', cw_pods := (cw_pods x)((e, nd_Name n) \<mapsto> pj),
      cw_gos := (cw_gos x)[i := GBlocked eid addr ns e (pj_job pj)]\<rparr>)"
| unblock: "pc_at (cw_gos x) i = GBlocked eid addr ns e jb \<Longrightarrow> chan_send e jb (cw_ctl x) = AddDone c' \<Longrightarrow>
    crew_step j x (Unblock i) (x\<lparr>cw_ctl := c', cw_gos := (cw_gos x)[i := GLoop eid addr ns]\<rparr>)"
| finish: "pc_at (cw_gos x) i = GLoop eid addr [] \<Longrightarrow>
    AllAdded (cj_gauge j) (cj_sort j) t (cw_ctl x) (cw_fs x) eid = Ret (c', f', r) \<Longrightarrow>
    crew_step j x (Complete i t) (x\<lparr>cw_ctl := c', cw_fs := f', cw_gos := (cw_gos x)[i := GReset]\<rparr>)"
| reset: "pc_at (cw_gos x) i = GReset \<Longrightarrow>
    crew_step j x (Reset i) (x\<lparr>cw_running := False, cw_gos := (cw_gos x)[i := GReturned]\<rparr>)"
| around: "environment l \<Longrightarrow> cstep j (view GReturned x) l y \<Longrightarrow> crew_step j x (Around l) (merge y x)"

text \<open>The steps that the code's authors had in mind: nobody tests while another is about to set.\<close>

definition calm_step :: "('g, 'k) cronJob \<Rightarrow> ('g, 'k) crew \<Rightarrow> crew_label \<Rightarrow> ('g, 'k) crew \<Rightarrow> bool" where
  "calm_step j x l x' \<longleftrightarrow> crew_step j x l x' \<and> (\<forall>i. l = Test i \<longrightarrow> GSet \<notin> set (cw_gos x))"

section \<open>Calm runs are runs of the cron job\<close>

fun at_work :: "start_pc \<Rightarrow> bool" where
  "at_work GTest = False"
| "at_work GReturned = False"
| "at_work _ = True"

text \<open>The goroutines whose run the flag stands for: those that have set it.\<close>

definition flagged :: "start_pc \<Rightarrow> bool" where
  "flagged p \<longleftrightarrow> at_work p \<and> p \<noteq> GSet"

definition alone :: "start_pc list \<Rightarrow> nat \<Rightarrow> bool" where
  "alone gos i \<longleftrightarrow> (\<forall>k < length gos. k \<noteq> i \<longrightarrow> \<not> at_work (gos ! k))"

definition busy :: "start_pc list \<Rightarrow> start_pc" where
  "busy gos = (case filter at_work gos of [] \<Rightarrow> GReturned | p # _ \<Rightarrow> p)"

definition calm_ok :: "('g, 'k) crew \<Rightarrow> bool" where
  "calm_ok x \<longleftrightarrow> (\<exists>i. alone (cw_gos x) i \<and> cw_running x = flagged (pc_at (cw_gos x) i))"

lemma alone_filter:
  assumes "alone gos i"
  shows "filter at_work gos = (if at_work (pc_at gos i) then [pc_at gos i] else [])"
proof (cases "at_work (pc_at gos i)")
  case True
  then have i: "i < length gos" by (auto simp: pc_at_def split: if_splits)
  have "filter at_work (take i gos) = []" "filter at_work (drop (Suc i) gos) = []"
    using assms by (auto simp: alone_def filter_empty_conv in_set_conv_nth)
  moreover have "gos = take i gos @ gos ! i # drop (Suc i) gos" by (rule id_take_nth_drop [OF i])
  ultimately show ?thesis using True i
    by (metis append_Nil filter.simps(1,2) filter_append pc_at_def)
next
  case False
  have "\<not> at_work (gos ! k)" if "k < length gos" for k
    using assms False that by (cases "k = i") (auto simp: alone_def pc_at_def)
  then show ?thesis using False by (auto simp: filter_empty_conv in_set_conv_nth)
qed

lemma view_passive: "\<not> at_work p \<Longrightarrow> view p x = view GReturned x"
  by (cases p) (simp_all add: view_def)

lemma view_busy:
  assumes "alone (cw_gos x) i"
  shows "view (busy (cw_gos x)) x = view (pc_at (cw_gos x) i) x"
  using view_passive [of "pc_at (cw_gos x) i" x] by (simp add: busy_def alone_filter [OF assms])

text \<open>A goroutine that is at work alone moves on.\<close>

lemma pc_at_update: "at_work (pc_at gos i) \<or> pc_at gos i = GTest \<Longrightarrow> pc_at (gos[i := p]) k = (if k = i then p else pc_at gos k)"
  by (auto simp: pc_at_def split: if_splits)

lemma alone_update: "alone gos a \<Longrightarrow> i = a \<or> \<not> at_work p \<Longrightarrow> alone (gos[i := p]) a"
  by (cases "i < length gos") (auto simp: alone_def nth_list_update)

lemma alone_unique: "alone gos i \<Longrightarrow> at_work (pc_at gos k) \<Longrightarrow> k = i"
  by (auto simp: alone_def pc_at_def split: if_splits)

lemma alone_passive: "alone gos i \<Longrightarrow> \<not> at_work (pc_at gos i) \<Longrightarrow> alone gos k"
  by (auto simp: alone_def pc_at_def split: if_splits)

lemma around_view:
  assumes "environment l" and "cstep j (view GReturned x) l y"
  shows "cstep j (view p x) l (view p (merge y x))"
  using assms(2,1)
proof (cases rule: cstep.cases)
  case (pod_ends t eid n ph c' r)
  then show ?thesis using cstep.pod_ends [of j t "view p x" eid n ph c' r] by (simp add: view_def merge_def)
next
  case (report t eid n b rs c')
  then show ?thesis using cstep.report [of j t "view p x" eid n b rs c'] by (simp add: view_def merge_def)
next
  case (worker e w t c' jo)
  then show ?thesis using cstep.worker [of e "view p x" w t c' jo j]
    by (auto simp: view_def merge_def create_job_def split: option.splits)
next
  case (files f')
  then show ?thesis using cstep.files [of j "view p x" f'] by (simp add: view_def merge_def)
qed (use assms(1) in auto)

text \<open>The steps of the cron job that a step shows as.\<close>

fun shown :: "crew_label \<Rightarrow> cron_label list" where
  "shown (Prepare i clk) = [Tick clk]"
| "shown (Next i) = [NextJob]"
| "shown (Unblock i) = [Unblocked]"
| "shown (Complete i t) = [Finish t]"
| "shown (Around l) = [l]"
| "shown _ = []"

text \<open>A step that moves goroutine \<open>i\<close>, from a place at work, and shows as \<open>ls\<close>.\<close>

lemma moves:
  assumes "alone (cw_gos x) a" and "at_work (pc_at (cw_gos x) i)" and "cw_gos x' = (cw_gos x)[i := p]"
    and "cw_running x' = flagged p" and "trace (cstep j) (view (pc_at (cw_gos x) i) x) ls (view p x')"
  shows "calm_ok x' \<and> trace (cstep j) (view (busy (cw_gos x)) x) ls (view (busy (cw_gos x')) x')"
proof -
  have i: "i = a" by (rule alone_unique [OF assms(1,2)])
  have p: "pc_at (cw_gos x') a = p" using assms(2,3) by (auto simp: i pc_at_update)
  have a: "alone (cw_gos x') a" using assms(1,3) by (simp add: i alone_update)
  show ?thesis
    using a p assms(4,5) view_busy [OF a] view_busy [OF assms(1)] unfolding calm_ok_def i by auto
qed

text \<open>A step that does not show.\<close>

lemma rests:
  assumes "alone (cw_gos x) a" and "alone (cw_gos x') a'" and "cw_running x' = flagged (pc_at (cw_gos x') a')"
    and "view (pc_at (cw_gos x') a') x' = view (pc_at (cw_gos x) a) x"
  shows "calm_ok x' \<and> trace (cstep j) (view (busy (cw_gos x)) x) [] (view (busy (cw_gos x')) x')"
  using assms(2,3,4) unfolding calm_ok_def view_busy [OF assms(1)] view_busy [OF assms(2)] by (auto simp: trace.trace_Nil)

lemma calm_step_simulates:
  assumes "calm_ok x" and "calm_step j x l x'"
  shows "calm_ok x' \<and> trace (cstep j) (view (busy (cw_gos x)) x) (shown l) (view (busy (cw_gos x')) x')"
proof -
  obtain a where a: "alone (cw_gos x) a" "cw_running x = flagged (pc_at (cw_gos x) a)" using assms(1) by (auto simp: calm_ok_def)
  have fl: "cw_running x" if "flagged (pc_at (cw_gos x) i)" for i
    using a alone_unique [OF a(1), of i] that by (auto simp: flagged_def)
  have c: "crew_step j x l x'" "\<And>i. l = Test i \<Longrightarrow> GSet \<notin> set (cw_gos x)" using assms(2) by (auto simp: calm_step_def)
  note [simp] = flagged_def view_def
  from c(1) show ?thesis
  proof (cases rule: crew_step.cases)
    case fire
    have "alone (cw_gos x @ [GTest]) a" using a(1) by (auto simp: alone_def nth_append)
    moreover have "pc_at (cw_gos x @ [GTest]) a = pc_at (cw_gos x) a
        \<or> pc_at (cw_gos x @ [GTest]) a = GTest \<and> pc_at (cw_gos x) a = GReturned"
      by (auto simp: pc_at_def nth_append)
    ultimately show ?thesis unfolding fire shown.simps using a(2) by (intro rests [OF a(1), of _ a]) auto
  next
    case (test_running i)
    then have "pc_at ((cw_gos x)[i := GReturned]) a = (if a = i then GReturned else pc_at (cw_gos x) a)"
      by (simp add: pc_at_update)
    then show ?thesis unfolding test_running(1,2) shown.simps
      using a test_running by (intro rests [OF a(1), of _ a]) (auto simp: alone_update)
  next
    case (test_free i)
    have "pc_at (cw_gos x) a \<noteq> GSet" using c(2) [OF test_free(1)] by (auto simp: pc_at_def in_set_conv_nth)
    then have na: "\<not> at_work (pc_at (cw_gos x) a)" using test_free a(2) by auto
    then have "alone (cw_gos x) i" by (rule alone_passive [OF a(1)])
    moreover have "view GSet x' = view (pc_at (cw_gos x) a) x"
      unfolding view_passive [OF na] using test_free by simp
    ultimately show ?thesis unfolding test_free(1) shown.simps
      using test_free by (intro rests [OF a(1), of _ i]) (simp_all add: alone_update pc_at_update)
  next
    case (set_running i)
    show ?thesis
      by (rule moves [OF a(1), of i _ GPrepare]) (use set_running in \<open>simp_all add: trace.trace_Nil\<close>)
  next
    case (prepare_abort i clk c' f' k')
    have "cstep j (view GPrepare x) (Tick clk) (view GReset x')"
      using cstep.tick_abort [of "view GPrepare x" j clk c' f' k'] prepare_abort by simp
    then show ?thesis
      using prepare_abort fl [of i] by (intro moves [OF a(1), of i _ GReset]) (simp_all add: trace_single)
  next
    case (prepare i clk c' f' k' eid addr ns)
    have "cstep j (view GPrepare x) (Tick clk) (view (GLoop eid addr ns) x')"
      using cstep.tick [of "view GPrepare x" j clk c' f' k' eid addr ns] prepare by simp
    then show ?thesis
      using prepare fl [of i] by (intro moves [OF a(1), of i _ "GLoop eid addr ns"]) (simp_all add: trace_single)
  next
    case (next_abort i eid addr n ns m)
    have "cstep j (view (GLoop eid addr (n # ns)) x) NextJob (view GReset x')"
      using cstep.next_abort [of "view (GLoop eid addr (n # ns)) x" eid addr n ns j m] next_abort by simp
    then show ?thesis
      using next_abort fl [of i] by (intro moves [OF a(1), of i _ GReset]) (simp_all add: trace_single)
  next
    case (next_unknown i eid addr n ns pj m)
    have "cstep j (view (GLoop eid addr (n # ns)) x) NextJob (view (GLoop eid addr ns) x')"
      using cstep.next_unknown [of "view (GLoop eid addr (n # ns)) x" eid addr n ns j pj m] next_unknown by simp
    then show ?thesis
      using next_unknown fl [of i] by (intro moves [OF a(1), of i _ "GLoop eid addr ns"]) (simp_all add: trace_single)
  next
    case (next_added i eid addr n ns pj e c')
    have "cstep j (view (GLoop eid addr (n # ns)) x) NextJob (view (GLoop eid addr ns) x')"
      using cstep.next_added [of "view (GLoop eid addr (n # ns)) x" eid addr n ns j pj e c'] next_added by simp
    then show ?thesis
      using next_added fl [of i] by (intro moves [OF a(1), of i _ "GLoop eid addr ns"]) (simp_all add: trace_single)
  next
    case (next_blocks i eid addr n ns pj e c')
    have "cstep j (view (GLoop eid addr (n # ns)) x) NextJob (view (GBlocked eid addr ns e (pj_job pj)) x')"
      using cstep.next_blocks [of "view (GLoop eid addr (n # ns)) x" eid addr n ns j pj e c'] next_blocks by simp
    then show ?thesis
      using next_blocks fl [of i] by (intro moves [OF a(1), of i _ "GBlocked eid addr ns e (pj_job pj)"]) (simp_all add: trace_single)
  next
    case (unblock i eid addr ns e jb c')
    have "cstep j (view (GBlocked eid addr ns e jb) x) Unblocked (view (GLoop eid addr ns) x')"
      using cstep.unblocked [of "view (GBlocked eid addr ns e jb) x" eid addr ns e jb c' j] unblock by simp
    then show ?thesis
      using unblock fl [of i] by (intro moves [OF a(1), of i _ "GLoop eid addr ns"]) (simp_all add: trace_single)
  next
    case (finish i eid addr t c' f' r)
    have "cstep j (view (GLoop eid addr []) x) (Finish t) (view GReset x')"
      using cstep.finish [of "view (GLoop eid addr []) x" eid addr j t c' f' r] finish by simp
    then show ?thesis
      using finish fl [of i] by (intro moves [OF a(1), of i _ GReset]) (simp_all add: trace_single)
  next
    case (reset i)
    show ?thesis
      by (rule moves [OF a(1), of i _ GReturned]) (use reset in \<open>simp_all add: trace.trace_Nil\<close>)
  next
    case (around l' y)
    have g: "cw_gos x' = cw_gos x" "cw_running x' = cw_running x" using around by (simp_all add: merge_def)
    have "cstep j (view (busy (cw_gos x)) x) l' (view (busy (cw_gos x)) x')"
      using around_view [OF around(3,4)] around(2) by simp
    with a g show ?thesis unfolding around(1) shown.simps calm_ok_def by (auto simp: trace_single simp del: view_def)
  qed
qed

lemma calm_ok_init: "calm_ok (crew_init j prm f k)"
  by (auto simp: calm_ok_def crew_init_def alone_def pc_at_def flagged_def)

lemma view_init: "view (busy (cw_gos (crew_init j prm f k))) (crew_init j prm f k) = cron_init j prm f k"
  by (simp add: busy_def view_def crew_init_def cron_init_def init_def)

interpretation crew: refinement "calm_step j" calm_ok "cstep j" "\<lambda>x. view (busy (cw_gos x)) x" "\<lambda>l m. m \<in> set (shown l)"
  using calm_step_simulates by unfold_locales blast+

text \<open>
  C13. Without a race the cron job runs alone. In every run of goroutines in \<open>startPods\<close>, at any
  number of ticks, in which nobody tests \<open>running\<close> between the test and the setting of another, at
  most one goroutine is past its test, \<open>running\<close> is set exactly while one is past the setting, and
  controller, files, cluster and pods are in a state that the cron job of one goroutine reaches,
  whose test and setting is one step, so that everything shown of it holds here.
\<close>

theorem calm_refines_cron:
  assumes "trace (calm_step j) (crew_init j prm f k) ls x"
  shows "length (filter at_work (cw_gos x)) \<le> 1
    \<and> (cw_running x \<longleftrightarrow> (\<exists>p \<in> set (cw_gos x). flagged p))
    \<and> (\<exists>cls. crun j (cron_init j prm f k) cls (view (busy (cw_gos x)) x) \<and> (\<forall>m \<in> set cls. \<exists>l \<in> set ls. m \<in> set (shown l)))"
proof -
  have "calm_ok x" using crew.concrete.trace_inv [OF assms calm_ok_init] .
  then obtain a where a: "alone (cw_gos x) a" "cw_running x = flagged (pc_at (cw_gos x) a)" by (auto simp: calm_ok_def)
  have w: "filter at_work (cw_gos x) = (if at_work (pc_at (cw_gos x) a) then [pc_at (cw_gos x) a] else [])"
    by (rule alone_filter [OF a(1)])
  have "(\<exists>p \<in> set (cw_gos x). flagged p) \<longleftrightarrow> (\<exists>p \<in> set (filter at_work (cw_gos x)). flagged p)" by (auto simp: flagged_def)
  also have "\<dots> \<longleftrightarrow> flagged (pc_at (cw_gos x) a)" unfolding w by (auto simp: flagged_def)
  finally have "cw_running x \<longleftrightarrow> (\<exists>p \<in> set (cw_gos x). flagged p)" using a(2) by simp
  moreover have "length (filter at_work (cw_gos x)) \<le> 1" unfolding w by simp
  ultimately show ?thesis
    using crew.trace_refines [OF assms calm_ok_init] unfolding view_init crun_def by blast
qed

theorem calm_refines_cron_witness:
  "\<exists>x a. trace (calm_step (sample_cron sample_template)) (crew_init (sample_cron sample_template) (sample_collector sample_cfg) sample_fs [])
       [Fire, Fire, Test 0, SetRunning 0, Prepare 0 sample_clock, Test 1] x
     \<and> cw_gos x = [a, GReturned] \<and> length (filter at_work (cw_gos x)) \<le> 1 \<and> cw_running x"
proof -
  let ?j = "sample_cron sample_template" and ?f = "prepare_dirs False 5000000000 ''/var/www'' the_id sample_fs"
  obtain c1 where c1: "startPods_prepare ?j sample_clock (NewController (cj_cfg ?j) (sample_collector sample_cfg)) sample_fs []
      = Ret (c1, ?f, [], Prepared the_id ''1.1.1.1'' [sample_node ''n1'' True])" using sample_prepare [of sample_template] by auto
  let ?s = "\<lambda>gos r. (crew_init ?j (sample_collector sample_cfg) sample_fs [])\<lparr>cw_running := r, cw_gos := gos\<rparr>"
  let ?l = "GLoop the_id ''1.1.1.1'' [sample_node ''n1'' True]"
  let ?p = "\<lambda>gos. (?s gos True)\<lparr>cw_ctl := c1, cw_fs := ?f\<rparr>"
  note [simp] = crew_init_def pc_at_def calm_step_def
  have "calm_step ?j (crew_init ?j (sample_collector sample_cfg) sample_fs []) Fire (?s [GTest] False)"
    using crew_step.fire [of ?j "crew_init ?j (sample_collector sample_cfg) sample_fs []"] by simp
  moreover have "calm_step ?j (?s [GTest] False) Fire (?s [GTest, GTest] False)"
    using crew_step.fire [of ?j "?s [GTest] False"] by simp
  moreover have "calm_step ?j (?s [GTest, GTest] False) (Test 0) (?s [GSet, GTest] False)"
    using crew_step.test_free [of "?s [GTest, GTest] False" 0 ?j] by simp
  moreover have "calm_step ?j (?s [GSet, GTest] False) (SetRunning 0) (?s [GPrepare, GTest] True)"
    using crew_step.set_running [of "?s [GSet, GTest] False" 0 ?j] by simp
  moreover have "calm_step ?j (?s [GPrepare, GTest] True) (Prepare 0 sample_clock) (?p [?l, GTest])"
    using crew_step.prepare [of "?s [GPrepare, GTest] True" 0 ?j sample_clock c1 ?f "[]"] c1 by simp
  moreover have "calm_step ?j (?p [?l, GTest]) (Test 1) (?p [?l, GReturned])"
    using crew_step.test_running [of "?p [?l, GTest]" 1 ?j] by simp
  ultimately have r: "trace (calm_step ?j) (crew_init ?j (sample_collector sample_cfg) sample_fs [])
      [Fire, Fire, Test 0, SetRunning 0, Prepare 0 sample_clock, Test 1] (?p [?l, GReturned])"
    by (blast intro: trace_Cons trace_single)
  show ?thesis
    by (intro exI [of _ "?p [?l, GReturned]"] exI [of _ ?l] conjI r) (use calm_refines_cron [OF r] in simp_all)
qed

section \<open>The race\<close>

text \<open>The first steps of two goroutines that meet: both test before either sets the flag.\<close>

definition meeting :: "clock \<Rightarrow> clock \<Rightarrow> crew_label list" where
  "meeting clk clk' = [Fire, Fire, Test 0, Test 1, SetRunning 0, SetRunning 1, Prepare 0 clk, Prepare 1 clk']"

lemma meeting_run:
  assumes "startPods_prepare j clk (NewController (cj_cfg j) prm) f k = Ret (c1, f1, k1, Prepared eid addr ns)"
    and "startPods_prepare j clk' c1 f1 k1 = Ret (c2, f2, k2, Prepared eid' addr' ns')"
  shows "trace (crew_step j) (crew_init j prm f k) (meeting clk clk')
    ((crew_init j prm f k)\<lparr>cw_ctl := c2, cw_fs := f2, cw_cluster := k2, cw_running := True,
       cw_gos := [GLoop eid addr ns, GLoop eid' addr' ns']\<rparr>)"
proof -
  let ?s = "\<lambda>gos r. (crew_init j prm f k)\<lparr>cw_running := r, cw_gos := gos\<rparr>"
  let ?p = "(?s [GLoop eid addr ns, GPrepare] True)\<lparr>cw_ctl := c1, cw_fs := f1, cw_cluster := k1\<rparr>"
  note [simp] = crew_init_def pc_at_def
  have "crew_step j (crew_init j prm f k) Fire (?s [GTest] False)"
    using crew_step.fire [of j "crew_init j prm f k"] by simp
  moreover have "crew_step j (?s [GTest] False) Fire (?s [GTest, GTest] False)"
    using crew_step.fire [of j "?s [GTest] False"] by simp
  moreover have "crew_step j (?s [GTest, GTest] False) (Test 0) (?s [GSet, GTest] False)"
    using crew_step.test_free [of "?s [GTest, GTest] False" 0 j] by simp
  moreover have "crew_step j (?s [GSet, GTest] False) (Test 1) (?s [GSet, GSet] False)"
    using crew_step.test_free [of "?s [GSet, GTest] False" 1 j] by simp
  moreover have "crew_step j (?s [GSet, GSet] False) (SetRunning 0) (?s [GPrepare, GSet] True)"
    using crew_step.set_running [of "?s [GSet, GSet] False" 0 j] by simp
  moreover have "crew_step j (?s [GPrepare, GSet] True) (SetRunning 1) (?s [GPrepare, GPrepare] True)"
    using crew_step.set_running [of "?s [GPrepare, GSet] True" 1 j] by simp
  moreover have "crew_step j (?s [GPrepare, GPrepare] True) (Prepare 0 clk) ?p"
    using crew_step.prepare [of "?s [GPrepare, GPrepare] True" 0 j clk c1 f1 k1 eid addr ns] assms(1) by simp
  moreover have "crew_step j ?p (Prepare 1 clk') ((crew_init j prm f k)\<lparr>cw_ctl := c2, cw_fs := f2, cw_cluster := k2,
      cw_running := True, cw_gos := [GLoop eid addr ns, GLoop eid' addr' ns']\<rparr>)"
    using crew_step.prepare [of ?p 1 j clk' c2 f2 k2 eid' addr' ns'] assms(2) by simp
  ultimately show ?thesis unfolding meeting_def by (blast intro: trace_Cons trace_single)
qed

text \<open>
  C36. With the race two runs share an execution. If two goroutines meet at their tests in the same
  minute, both pass and prepare an execution with the same identifier: the second replaces the
  first, whose workers have been started and whose channel nobody can close any more, and both
  loops go on to add their jobs to the second.
\<close>

theorem overlap_race:
  assumes "startPods_prepare j clk (NewController (cj_cfg j) prm) f k = Ret (c1, f1, k1, Prepared eid addr ns)"
    and "startPods_prepare j clk' c1 f1 k1 = Ret (c2, f2, k2, Prepared eid' addr' ns')"
    and "wall clk' = wall clk"
  shows "\<exists>x. trace (crew_step j) (crew_init j prm f k) (meeting clk clk') x
    \<and> cw_gos x = [GLoop eid addr ns, GLoop eid addr' ns']
    \<and> forID (cw_ctl x) eid = Inr 1 \<and> (\<forall>i. forID (cw_ctl x) i \<noteq> Inr 0)
    \<and> ex_workers (heap_ex (cw_ctl x) ! 0) = replicate (nat (podPoolSize c1)) WIdle
    \<and> \<not> chan_closed (heap_ex (cw_ctl x) ! 0)"
proof -
  obtain n where n1: "NewExecution (cj_gauge j) False clk (NewController (cj_cfg j) prm) f n = Ret (eid, c1, f1)"
    using assms(1) by (rule prepare_cases) auto
  obtain m where n2: "NewExecution (cj_gauge j) False clk' c1 f1 m = Ret (eid', c2, f2)"
    using assms(2) by (rule prepare_cases) auto
  have e: "eid' = eid" using n1 n2 assms(3) by (auto elim!: NewExecution_cases)
  have c1: "executions c1 = [eid \<mapsto> 0]" "heap_ex c1 = [new_execution (podPoolSize c1) eid]"
    using n1 by (auto elim!: NewExecution_cases simp: NewController_def)
  have c2: "executions c2 = [eid \<mapsto> 1]" "heap_ex c2 = [new_execution (podPoolSize c1) eid, new_execution (podPoolSize c1) eid]"
    using n2 c1 e by (auto elim!: NewExecution_cases)
  show ?thesis
    by (rule exI, rule conjI, rule meeting_run [OF assms(1,2)]) (simp add: c2 e forID_Inr)
qed

theorem overlap_race_witness:
  "\<exists>x a b. trace (crew_step (sample_cron sample_template)) (crew_init (sample_cron sample_template) (sample_collector sample_cfg) sample_fs [])
       (meeting sample_clock sample_clock) x
     \<and> cw_gos x = [a, b] \<and> at_work a \<and> at_work b \<and> (\<forall>i. forID (cw_ctl x) i \<noteq> Inr 0)"
proof -
  let ?j = "sample_cron sample_template" and ?f = "prepare_dirs False 5000000000 ''/var/www'' the_id sample_fs"
  obtain c1 where c1: "startPods_prepare ?j sample_clock (NewController (cj_cfg ?j) (sample_collector sample_cfg)) sample_fs []
      = Ret (c1, ?f, [], Prepared the_id ''1.1.1.1'' [sample_node ''n1'' True])"
    and wf: "col_wf map_gauge_vec (prom c1)" using sample_prepare [of sample_template] by auto
  have "0 \<le> podPoolSize c1"
    using c1 by (rule prepare_cases) (auto elim!: NewExecution_cases)
  from NewExecution_returns [OF this gauge_laws_map_gauge_vec wf]
  obtain eid c2 s2 where n: "NewExecution map_gauge_vec False sample_clock c1 ?f 1 = Ret (eid, c2, s2)" by blast
  have u: "filter (\<lambda>n. isUsable n r) [sample_node ''n0'' False, sample_node ''n1'' True] = [sample_node ''n1'' True]" for r
    by (simp add: isUsable_def sample_node_def ConditionTrue_def)
  have c2: "startPods_prepare ?j sample_clock c1 ?f [] = Ret (c2, s2, [], Prepared eid ''1.1.1.1'' [sample_node ''n1'' True])"
    using n by (simp add: startPods_prepare_def Let_def u sample_client_def deleteAll_def callbackAddress_def del: filter.simps)
  show ?thesis using overlap_race [OF c1 c2 refl] by force
qed

text \<open>
  What may come of it: once the loop of one of them is done and the execution's channel is closed, the other
  panics at the end of its loop, if the execution is still known and the reports can be read.
\<close>

lemma AllAdded_twice:
  assumes "AllAdded gv sortf t c s eid = Ret (c', s', None)" and "heap_ok c"
    and "forID c' eid = Inr e" and "os_ReadDir s' (reportDir c') = Inr files"
  shows "\<not> returns (AllAdded gv sortf t' c' s' eid)"
proof
  assume "returns (AllAdded gv sortf t' c' s' eid)"
  then obtain c'' s'' r where a: "AllAdded gv sortf t' c' s' eid = Ret (c'', s'', r)" by (auto simp: returns_iff)
  from assms(1) have "chan_closed (heap_ex c' ! e)"
  proof (cases rule: AllAdded_cases)
    case (closed e' files' n c1)
    have "e = e'"
      using assms(3) prune_files_effect [OF closed(4)] closed(1)
      by (auto simp: closed(6) forID_Inr upd_ex_def split: if_splits)
    moreover have "e' < length (heap_ex c)" using closed(1) heap_ok_execution [OF assms(2)] by (auto simp: forID_Inr)
    ultimately show ?thesis using prune_files_effect [OF closed(4)] by (simp add: closed(6) upd_ex_def)
  qed auto
  with a show False
    by (cases rule: AllAdded_cases) (use assms(3,4) prune_files_effect in \<open>fastforce+\<close>)
qed

end
