(* ===== verification/Registry.thy ===== *)
theory Registry
  imports Pool_Invariant
begin

text \<open>
  What the interface \<open>Controller\<close> of \<open>pkg/lifecycle\<close> promises its callers, as a specification: a registry of
  executions and of the pods of each, on which every operation is one assignment. The controller,
  with its pointers, channels, workers and metrics, is a data refinement of it.
\<close>

section \<open>The specification\<close>

text \<open>
  What is known of a pod is whether it has terminated and whether it has reported; the
  executions are those that have been started and not been forgotten.
\<close>

record pod_state =
  ps_terminated :: bool
  ps_reported :: bool

record registry =
  rg_executions :: "string \<rightharpoonup> string \<rightharpoonup> pod_state"
  rg_nodes :: "string set"
  rg_config :: Config

text \<open>
  The methods of \<open>Controller\<close> with their arguments; and what goes on without a call: a turn of a worker, and
  the moment in which the send of a blocked \<open>AddPod\<close> goes through.
\<close>

datatype call =
    CNewExecution clock int
  | CAllAdded instant string
  | CAddPod Job
  | CPodTerminated instant string string string
  | CReportReceived instant string string bool Results
  | CConfig
  | CHas string string
  | CWorker instant nat nat
  | CSend nat Job

text \<open>Replies; \<open>RBlocked\<close> is that of \<open>AddPod\<close> while the channel is full.\<close>

datatype reply = RID string | RErr "err option" | RBlocked | RConfig Config | RBool bool | RNone

definition add_pod :: "string \<Rightarrow> string \<Rightarrow> registry \<Rightarrow> registry" where
  "add_pod eid n g = g\<lparr>rg_executions := (\<lambda>i. if i = eid
      then map_option (\<lambda>m. m(n \<mapsto> \<lparr>ps_terminated = False, ps_reported = False\<rparr>)) (rg_executions g i) else rg_executions g i),
     rg_nodes := insert n (rg_nodes g)\<rparr>"

definition on_pod :: "(pod_state \<Rightarrow> pod_state) \<Rightarrow> string \<Rightarrow> string \<Rightarrow> registry \<Rightarrow> registry" where
  "on_pod f eid n g = g\<lparr>rg_executions := (\<lambda>i. if i = eid
      then map_option (\<lambda>m. m(n := map_option f (m n))) (rg_executions g i) else rg_executions g i)\<rparr>"

definition forget :: "string set \<Rightarrow> registry \<Rightarrow> registry" where
  "forget old g = g\<lparr>rg_executions := rg_executions g |` (- old)\<rparr>"

text \<open>
  The error for an execution and a node. The specification leaves open which executions \<open>AllAdded\<close> forgets: the
  times of the files in the report directory decide that.
\<close>

definition unknown :: "string \<Rightarrow> string \<Rightarrow> registry \<Rightarrow> err option" where
  "unknown eid n g = (case rg_executions g eid of
      None \<Rightarrow> Some (ExecutionIDNotFound (NoExecution eid))
    | Some m \<Rightarrow> if m n = None then Some (ExecutionIDNotFound (NoPod n)) else None)"

fun spec_step :: "registry \<Rightarrow> call \<times> reply \<Rightarrow> registry \<Rightarrow> bool" where
  "spec_step g (CNewExecution clk jobs, r) g' \<longleftrightarrow>
     r = RID (time_Format_id (wall clk)) \<and> g' = g\<lparr>rg_executions := (rg_executions g)(time_Format_id (wall clk) \<mapsto> Map.empty)\<rparr>"
| "spec_step g (CAllAdded t eid, r) g' \<longleftrightarrow>
     (if rg_executions g eid = None then r = RErr (Some (ExecutionIDNotFound (NoExecution eid))) \<and> g' = g
      else (\<exists>e. r = RErr (Some (OsErr e))) \<and> g' = g \<or> r = RErr None \<and> (\<exists>old. g' = forget old g))"
| "spec_step g (CAddPod j, r) g' \<longleftrightarrow>
     (if rg_executions g (job_ID j) = None then r = RErr (Some (ExecutionIDNotFound (NoExecution (job_ID j)))) \<and> g' = g
      else (r = RErr None \<or> r = RBlocked) \<and> g' = add_pod (job_ID j) (job_Node j) g)"
| "spec_step g (CPodTerminated t eid n ph, r) g' \<longleftrightarrow>
     r = RErr (unknown eid n g) \<and> g' = on_pod (ps_terminated_update (\<lambda>_. True)) eid n g"
| "spec_step g (CReportReceived t eid n b rs, r) g' \<longleftrightarrow>
     r = RNone \<and> g' = on_pod (ps_reported_update (\<lambda>_. True)) eid n g"
| "spec_step g (CConfig, r) g' \<longleftrightarrow> r = RConfig (rg_config g) \<and> g' = g"
| "spec_step g (CHas n eid, r) g' \<longleftrightarrow> r = RBool (n \<in> rg_nodes g \<and> rg_executions g eid \<noteq> None) \<and> g' = g"
| "spec_step g (CWorker t e w, r) g' \<longleftrightarrow> r = RNone \<and> g' = g"
| "spec_step g (CSend e j, r) g' \<longleftrightarrow> r \<in> {RErr None, RBlocked} \<and> g' = g"

section \<open>The calls on the controller\<close>

fun exec_call ::
  "'g gauge_vec \<Rightarrow> (dir_entry list \<Rightarrow> dir_entry list) \<Rightarrow> call \<Rightarrow> 'g controller \<times> fs \<Rightarrow> (('g controller \<times> fs) \<times> reply) go" where
  "exec_call gv sortf (CNewExecution clk jobs) (c, s) =
     go_bind (NewExecution gv False clk c s jobs) (\<lambda>(eid, c', s'). Ret ((c', s'), RID eid))"
| "exec_call gv sortf (CAllAdded t eid) (c, s) =
     go_bind (AllAdded gv sortf t c s eid) (\<lambda>(c', s', r). Ret ((c', s'), RErr r))"
| "exec_call gv sortf (CAddPod j) (c, s) =
     (case AddPod c j of
        AddErr e \<Rightarrow> Ret ((c, s), RErr (Some e))
      | AddDone c' \<Rightarrow> Ret ((c', s), RErr None)
      | AddBlocked e c' \<Rightarrow> Ret ((c', s), RBlocked)
      | AddPanic m \<Rightarrow> Panic m)"
| "exec_call gv sortf (CPodTerminated t eid n ph) (c, s) =
     go_bind (PodTerminated gv t c eid n ph) (\<lambda>(c', r). Ret ((c', s), RErr r))"
| "exec_call gv sortf (CReportReceived t eid n b rs) (c, s) =
     go_bind (ReportReceived gv t c eid n b rs) (\<lambda>c'. Ret ((c', s), RNone))"
| "exec_call gv sortf CConfig (c, s) = Ret ((c, s), RConfig (controller_Config c))"
| "exec_call gv sortf (CHas n eid) (c, s) = Ret ((c, s), RBool (Has c n eid))"
| "exec_call gv sortf (CWorker t e w) (c, s) =
     Ret ((if e < length (heap_ex c) \<and> w < length (ex_workers (heap_ex c ! e))
           then (case worker_turn t e w c of None \<Rightarrow> c | Some (c', jo) \<Rightarrow> c') else c, s), RNone)"
| "exec_call gv sortf (CSend e j) (c, s) =
     (case chan_send e j c of
        AddErr x \<Rightarrow> Ret ((c, s), RErr (Some x))
      | AddDone c' \<Rightarrow> Ret ((c', s), RErr None)
      | AddBlocked e' c' \<Rightarrow> Ret ((c', s), RBlocked)
      | AddPanic m \<Rightarrow> Panic m)"

definition call_step ::
  "'g gauge_vec \<Rightarrow> (dir_entry list \<Rightarrow> dir_entry list) \<Rightarrow> 'g controller \<times> fs \<Rightarrow> call \<times> reply \<Rightarrow> 'g controller \<times> fs \<Rightarrow> bool" where
  "call_step gv sortf x l x' \<longleftrightarrow> exec_call gv sortf (fst l) x = Ret (x', snd l)"

text \<open>The registry in a controller.\<close>

definition pod_view :: "pod \<Rightarrow> pod_state" where
  "pod_view p = \<lparr>ps_terminated = (terminated p \<noteq> None), ps_reported = (reportReceived p \<noteq> None)\<rparr>"

definition pods_view :: "'g controller \<Rightarrow> nat \<Rightarrow> string \<rightharpoonup> pod_state" where
  "pods_view c e n = map_option (\<lambda>p. pod_view (heap_pod c ! p)) (ex_pods (heap_ex c ! e) n)"

definition registry_of :: "'g controller \<Rightarrow> registry" where
  "registry_of c = \<lparr>rg_executions = (\<lambda>eid. map_option (pods_view c) (executions c eid)),
     rg_nodes = dom (nodes c), rg_config = ctl_config c\<rparr>"

lemma registry_of_simps [simp]:
  "rg_executions (registry_of c) eid = map_option (pods_view c) (executions c eid)"
  "rg_nodes (registry_of c) = dom (nodes c)" "rg_config (registry_of c) = ctl_config c"
  by (simp_all add: registry_of_def)

lemma registry_eqI:
  "(\<And>i. rg_executions g i = rg_executions g' i) \<Longrightarrow> rg_nodes g = rg_nodes g' \<Longrightarrow> rg_config g = rg_config g' \<Longrightarrow> g = (g' :: registry)"
  by (cases g; cases g') auto

section \<open>Every call is one on the registry\<close>

lemma unknown_registry: "unknown eid n (registry_of c) = (case podForID c eid n of Inl x \<Rightarrow> Some x | Inr p \<Rightarrow> None)"
  by (auto simp: unknown_def pods_view_def podForID_def forID_def ex_pod_def split: option.splits)

lemma on_pod_unknown: "podForID c eid n = Inl x \<Longrightarrow> on_pod f eid n (registry_of c) = registry_of c"
  by (rule registry_eqI)
    (auto simp: on_pod_def podForID_def forID_def ex_pod_def pods_view_def fun_eq_iff split: option.splits)

text \<open>A change that keeps executions and pods keeps the registry.\<close>

lemma registry_of_cong:
  assumes "heap_ok c" and "executions c' = executions c" and "nodes c' = nodes c" and "ctl_config c' = ctl_config c"
    and "\<And>e. e < length (heap_ex c) \<Longrightarrow> ex_pods (heap_ex c' ! e) = ex_pods (heap_ex c ! e)"
    and "\<And>p. p < length (heap_pod c) \<Longrightarrow> pod_view (heap_pod c' ! p) = pod_view (heap_pod c ! p)"
  shows "registry_of c' = registry_of c"
proof -
  have "pods_view c' e = pods_view c e" if "executions c i = Some e" for i e
  proof
    fix n
    have e: "e < length (heap_ex c)" using heap_ok_execution [OF assms(1) that] by simp
    then show "pods_view c' e n = pods_view c e n"
      using assms(5) [OF e] assms(6) heap_ok_pod [OF assms(1) e]
      by (cases "ex_pods (heap_ex c ! e) n") (simp_all add: pods_view_def)
  qed
  then have "map_option (pods_view c') (executions c i) = map_option (pods_view c) (executions c i)" for i
    by (cases "executions c i") simp_all
  then show ?thesis using assms(2-4) by (intro registry_eqI) simp_all
qed

text \<open>Writing one pod changes its entry and no other: an address belongs to one execution and node.\<close>

lemma registry_of_pod:
  assumes "heap_ok c" and "podForID c eid n = Inr pa"
    and "executions c' = executions c" and "heap_ex c' = heap_ex c" and "nodes c' = nodes c" and "ctl_config c' = ctl_config c"
    and "heap_pod c' = (heap_pod c)[pa := q]" and "pod_view q = f (pod_view (heap_pod c ! pa))"
  shows "registry_of c' = on_pod f eid n (registry_of c)"
proof -
  obtain e where e: "executions c eid = Some e" "ex_pods (heap_ex c ! e) n = Some pa" using assms(2) by (auto simp: podForID_Inr)
  have el: "e < length (heap_ex c)" "ex_id (heap_ex c ! e) = eid" using heap_ok_execution [OF assms(1) e(1)] by simp_all
  have pl: "pa < length (heap_pod c)" using heap_ok_pod [OF assms(1) el(1) e(2)] by simp
  have v: "pods_view c' e1 n1 = (if e1 = e \<and> n1 = n then map_option f (pods_view c e1 n1) else pods_view c e1 n1)"
    if "e1 < length (heap_ex c)" for e1 n1
    using heap_ok_unique [OF assms(1) that el(1), of n1 pa n] heap_ok_pod [OF assms(1) that, of n1] e(2) pl assms(4,7,8)
    by (cases "ex_pods (heap_ex c ! e1) n1") (auto simp: pods_view_def nth_upd)
  show ?thesis
  proof (rule registry_eqI)
    fix i
    show "rg_executions (registry_of c') i = rg_executions (on_pod f eid n (registry_of c)) i"
    proof (cases "executions c i")
      case (Some e1)
      have e1: "e1 < length (heap_ex c)" "ex_id (heap_ex c ! e1) = i" using heap_ok_execution [OF assms(1) Some] by simp_all
      have "pods_view c' e1 = (if i = eid then (pods_view c e1)(n := map_option f (pods_view c e1 n)) else pods_view c e1)"
        using v [OF e1(1)] e1 el e(1) Some by (auto simp: fun_eq_iff)
      then show ?thesis using Some assms(3) by (auto simp: on_pod_def)
    qed (use assms(3) in \<open>auto simp: on_pod_def\<close>)
  qed (use assms(5,6) in \<open>simp_all add: on_pod_def\<close>)
qed

lemma registry_NewExecution:
  assumes "heap_ok c" and "NewExecution gv w clk c s jobs = Ret (eid, c', s')"
  shows "spec_step (registry_of c) (CNewExecution clk jobs, RID eid) (registry_of c')"
proof -
  from assms(2) obtain pr where c': "eid = time_Format_id (wall clk)"
    "c' = c\<lparr>executions := (executions c)(eid \<mapsto> length (heap_ex c)), heap_ex := heap_ex c @ [new_execution (podPoolSize c) eid],
       progressStep := f_div (Fin 100) (f_mul (f_of_int jobs) (Fin 3)), progress := 0, prom := pr\<rparr>"
    by (rule NewExecution_cases)
  have v: "pods_view c' (length (heap_ex c)) = Map.empty" by (simp add: c' pods_view_def fun_eq_iff)
  have old: "pods_view c' e = pods_view c e" if "e < length (heap_ex c)" for e
    using that by (simp add: c' pods_view_def fun_eq_iff nth_append)
  have "rg_executions (registry_of c') i = ((rg_executions (registry_of c))(eid \<mapsto> Map.empty)) i" for i
    using v old heap_ok_execution [OF assms(1)] by (cases "executions c i") (auto simp: c')
  then have "registry_of c' = (registry_of c)\<lparr>rg_executions := (rg_executions (registry_of c))(eid \<mapsto> Map.empty)\<rparr>"
    by (intro registry_eqI) (simp_all add: c')
  then show ?thesis by (simp add: c'(1))
qed

lemma registry_register:
  assumes "heap_ok c" and "executions c (job_ID j) = Some e"
  shows "registry_of (register_pod e j c) = add_pod (job_ID j) (job_Node j) (registry_of c)"
    and "heap_ok (register_pod e j c)"
proof -
  have el: "e < length (heap_ex c)" "ex_id (heap_ex c ! e) = job_ID j" using heap_ok_execution [OF assms] by simp_all
  have v: "pods_view (register_pod e j c) e1 =
      (if e1 = e then (pods_view c e)(job_Node j \<mapsto> \<lparr>ps_terminated = False, ps_reported = False\<rparr>) else pods_view c e1)"
    if "e1 < length (heap_ex c)" for e1
  proof
    fix n
    show "pods_view (register_pod e j c) e1 n = (if e1 = e then (pods_view c e)(job_Node j \<mapsto> \<lparr>ps_terminated = False, ps_reported = False\<rparr>)
        else pods_view c e1) n"
      using that el heap_ok_pod [OF assms(1) that, of n]
      by (cases "ex_pods (heap_ex c ! e1) n") (auto simp: pods_view_def register_pod_def upd_ex_def pod_view_def nth_append nth_upd)
  qed
  show "registry_of (register_pod e j c) = add_pod (job_ID j) (job_Node j) (registry_of c)"
  proof (rule registry_eqI)
    fix i
    show "rg_executions (registry_of (register_pod e j c)) i = rg_executions (add_pod (job_ID j) (job_Node j) (registry_of c)) i"
    proof (cases "executions c i")
      case (Some e1)
      have e1: "e1 < length (heap_ex c)" "ex_id (heap_ex c ! e1) = i" using heap_ok_execution [OF assms(1) Some] by simp_all
      then have "e1 = e \<longleftrightarrow> i = job_ID j" using el assms(2) Some by auto
      with v [OF e1(1)] Some show ?thesis by (auto simp: add_pod_def register_pod_def)
    qed (auto simp: add_pod_def register_pod_def)
  qed (auto simp: add_pod_def register_pod_def)
  show "heap_ok (register_pod e j c)"
    by (rule heap_ok_add [OF assms(1) el(1), where n = "job_Node j" and b = "chan_buf (heap_ex c ! e)"])
      (simp_all add: register_pod_def upd_ex_def new_pod_def)
qed

text \<open>The channel and the workers are not part of the registry.\<close>

lemma registry_send:
  assumes "heap_ok c" and "chan_send e j c = AddDone c'"
  shows "registry_of c' = registry_of c" and "heap_ok c'"
proof -
  have c': "c' = upd_ex e (\<lambda>x. x\<lparr>chan_buf := chan_buf x @ [j]\<rparr>) c"
    using assms(2) by (auto simp: chan_send_def Let_def split: if_splits)
  have x: "ex_pods (heap_ex c' ! i) = ex_pods (heap_ex c ! i)" "ex_id (heap_ex c' ! i) = ex_id (heap_ex c ! i)"
    if "i < length (heap_ex c)" for i
    using that by (auto simp: c' upd_ex_def nth_upd)
  show "registry_of c' = registry_of c" by (rule registry_of_cong [OF assms(1)]) (use x in \<open>simp_all add: c'\<close>)
  show "heap_ok c'" by (rule heap_ok_cong [OF assms(1)]) (use x in \<open>simp_all add: c'\<close>)
qed

lemma registry_turn:
  assumes "heap_ok c" and "worker_turn t e w c = Some (c', jo)" and "e < length (heap_ex c)"
  shows "registry_of c' = registry_of c" and "heap_ok c'"
proof -
  have f: "executions c' = executions c" "nodes c' = nodes c" "ctl_config c' = ctl_config c"
      "length (heap_ex c') = length (heap_ex c)" "length (heap_pod c') = length (heap_pod c)"
    using assms(2) by (auto simp: worker_turn_def set_worker_def split: worker.splits list.splits if_splits sum.splits)
  have x: "ex_pods (heap_ex c' ! i) = ex_pods (heap_ex c ! i) \<and> ex_id (heap_ex c' ! i) = ex_id (heap_ex c ! i)"
    if "i < length (heap_ex c)" for i
    using assms(2) that
    by (auto simp: worker_turn_def set_worker_def upd_ex_def nth_upd addProgress_def upd_pod_def
        split: worker.splits list.splits if_splits sum.splits)
  have p: "pod_view (heap_pod c' ! q) = pod_view (heap_pod c ! q) \<and> pod_node (heap_pod c' ! q) = pod_node (heap_pod c ! q)"
    if "q < length (heap_pod c)" for q
    using assms(2) that
    by (auto simp: worker_turn_def set_worker_def upd_ex_def nth_upd addProgress_def upd_pod_def pod_view_def
        split: worker.splits list.splits if_splits sum.splits)
  show "registry_of c' = registry_of c" by (rule registry_of_cong [OF assms(1)]) (use f x p in simp_all)
  show "heap_ok c'" by (rule heap_ok_cong [OF assms(1)]) (use f x p in simp_all)
qed

lemma registry_AllAdded:
  assumes "heap_ok c" and "AllAdded gv sortf t c s eid = Ret (c', s', r)"
  shows "spec_step (registry_of c) (CAllAdded t eid, RErr r) (registry_of c')" and "heap_ok c'"
proof -
  have "spec_step (registry_of c) (CAllAdded t eid, RErr r) (registry_of c') \<and> heap_ok c'"
    using assms(2)
  proof (cases rule: AllAdded_cases)
    case unknown
    then show ?thesis using assms(1) by (auto simp: forID_def split: option.splits)
  next
    case (unreadable x e)
    then show ?thesis using assms(1) by (auto simp: forID_Inr)
  next
    case (closed e files n c1)
    note p = prune_files_effect [OF closed(4)]
    let ?old = "de_name ` set (take n (sortf files))"
    have x: "ex_pods (heap_ex c' ! i) = ex_pods (heap_ex c ! i)" "ex_id (heap_ex c' ! i) = ex_id (heap_ex c ! i)"
      if "i < length (heap_ex c)" for i
      using that p by (auto simp: closed(6) upd_ex_def nth_upd)
    have same: "registry_of (c'\<lparr>executions := executions c\<rparr>) = registry_of c"
      by (rule registry_of_cong [OF assms(1)]) (use x p in \<open>simp_all add: closed(6)\<close>)
    have "pods_view (c'\<lparr>executions := executions c\<rparr>) = pods_view c'" by (simp add: pods_view_def fun_eq_iff)
    then have "registry_of c' = forget ?old (registry_of (c'\<lparr>executions := executions c\<rparr>))"
      by (intro registry_eqI) (use p in \<open>auto simp: closed(6) forget_def restrict_map_def\<close>)
    then have "registry_of c' = forget ?old (registry_of c)" unfolding same .
    moreover have "heap_ok c'"
      by (rule heap_ok_cong [OF assms(1)]) (use x p in \<open>auto simp: closed(6) map_le_def split: if_splits\<close>)
    ultimately show ?thesis using closed(1,7) by (auto simp: forID_Inr)
  qed
  then show "spec_step (registry_of c) (CAllAdded t eid, RErr r) (registry_of c')" and "heap_ok c'" by blast+
qed

section \<open>The refinement\<close>

definition calls_ok :: "'g controller \<times> fs \<Rightarrow> bool" where
  "calls_ok x \<longleftrightarrow> heap_ok (fst x)"

lemma registry_AddPod:
  assumes "heap_ok c" and "exec_call gv sortf (CAddPod j) (c, s) = Ret ((c', s'), r)"
  shows "spec_step (registry_of c) (CAddPod j, r) (registry_of c') \<and> heap_ok c'"
proof (cases "executions c (job_ID j)")
  case None
  then show ?thesis using assms by (auto simp: AddPod_def forID_def)
next
  case (Some e)
  note g = registry_register [OF assms(1) Some]
  have a: "AddPod c j = chan_send e j (register_pod e j c)" using Some by (simp add: AddPod_def forID_def)
  have "registry_of c' = registry_of (register_pod e j c) \<and> heap_ok c' \<and> (r = RErr None \<or> r = RBlocked)"
  proof (cases "chan_send e j (register_pod e j c)")
    case (AddDone c1)
    with registry_send [OF g(2)] assms(2) a show ?thesis by auto
  next
    case (AddBlocked e1 c1)
    then have "c1 = register_pod e j c" by (auto simp: chan_send_def Let_def split: if_splits)
    with AddBlocked assms(2) a g(2) show ?thesis by auto
  qed (use assms(2) a in \<open>auto simp: chan_send_def Let_def split: if_splits\<close>)
  with g Some show ?thesis by auto
qed

lemma registry_PodTerminated:
  assumes "heap_ok c" and "PodTerminated gv t c eid n ph = Ret (c', x)"
  shows "spec_step (registry_of c) (CPodTerminated t eid n ph, RErr x) (registry_of c')"
  using assms(2)
proof (cases rule: PodTerminated_cases)
  case (unknown nf)
  then show ?thesis by (simp add: unknown_registry on_pod_unknown)
next
  case (again pa)
  have "registry_of c = on_pod (ps_terminated_update (\<lambda>_. True)) eid n (registry_of c)"
    by (rule registry_of_pod [OF assms(1) again(1), where q = "heap_pod c ! pa"]) (use again in \<open>simp_all add: pod_view_def\<close>)
  then show ?thesis using again by (simp add: unknown_registry)
next
  case (first pa pr)
  have "registry_of c' = on_pod (ps_terminated_update (\<lambda>_. True)) eid n (registry_of c)"
    by (rule registry_of_pod [OF assms(1) first(1), where q = "(heap_pod c ! pa)\<lparr>terminated := Some t, status := ph\<rparr>"])
      (simp_all add: first(4) upd_pod_def addProgress_def pod_view_def)
  then show ?thesis using first by (simp add: unknown_registry)
qed

lemma registry_ReportReceived:
  assumes "heap_ok c" and "ReportReceived gv t c eid n b rs = Ret c'"
  shows "spec_step (registry_of c) (CReportReceived t eid n b rs, RNone) (registry_of c')"
  using assms(2)
proof (cases rule: ReportReceived_cases)
  case (unknown nf pr)
  have "registry_of (c\<lparr>prom := pr\<rparr>) = registry_of c" by (rule registry_of_cong [OF assms(1)]) simp_all
  with unknown show ?thesis by (simp add: on_pod_unknown)
next
  case (known pa pr)
  have "registry_of c' = on_pod (ps_reported_update (\<lambda>_. True)) eid n (registry_of c)"
    by (rule registry_of_pod [OF assms(1) known(1), where q = "(heap_pod c ! pa)\<lparr>reportReceived := Some t, status := ''ReportReceived''\<rparr>"])
      (simp_all add: known(2) upd_pod_def pod_view_def)
  then show ?thesis by simp
qed

lemma exec_call_registry:
  assumes "heap_ok c" and "exec_call gv sortf cl (c, s) = Ret ((c', s'), r)"
  shows "spec_step (registry_of c) (cl, r) (registry_of c') \<and> heap_ok c'"
proof (cases cl)
  case (CNewExecution clk jobs)
  then obtain eid where "NewExecution gv False clk c s jobs = Ret (eid, c', s')" "r = RID eid"
    using assms(2) by auto
  with registry_NewExecution [OF assms(1)] NewExecution_ok [OF assms(1)] CNewExecution show ?thesis by blast
next
  case (CAllAdded t eid)
  then obtain e where "AllAdded gv sortf t c s eid = Ret (c', s', e)" "r = RErr e" using assms(2) by auto
  with registry_AllAdded [OF assms(1)] CAllAdded show ?thesis by blast
next
  case (CAddPod j)
  with registry_AddPod [OF assms(1)] assms(2) show ?thesis by simp
next
  case (CPodTerminated t eid n ph)
  then obtain e where e: "PodTerminated gv t c eid n ph = Ret (c', e)" "r = RErr e" using assms(2) by auto
  with registry_PodTerminated [OF assms(1)] heap_ok_PodTerminated [OF assms(1)] CPodTerminated show ?thesis by blast
next
  case (CReportReceived t eid n b rs)
  then have "ReportReceived gv t c eid n b rs = Ret c'" "r = RNone" using assms(2) by auto
  with registry_ReportReceived [OF assms(1)] heap_ok_ReportReceived [OF assms(1)] CReportReceived show ?thesis by blast
next
  case (CWorker t e w)
  show ?thesis
  proof (cases "e < length (heap_ex c) \<and> w < length (ex_workers (heap_ex c ! e)) \<and> worker_turn t e w c \<noteq> None")
    case True
    then obtain c1 jo where t: "worker_turn t e w c = Some (c1, jo)" by auto
    with registry_turn [OF assms(1) t] True assms(2) CWorker show ?thesis by auto
  next
    case False
    then have "c' = c" "r = RNone" using assms(2) CWorker by (auto split: if_splits option.splits)
    with assms(1) CWorker show ?thesis by simp
  qed
next
  case (CSend e j)
  have "(registry_of c' = registry_of c \<and> heap_ok c') \<and> r \<in> {RErr None, RBlocked}"
  proof (cases "chan_send e j c")
    case (AddDone c1)
    with registry_send [OF assms(1) AddDone] assms(2) CSend show ?thesis by auto
  qed (use assms CSend in \<open>auto simp: chan_send_def Let_def split: if_splits\<close>)
  then show ?thesis using CSend by simp
qed (use assms in \<open>auto simp: Has_def dom_def controller_Config_def\<close>)

interpretation registry: data_refinement "call_step gv sortf" calls_ok spec_step "\<lambda>x. registry_of (fst x)"
proof unfold_locales
  fix x :: "'a controller \<times> fs" and l x'
  assume x: "calls_ok x" "call_step gv sortf x l x'"
  obtain c s c' s' cl r where e: "x = (c, s)" "x' = (c', s')" "l = (cl, r)" by (metis surj_pair)
  with x have "spec_step (registry_of c) (cl, r) (registry_of c') \<and> heap_ok c'"
    by (intro exec_call_registry) (simp_all add: calls_ok_def call_step_def)
  then show "calls_ok x'" and "spec_step (registry_of (fst x)) l (registry_of (fst x'))"
    by (simp_all add: calls_ok_def e)
qed

end
