(* ===== verification/Registry_Properties.thy ===== *)
theory Registry_Properties
  imports Registry Pool_Properties
begin

text \<open>
  The controller meets the specification of \<open>Registry\<close>, and what follows from the specification
  alone: what is known of a pod is what its callers have said since it was added.
\<close>

section \<open>History\<close>

definition pod_at :: "registry \<Rightarrow> string \<Rightarrow> string \<Rightarrow> pod_state option" where
  "pod_at g eid n = Option.bind (rg_executions g eid) (\<lambda>m. m n)"

fun adds :: "string \<Rightarrow> string \<Rightarrow> call \<times> reply \<Rightarrow> bool" where
  "adds eid n (CAddPod j, r) \<longleftrightarrow> job_ID j = eid \<and> job_Node j = n \<and> r \<in> {RErr None, RBlocked}"
| "adds eid n _ \<longleftrightarrow> False"

fun ends :: "string \<Rightarrow> string \<Rightarrow> call \<times> reply \<Rightarrow> bool" where
  "ends eid n (CPodTerminated t e m ph, r) \<longleftrightarrow> e = eid \<and> m = n"
| "ends eid n _ \<longleftrightarrow> False"

fun reports :: "string \<Rightarrow> string \<Rightarrow> call \<times> reply \<Rightarrow> bool" where
  "reports eid n (CReportReceived t e m b rs, r) \<longleftrightarrow> e = eid \<and> m = n"
| "reports eid n _ \<longleftrightarrow> False"

lemma pod_at_add: "pod_at (add_pod e m g) eid n =
    (if e = eid \<and> m = n \<and> rg_executions g eid \<noteq> None then Some \<lparr>ps_terminated = False, ps_reported = False\<rparr> else pod_at g eid n)"
  by (cases "rg_executions g eid") (auto simp: pod_at_def add_pod_def)

lemma pod_at_on: "pod_at (on_pod f e m g) eid n = (if e = eid \<and> m = n then map_option f (pod_at g eid n) else pod_at g eid n)"
  by (cases "rg_executions g eid") (auto simp: pod_at_def on_pod_def)

lemma spec_step_pod:
  assumes "spec_step g l g'" and "pod_at g' eid n = Some p"
  shows "adds eid n l \<and> \<not> ps_terminated p \<and> \<not> ps_reported p
    \<or> (\<exists>q. pod_at g eid n = Some q \<and> ps_terminated p = (ps_terminated q \<or> ends eid n l)
         \<and> ps_reported p = (ps_reported q \<or> reports eid n l))"
proof -
  obtain cl r where l: "l = (cl, r)" by fastforce
  show ?thesis
  proof (cases cl)
    case (CNewExecution clk jobs)
    then show ?thesis using assms by (auto simp: l pod_at_def split: if_splits)
  next
    case (CAllAdded t e)
    then have "g' = g \<or> (\<exists>old. g' = forget old g)" using assms(1) by (auto simp: l split: if_splits)
    then have "pod_at g eid n = Some p" using assms(2) by (auto simp: pod_at_def forget_def restrict_map_def bind_eq_Some_conv split: if_splits)
    then show ?thesis using CAllAdded by (simp add: l)
  next
    case (CAddPod j)
    then show ?thesis using assms by (auto simp: l pod_at_add split: if_splits)
  next
    case (CPodTerminated t e m ph)
    then show ?thesis using assms by (auto simp: l pod_at_on split: if_splits)
  next
    case (CReportReceived t e m b rs)
    then show ?thesis using assms by (auto simp: l pod_at_on split: if_splits)
  qed (use assms in \<open>auto simp: l\<close>)
qed

lemma spec_history:
  assumes "trace spec_step g ls g'" and "pod_at g eid n = None" and "pod_at g' eid n = Some p"
  shows "\<exists>before l after. ls = before @ l # after \<and> adds eid n l
    \<and> ps_terminated p = (\<exists>x \<in> set after. ends eid n x) \<and> ps_reported p = (\<exists>x \<in> set after. reports eid n x)"
  using assms
proof (induction ls arbitrary: g' p rule: rev_induct)
  case Nil
  then show ?case by (simp add: trace_Nil_iff)
next
  case (snoc l ls)
  obtain g1 where g1: "trace spec_step g ls g1" "spec_step g1 l g'" using snoc.prems(1) by (rule trace_snocE)
  from spec_step_pod [OF g1(2) snoc.prems(3)] show ?case
  proof (elim disjE exE conjE)
    assume "adds eid n l" "\<not> ps_terminated p" "\<not> ps_reported p"
    then show ?thesis by (intro exI [of _ ls] exI [of _ l] exI [of _ "[]"]) simp
  next
    fix q
    assume q: "pod_at g1 eid n = Some q" "ps_terminated p = (ps_terminated q \<or> ends eid n l)"
      "ps_reported p = (ps_reported q \<or> reports eid n l)"
    obtain before a after where "ls = before @ a # after" "adds eid n a"
      "ps_terminated q = (\<exists>x \<in> set after. ends eid n x)" "ps_reported q = (\<exists>x \<in> set after. reports eid n x)"
      using snoc.IH [OF g1(1) snoc.prems(2) q(1)] by blast
    with q(2,3) show ?thesis
      by (intro exI [of _ before] exI [of _ a] exI [of _ "after @ [l]"] conjI) (simp_all add: disj_commute)
  qed
qed

section \<open>The controller\<close>

lemma registry_NewController:
  "registry_of (NewController cfg prm) = \<lparr>rg_executions = Map.empty, rg_nodes = {}, rg_config = cfg\<rparr>"
  by (rule registry_eqI) (simp_all add: NewController_def)

lemma calls_ok_new: "calls_ok (NewController cfg prm, s)"
  by (simp add: calls_ok_def heap_ok_NewController)

text \<open>
  C6. The controller implements its registry. Whatever sequence of calls of its interface and turns
  of its workers a new controller has answered, the replies are those that the registry of
  executions and pods gives to the same calls, and the registry it has then is in the
  controller's maps and objects: pointers, channels and workers are not to be seen.
\<close>

theorem registry_refines:
  assumes "trace (call_step gv sortf) (NewController cfg prm, s) ls (c, s')"
  shows "trace spec_step \<lparr>rg_executions = Map.empty, rg_nodes = {}, rg_config = cfg\<rparr> ls (registry_of c)"
  using registry.trace_abs [OF assms calls_ok_new] by (simp add: registry_NewController)

text \<open>
  C7. A pod's history. If a new controller, after any calls, knows a pod for an execution and a
  node, it was added by a call of \<open>AddPod\<close>, and it counts as terminated, or as reported, exactly if
  its termination, or a report, was notified after that call.
\<close>

theorem controller_history:
  assumes "trace (call_step gv sortf) (NewController cfg prm, s) ls (c, s')" and "podForID c eid n = Inr pa"
  shows "\<exists>before l after. ls = before @ l # after \<and> adds eid n l
    \<and> (terminated (heap_pod c ! pa) \<noteq> None \<longleftrightarrow> (\<exists>x \<in> set after. ends eid n x))
    \<and> (reportReceived (heap_pod c ! pa) \<noteq> None \<longleftrightarrow> (\<exists>x \<in> set after. reports eid n x))"
proof -
  let ?g = "\<lparr>rg_executions = Map.empty, rg_nodes = {}, rg_config = cfg\<rparr>"
  have t: "trace spec_step ?g ls (registry_of c)"
    using registry.trace_abs [OF assms(1) calls_ok_new] by (simp add: registry_NewController)
  have "pod_at (registry_of c) eid n = Some (pod_view (heap_pod c ! pa))"
    using assms(2) by (auto simp: pod_at_def podForID_Inr pods_view_def)
  with spec_history [OF t, of eid n] show ?thesis by (simp add: pod_at_def pod_view_def)
qed

lemma sample_calls:
  "\<exists>x. trace (call_step map_gauge_vec by_mtime) (NewController pool_cfg (sample_collector sample_cfg), sample_fs)
      [(CNewExecution sample_clock 1, RID the_id), (CAddPod (job_on ''n1''), RErr None),
       (CPodTerminated 8 the_id ''n1'' PodSucceeded, RErr None), (CHas ''n1'' the_id, RBool True)] x
    \<and> podForID (fst x) the_id ''n1'' = Inr 0"
proof -
  let ?c0 = "NewController pool_cfg (sample_collector sample_cfg)" and ?f = "prepare_dirs False 5000000000 ''/var/www'' the_id sample_fs"
  have u: "list_all (gv_utf8 map_gauge_vec) xs" for xs by (simp add: list_all_iff)
  obtain c1 where c1: "NewExecution map_gauge_vec False sample_clock ?c0 sample_fs 1 = Ret (the_id, c1, ?f)"
    and h: "heap_ex c1 = [the_ex Map.empty [] False WIdle]" "heap_pod c1 = []" "executions c1 = [the_id \<mapsto> 0]"
    and wf: "col_wf map_gauge_vec (prom c1)" using example_new by blast
  obtain c2 where c2: "AddPod c1 (job_on ''n1'') = AddDone c2" "heap_ex c2 = [the_ex [''n1'' \<mapsto> 0] [job_on ''n1''] False WIdle]"
    "heap_pod c2 = [new_pod ''n1'']" "executions c2 = [the_id \<mapsto> 0]" "prom c2 = prom c1"
    using example_add [OF h refl refl] by blast
  have p2: "podForID c2 the_id ''n1'' = Inr 0" using c2 by (simp add: podForID_Inr the_ex_def)
  obtain c3 r where c3: "PodTerminated map_gauge_vec 8 c2 the_id ''n1'' PodSucceeded = Ret (c3, r)"
    using PodTerminated_returns [of map_gauge_vec c2 "''n1''" the_id 8 PodSucceeded] wf c2(5) u by auto
  have nt: "terminated (heap_pod c2 ! 0) = None" by (simp add: c2 new_pod_def)
  have r: "r = None" using c3 by (cases rule: PodTerminated_cases) (use p2 in auto)
  have p3: "podForID c3 the_id ''n1'' = Inr 0" using p2 by (simp add: podForID_Inr PodTerminated_effect [OF c3])
  have n: "nodes c2 ''n1'' \<noteq> None"
    using c2(1) by (auto simp: AddPod_def forID_def h chan_send_def Let_def register_pod_def job_on_def split: if_splits)
  then have "Has c3 ''n1'' the_id" using c2(4) by (simp add: Has_def PodTerminated_effect [OF c3])
  then have "call_step map_gauge_vec by_mtime (c3, ?f) (CHas ''n1'' the_id, RBool True) (c3, ?f)" by (simp add: call_step_def)
  moreover have "call_step map_gauge_vec by_mtime (c2, ?f) (CPodTerminated 8 the_id ''n1'' PodSucceeded, RErr None) (c3, ?f)"
    using c3 r by (simp add: call_step_def)
  moreover have "call_step map_gauge_vec by_mtime (c1, ?f) (CAddPod (job_on ''n1''), RErr None) (c2, ?f)"
    using c2(1) by (simp add: call_step_def)
  moreover have "call_step map_gauge_vec by_mtime (?c0, sample_fs) (CNewExecution sample_clock 1, RID the_id) (c1, ?f)"
    using c1 by (simp add: call_step_def)
  ultimately have "trace (call_step map_gauge_vec by_mtime) (?c0, sample_fs)
      [(CNewExecution sample_clock 1, RID the_id), (CAddPod (job_on ''n1''), RErr None),
       (CPodTerminated 8 the_id ''n1'' PodSucceeded, RErr None), (CHas ''n1'' the_id, RBool True)] (c3, ?f)"
    by (blast intro: trace_Cons trace_single)
  with p3 show ?thesis by (intro exI [of _ "(c3, ?f)"]) simp
qed

theorem registry_refines_witness:
  "\<exists>g. trace spec_step \<lparr>rg_executions = Map.empty, rg_nodes = {}, rg_config = pool_cfg\<rparr>
      [(CNewExecution sample_clock 1, RID the_id), (CAddPod (job_on ''n1''), RErr None),
       (CPodTerminated 8 the_id ''n1'' PodSucceeded, RErr None), (CHas ''n1'' the_id, RBool True)] g"
proof -
  obtain c s where "trace (call_step map_gauge_vec by_mtime) (NewController pool_cfg (sample_collector sample_cfg), sample_fs)
      [(CNewExecution sample_clock 1, RID the_id), (CAddPod (job_on ''n1''), RErr None),
       (CPodTerminated 8 the_id ''n1'' PodSucceeded, RErr None), (CHas ''n1'' the_id, RBool True)] (c, s)"
    using sample_calls by fastforce
  from registry_refines [OF this] show ?thesis by blast
qed

theorem controller_history_witness:
  "\<exists>c s. trace (call_step map_gauge_vec by_mtime) (NewController pool_cfg (sample_collector sample_cfg), sample_fs)
      [(CNewExecution sample_clock 1, RID the_id), (CAddPod (job_on ''n1''), RErr None),
       (CPodTerminated 8 the_id ''n1'' PodSucceeded, RErr None), (CHas ''n1'' the_id, RBool True)] (c, s)
    \<and> terminated (heap_pod c ! 0) \<noteq> None \<and> reportReceived (heap_pod c ! 0) = None"
proof -
  obtain c s where r: "trace (call_step map_gauge_vec by_mtime) (NewController pool_cfg (sample_collector sample_cfg), sample_fs)
      [(CNewExecution sample_clock 1, RID the_id), (CAddPod (job_on ''n1''), RErr None),
       (CPodTerminated 8 the_id ''n1'' PodSucceeded, RErr None), (CHas ''n1'' the_id, RBool True)] (c, s)"
    and p: "podForID c the_id ''n1'' = Inr 0" using sample_calls by fastforce
  from controller_history [OF r p] show ?thesis
    using r by (auto simp: Cons_eq_append_conv)
qed

end
