(* ===== verification/Callers.thy ===== *)
theory Callers
  imports Registry_Properties
begin

text \<open>
  \<open>ReportReceived\<close> and \<open>PodTerminated\<close> of \<open>pkg/lifecycle\<close> statement by statement. Requests and the
  reconciler call them from goroutines of their own, and nothing in the controller excludes one while another is
  running. A change of a metric, and the lookup of a pod, is one step here. The theory \<open>Linearization\<close> shows that what they do to the registry is atomic all the same; what
  they do to the metrics is not.
\<close>

section \<open>Calls in progress\<close>

text \<open>
  Where a call is: recording results (those still to come), before \<open>ProcessingFinished\<close>, before looking up
  the pod, before marking it; and: before looking up the pod, before marking it, before \<open>Duration\<close>, before the test of
  the report, before \<open>ProcessingFinished\<close>; returned.
\<close>

datatype act =
    ARecord instant string string bool Results
  | AFlag instant string string bool
  | AMark instant string string
  | AMarkPod instant string string nat
  | ATerm instant string string string
  | ATermPod instant string string string nat
  | ADuration instant string string string nat
  | AJudge string string string nat
  | AFlagError string string
  | ADone "err option"

fun act_step :: "'g gauge_vec \<Rightarrow> act \<Rightarrow> 'g controller \<Rightarrow> (act \<times> 'g controller) go" where
  "act_step gv (ARecord t eid n b []) c = Ret (AFlag t eid n b, c)"
| "act_step gv (ARecord t eid n b ((k, []) # rs)) c = Ret (ARecord t eid n b rs, c)"
| "act_step gv (ARecord t eid n b ((k, r # rr) # rs)) c =
     go_bind (MetricFor gv (prom c) eid n k r) (\<lambda>pr. Ret (ARecord t eid n b ((k, rr) # rs), c\<lparr>prom := pr\<rparr>))"
| "act_step gv (AFlag t eid n b) c =
     go_bind (ProcessingFinished gv (prom c) n eid b) (\<lambda>pr. Ret (AMark t eid n, c\<lparr>prom := pr\<rparr>))"
| "act_step gv (AMark t eid n) c =
     (case podForID c eid n of Inl x \<Rightarrow> Ret (ADone None, c) | Inr pa \<Rightarrow> Ret (AMarkPod t eid n pa, c))"
| "act_step gv (AMarkPod t eid n pa) c =
     Ret (ADone None, upd_pod pa (\<lambda>p. p\<lparr>reportReceived := Some t, status := ''ReportReceived''\<rparr>) c)"
| "act_step gv (ATerm t eid n ph) c =
     (case podForID c eid n of
        Inl x \<Rightarrow> Ret (ADone (Some x), c)
      | Inr pa \<Rightarrow> Ret (if terminated (heap_pod c ! pa) \<noteq> None then ADone None else ATermPod t eid n ph pa, c))"
| "act_step gv (ATermPod t eid n ph pa) c =
     Ret (ADuration t eid n ph pa, upd_pod pa (\<lambda>p. p\<lparr>terminated := Some t, status := ph\<rparr>) (addProgress 1 c))"
| "act_step gv (ADuration t eid n ph pa) c =
     go_bind (Duration gv (prom c) n eid (f_of_int (duration_Milliseconds (time_Sub t (started (heap_pod c ! pa))))))
       (\<lambda>pr. Ret (AJudge eid n ph pa, c\<lparr>prom := pr\<rparr>))"
| "act_step gv (AJudge eid n ph pa) c =
     Ret (if ph \<noteq> PodSucceeded \<or> reportReceived (heap_pod c ! pa) = None then AFlagError eid n else ADone None, c)"
| "act_step gv (AFlagError eid n) c =
     go_bind (ProcessingFinished gv (prom c) n eid True) (\<lambda>pr. Ret (ADone None, c\<lparr>prom := pr\<rparr>))"
| "act_step gv (ADone r) c = Ret (ADone r, c)"

text \<open>A call on its own, with enough steps, and how many are enough.\<close>

fun alone :: "'g gauge_vec \<Rightarrow> nat \<Rightarrow> act \<Rightarrow> 'g controller \<Rightarrow> (act \<times> 'g controller) go" where
  "alone gv 0 a c = Ret (a, c)"
| "alone gv (Suc k) a c = go_bind (act_step gv a c) (\<lambda>(a', c'). alone gv k a' c')"

fun result_steps :: "Results \<Rightarrow> nat" where
  "result_steps [] = 0"
| "result_steps ((k, rr) # rs) = Suc (length rr + result_steps rs)"

fun act_left :: "act \<Rightarrow> nat" where
  "act_left (ARecord t eid n b rs) = Suc (Suc (Suc (Suc (result_steps rs))))"
| "act_left (AFlag t eid n b) = 3"
| "act_left (AMark t eid n) = 2"
| "act_left (AMarkPod t eid n pa) = 1"
| "act_left (ATerm t eid n ph) = 5"
| "act_left (ATermPod t eid n ph pa) = 4"
| "act_left (ADuration t eid n ph pa) = 3"
| "act_left (AJudge eid n ph pa) = 2"
| "act_left (AFlagError eid n) = 1"
| "act_left (ADone r) = 0"

lemma act_step_left: "act_step gv a c = Ret (a', c') \<Longrightarrow> (\<And>r. a \<noteq> ADone r) \<Longrightarrow> act_left a' < act_left a"
  by (cases "(gv, a, c)" rule: act_step.cases) (auto split: sum.splits if_splits)

lemma alone_done: "alone gv k (ADone r) c = Ret (ADone r, c)"
  by (induction k) simp_all

lemma alone_numeral [simp]:
  "alone gv (numeral k) a c = go_bind (act_step gv a c) (\<lambda>(a', c'). alone gv (pred_numeral k) a' c')"
  by (simp only: numeral_eq_Suc alone.simps)

lemma alone_mark: "alone gv 2 (AMark t eid n) c = Ret (ADone None,
    case podForID c eid n of Inl x \<Rightarrow> c | Inr pa \<Rightarrow> upd_pod pa (\<lambda>p. p\<lparr>reportReceived := Some t, status := ''ReportReceived''\<rparr>) c)"
  by (simp split: sum.split)

lemma report_tail: "ReportReceived gv t c eid n b rs =
    go_bind (record_results gv eid n rs (prom c)) (\<lambda>pr. go_bind (ProcessingFinished gv pr n eid b) (\<lambda>pr'.
      Ret (case podForID (c\<lparr>prom := pr'\<rparr>) eid n of Inl x \<Rightarrow> c\<lparr>prom := pr'\<rparr>
        | Inr pa \<Rightarrow> upd_pod pa (\<lambda>p. p\<lparr>reportReceived := Some t, status := ''ReportReceived''\<rparr>) (c\<lparr>prom := pr'\<rparr>))))"
proof (cases "record_results gv eid n rs (prom c)")
  case r: (Ret pr)
  show ?thesis
    by (cases "ProcessingFinished gv pr n eid b") (simp_all add: r ReportReceived_def podForID_def Let_def split: sum.splits)
qed (simp add: ReportReceived_def)

lemma alone_record:
  "alone gv (Suc (result_steps rs + k)) (ARecord t eid n b rs) c =
     go_bind (record_results gv eid n rs (prom c)) (\<lambda>pr. alone gv k (AFlag t eid n b) (c\<lparr>prom := pr\<rparr>))"
proof (induction gv eid n rs "prom c" arbitrary: c rule: record_results.induct)
  case (3 gv eid n l r rr rs)
  show ?case
  proof (cases "MetricFor gv (prom c) eid n l r")
    case (Ret pr)
    have "alone gv (Suc (result_steps ((l, rr) # rs) + k)) (ARecord t eid n b ((l, rr) # rs)) (c\<lparr>prom := pr\<rparr>) =
      go_bind (record_results gv eid n ((l, rr) # rs) pr) (\<lambda>pr'. alone gv k (AFlag t eid n b) (c\<lparr>prom := pr, prom := pr'\<rparr>))"
      using "3.hyps" [of "c\<lparr>prom := pr\<rparr>"] by simp
    then show ?thesis using Ret by simp
  qed simp
qed simp_all

lemma alone_report:
  "alone gv (act_left (ARecord t eid n b rs)) (ARecord t eid n b rs) c =
     go_bind (ReportReceived gv t c eid n b rs) (\<lambda>c'. Ret (ADone None, c'))"
proof -
  have "act_left (ARecord t eid n b rs) = Suc (result_steps rs + 3)" by simp
  moreover have "alone gv 3 (AFlag t eid n b) (c\<lparr>prom := pr\<rparr>) = go_bind (ProcessingFinished gv pr n eid b) (\<lambda>pr'.
      Ret (ADone None, case podForID (c\<lparr>prom := pr'\<rparr>) eid n of Inl x \<Rightarrow> c\<lparr>prom := pr'\<rparr>
        | Inr pa \<Rightarrow> upd_pod pa (\<lambda>p. p\<lparr>reportReceived := Some t, status := ''ReportReceived''\<rparr>) (c\<lparr>prom := pr'\<rparr>)))" for pr
    by (cases "ProcessingFinished gv pr n eid b") (simp_all split: sum.split)
  ultimately show ?thesis by (simp only: alone_record report_tail go_bind_assoc go_bind.simps)
qed

lemma alone_terminated:
  "alone gv (act_left (ATerm t eid n ph)) (ATerm t eid n ph) c =
     go_bind (PodTerminated gv t c eid n ph) (\<lambda>(c', r). Ret (ADone r, c'))"
proof (cases "podForID c eid n")
  case (Inl x)
  then show ?thesis by (simp add: PodTerminated_def)
next
  case (Inr pa)
  show ?thesis
  proof (cases "terminated (heap_pod c ! pa)")
    case None
    let ?d = "f_of_int (duration_Milliseconds (time_Sub t (started (heap_pod c ! pa))))"
    let ?c1 = "upd_pod pa (\<lambda>p. p\<lparr>terminated := Some t, status := ph\<rparr>) (addProgress 1 c)"
    have p: "started (heap_pod ?c1 ! pa) = started (heap_pod c ! pa)" "reportReceived (heap_pod ?c1 ! pa) = reportReceived (heap_pod c ! pa)"
      using heap_pod_upd [of pa "addProgress 1 c" _ pa] list_update_beyond [of "heap_pod c" pa]
      by (cases "pa < length (heap_pod c)"; simp add: upd_pod_def)+
    show ?thesis
    proof (cases "Duration gv (prom c) n eid ?d")
      case (Ret pr)
      then show ?thesis using Inr None p
        by (cases "ProcessingFinished gv pr n eid True"; cases "reportReceived (heap_pod c ! pa)") (auto simp: PodTerminated_def Let_def)
    qed (use Inr None p in \<open>simp add: PodTerminated_def Let_def\<close>)
  next
    case (Some t')
    then show ?thesis using Inr by (simp add: PodTerminated_def Let_def)
  qed
qed

text \<open>
  A call on its own is the operation: the statements are those of \<open>Lifecycle\<close>'s model, and as many steps as
  \<open>act_left\<close> says bring it to its end.
\<close>

fun enter :: "call \<Rightarrow> act" where
  "enter (CReportReceived t eid n b rs) = ARecord t eid n b rs"
| "enter (CPodTerminated t eid n ph) = ATerm t eid n ph"
| "enter _ = ADone None"

fun returned :: "call \<Rightarrow> act \<Rightarrow> reply option" where
  "returned (CReportReceived t eid n b rs) (ADone r) = Some RNone"
| "returned (CPodTerminated t eid n ph) (ADone r) = Some (RErr r)"
| "returned _ _ = None"

fun callback :: "call \<Rightarrow> bool" where
  "callback (CReportReceived t eid n b rs) = True"
| "callback (CPodTerminated t eid n ph) = True"
| "callback _ = False"

text \<open>Calls side by side: a step of one of them that has not returned.\<close>

definition acts_step :: "'g gauge_vec \<Rightarrow> act list \<times> 'g controller \<Rightarrow> nat \<Rightarrow> act list \<times> 'g controller \<Rightarrow> bool" where
  "acts_step gv x i x' \<longleftrightarrow> i < length (fst x) \<and> (\<forall>r. fst x ! i \<noteq> ADone r)
     \<and> (\<exists>a'. act_step gv (fst x ! i) (snd x) = Ret (a', snd x') \<and> fst x' = (fst x)[i := a'])"

lemma alone_trace:
  assumes "alone gv k a c = Ret (a', c')" and "i < length xs"
  shows "\<exists>ks. trace (acts_step gv) (xs[i := a], c) ks (xs[i := a'], c')"
  using assms(1)
proof (induction k arbitrary: a c)
  case 0
  then show ?case by (intro exI [of _ "[]"]) (simp add: trace_Nil)
next
  case (Suc k)
  show ?case
  proof (cases "\<exists>r. a = ADone r")
    case True
    then have "a' = a" "c' = c" using Suc.prems alone_done [of gv "Suc k"] by (auto simp del: alone.simps)
    then show ?thesis by (intro exI [of _ "[]"]) (simp add: trace_Nil)
  next
    case False
    obtain a1 c1 where a1: "act_step gv a c = Ret (a1, c1)" "alone gv k a1 c1 = Ret (a', c')" using Suc.prems by auto
    obtain ks where "trace (acts_step gv) (xs[i := a1], c1) ks (xs[i := a'], c')" using Suc.IH [OF a1(2)] by blast
    moreover have "acts_step gv (xs[i := a], c) i (xs[i := a1], c1)" using a1(1) False assms(2) by (simp add: acts_step_def)
    ultimately show ?thesis by (blast intro: trace_Cons)
  qed
qed

section \<open>Writing the metrics\<close>

lemma podForID_cong: "executions c' = executions c \<Longrightarrow> heap_ex c' = heap_ex c \<Longrightarrow> podForID c' = podForID c"
proof -
  assume h: "executions c' = executions c" "heap_ex c' = heap_ex c"
  then have "forID c' = forID c" "ex_pod c' = ex_pod c" by (simp_all add: forID_def ex_pod_def fun_eq_iff)
  then show ?thesis by (intro ext) (simp add: podForID_def split: sum.split)
qed

lemma write_metrics:
  assumes "heap_ok c"
  shows "registry_of (c\<lparr>prom := pr\<rparr>) = registry_of c" "heap_ok (c\<lparr>prom := pr\<rparr>)" "podForID (c\<lparr>prom := pr\<rparr>) = podForID c"
proof -
  show "registry_of (c\<lparr>prom := pr\<rparr>) = registry_of c" by (rule registry_of_cong [OF assms]) simp_all
  show "heap_ok (c\<lparr>prom := pr\<rparr>)" by (rule heap_ok_cong [OF assms]) (simp_all add: map_le_refl)
  show "podForID (c\<lparr>prom := pr\<rparr>) = podForID c" by (rule podForID_cong) simp_all
qed

section \<open>The metrics\<close>

text \<open>The report up to the lookup of the pod, the whole termination, the rest of the report.\<close>

lemma overtaken_run:
  assumes "podForID c eid n = Inr pa" and "record_results gv eid n rs (prom c) = Ret p1" and "ProcessingFinished gv p1 n eid b = Ret p2"
    and "PodTerminated gv t' (c\<lparr>prom := p2\<rparr>) eid n ph = Ret (c2, r)"
  shows "\<exists>ks. trace (acts_step gv) ([ARecord t eid n b rs, ATerm t' eid n ph], c) ks
    ([ADone None, ADone r], upd_pod pa (\<lambda>p. p\<lparr>reportReceived := Some t, status := ''ReportReceived''\<rparr>) c2)"
proof -
  have "alone gv (Suc (result_steps rs + 1)) (ARecord t eid n b rs) c = Ret (AMark t eid n, c\<lparr>prom := p2\<rparr>)"
    unfolding alone_record assms(2) using assms(3) by simp
  from alone_trace [OF this, of 0 "[a, ATerm t' eid n ph]" for a] obtain ks1 where
    1: "trace (acts_step gv) ([ARecord t eid n b rs, ATerm t' eid n ph], c) ks1 ([AMark t eid n, ATerm t' eid n ph], c\<lparr>prom := p2\<rparr>)" by auto
  have "alone gv (act_left (ATerm t' eid n ph)) (ATerm t' eid n ph) (c\<lparr>prom := p2\<rparr>) = Ret (ADone r, c2)"
    unfolding alone_terminated assms(4) by simp
  from alone_trace [OF this, of 1 "[AMark t eid n, a]" for a] obtain ks2 where
    2: "trace (acts_step gv) ([AMark t eid n, ATerm t' eid n ph], c\<lparr>prom := p2\<rparr>) ks2 ([AMark t eid n, ADone r], c2)" by auto
  have "podForID c2 eid n = Inr pa" using assms(1) by (simp add: podForID_Inr PodTerminated_effect [OF assms(4)])
  then have "alone gv 2 (AMark t eid n) c2 =
      Ret (ADone None, upd_pod pa (\<lambda>p. p\<lparr>reportReceived := Some t, status := ''ReportReceived''\<rparr>) c2)"
    unfolding alone_mark by simp
  from alone_trace [OF this, of 0 "[a, ADone r]" for a] obtain ks3 where
    "trace (acts_step gv) ([AMark t eid n, ADone r], c2) ks3
      ([ADone None, ADone r], upd_pod pa (\<lambda>p. p\<lparr>reportReceived := Some t, status := ''ReportReceived''\<rparr>) c2)" by auto
  with 1 2 show ?thesis by (blast intro: trace_append)
qed

text \<open>
  C37. To the metrics concurrent calls are not atomic. Let a pod that has neither reported nor terminated report without an
  error and succeed. If the termination comes between the report's update of the metrics and its marking
  of the pod, the pod has reported and succeeded in the end but the node is flagged with a processing
  error; the same two calls one after the other, in either order, leave the node without one.
\<close>

theorem metrics_not_atomic:
  assumes "heap_ok c" and "col_ok gv (prom c)" and "podForID c eid n = Inr pa"
    and "terminated (heap_pod c ! pa) = None" and "reportReceived (heap_pod c ! pa) = None"
    and "record_results gv eid n rs (prom c) = Ret p1" and "ProcessingFinished gv p1 n eid False = Ret p2"
    and "PodTerminated gv t' (c\<lparr>prom := p2\<rparr>) eid n PodSucceeded = Ret (c2, r)"
  shows "(\<exists>ks c3. trace (acts_step gv) (map enter [CReportReceived t eid n False rs, CPodTerminated t' eid n PodSucceeded], c) ks
        ([ADone None, ADone None], c3)
      \<and> reportReceived (heap_pod c3 ! pa) \<noteq> None \<and> terminated (heap_pod c3 ! pa) \<noteq> None
      \<and> series gv (prom c3) MProc [n, eid] = Some (Fin 1))
    \<and> (\<forall>ca cb r. ReportReceived gv t c eid n False rs = Ret ca \<and> PodTerminated gv t' ca eid n PodSucceeded = Ret (cb, r)
        \<longrightarrow> series gv (prom cb) MProc [n, eid] = Some (Fin 0))
    \<and> (\<forall>ca cb r. PodTerminated gv t' c eid n PodSucceeded = Ret (ca, r) \<and> ReportReceived gv t ca eid n False rs = Ret cb
        \<longrightarrow> series gv (prom cb) MProc [n, eid] = Some (Fin 0))"
proof (intro conjI allI impI)
  let ?c3 = "upd_pod pa (\<lambda>p. p\<lparr>reportReceived := Some t, status := ''ReportReceived''\<rparr>) c2"
  have pa: "pa < length (heap_pod c)" by (rule podForID_allocated [OF assms(1,3)])
  have p: "podForID (c\<lparr>prom := p2\<rparr>) eid n = Inr pa" "terminated (heap_pod (c\<lparr>prom := p2\<rparr>) ! pa) = None"
    using assms(3,4) write_metrics(3) [OF assms(1)] by simp_all
  have "col_ok gv (prom (c\<lparr>prom := p2\<rparr>))"
    using ProcessingFinished_series(1) [OF record_results_ok(1) [OF assms(6,2)] assms(7)] by simp
  note T = PodTerminated_first [OF this p assms(8)]
  have m: "reportReceived (heap_pod ?c3 ! pa) \<noteq> None" "terminated (heap_pod ?c3 ! pa) \<noteq> None"
    using T(3) pa by (simp_all add: upd_pod_def)
  have v: "series gv (prom ?c3) MProc [n, eid] = Some (Fin 1)" using T(6) assms(5) by simp
  obtain ks where "trace (acts_step gv) ([ARecord t eid n False rs, ATerm t' eid n PodSucceeded], c) ks ([ADone None, ADone r], ?c3)"
    using overtaken_run [OF assms(3,6,7,8)] by blast
  then show "\<exists>ks c3. trace (acts_step gv) (map enter [CReportReceived t eid n False rs, CPodTerminated t' eid n PodSucceeded], c) ks
        ([ADone None, ADone None], c3)
      \<and> reportReceived (heap_pod c3 ! pa) \<noteq> None \<and> terminated (heap_pod c3 ! pa) \<noteq> None
      \<and> series gv (prom c3) MProc [n, eid] = Some (Fin 1)"
    using m v T(1) by (intro exI [of _ ks] exI [of _ ?c3]) simp
next
  fix ca cb r
  assume "ReportReceived gv t c eid n False rs = Ret ca \<and> PodTerminated gv t' ca eid n PodSucceeded = Ret (cb, r)"
  with report_then_terminated [OF assms(1-4)] show "series gv (prom cb) MProc [n, eid] = Some (Fin 0)" by fastforce
next
  fix ca cb r
  assume "PodTerminated gv t' c eid n PodSucceeded = Ret (ca, r) \<and> ReportReceived gv t ca eid n False rs = Ret cb"
  with terminated_then_report [OF assms(2-4)] show "series gv (prom cb) MProc [n, eid] = Some (Fin 0)" by fastforce
qed

section \<open>An example\<close>

lemma sample_overtaken:
  fixes c defines "c \<equiv> started_controller sample_cfg"
  obtains p2 c2 where "record_results map_gauge_vec ''e1'' ''n1'' [] (prom c) = Ret (prom c)"
    "ProcessingFinished map_gauge_vec (prom c) ''n1'' ''e1'' False = Ret p2"
    "PodTerminated map_gauge_vec 9 (c\<lparr>prom := p2\<rparr>) ''e1'' ''n1'' PodSucceeded = Ret (c2, None)"
proof -
  have u: "list_all (gv_utf8 map_gauge_vec) xs" for xs by (simp add: list_all_iff)
  have p: "podForID c ''e1'' ''n1'' = Inr 0" "terminated (heap_pod c ! 0) = None" "prom c = sample_collector sample_cfg"
    using started_podForID by (simp_all add: c_def started_controller_def sample_controller_def NewController_def)
  obtain c1 where c1: "ReportReceived map_gauge_vec 8 c ''e1'' ''n1'' False [] = Ret c1" "col_wf map_gauge_vec (prom c1)"
    using ReportReceived_returns [of map_gauge_vec c "''n1''" "''e1''" 8 False] sample_col_wf u p(3) by auto
  then obtain p2 where p2: "ProcessingFinished map_gauge_vec (prom c) ''n1'' ''e1'' False = Ret p2"
    and "c1 = (case podForID (c\<lparr>prom := p2\<rparr>) ''e1'' ''n1'' of Inl x \<Rightarrow> c\<lparr>prom := p2\<rparr>
      | Inr pa \<Rightarrow> upd_pod pa (\<lambda>p. p\<lparr>reportReceived := Some 8, status := ''ReportReceived''\<rparr>) (c\<lparr>prom := p2\<rparr>))"
    unfolding report_tail by auto
  then have wf: "col_wf map_gauge_vec p2" using c1(2) by (simp split: sum.splits)
  obtain c2 r where c2: "PodTerminated map_gauge_vec 9 (c\<lparr>prom := p2\<rparr>) ''e1'' ''n1'' PodSucceeded = Ret (c2, r)"
    using PodTerminated_returns [of map_gauge_vec "c\<lparr>prom := p2\<rparr>" "''n1''" "''e1''" 9 PodSucceeded] wf u by auto
  have "heap_ok c" by (simp add: c_def started_controller_ok)
  then have q: "podForID (c\<lparr>prom := p2\<rparr>) ''e1'' ''n1'' = Inr 0" using p(1) write_metrics(3) by fastforce
  from c2 have "r = None" by (cases rule: PodTerminated_cases) (use q in auto)
  with p2 c2 show thesis by (intro that) simp_all
qed

definition sample_callbacks :: "call list" where
  "sample_callbacks = [CReportReceived 8 ''e1'' ''n1'' False [], CPodTerminated 9 ''e1'' ''n1'' PodSucceeded]"

theorem metrics_not_atomic_witness:
  "\<exists>ks c3. trace (acts_step map_gauge_vec) (map enter sample_callbacks, started_controller sample_cfg) ks ([ADone None, ADone None], c3)
    \<and> series map_gauge_vec (prom c3) MProc [''n1'', ''e1''] = Some (Fin 1)"
proof -
  let ?c = "started_controller sample_cfg"
  obtain p2 c2 where r: "record_results map_gauge_vec ''e1'' ''n1'' [] (prom ?c) = Ret (prom ?c)"
    "ProcessingFinished map_gauge_vec (prom ?c) ''n1'' ''e1'' False = Ret p2"
    "PodTerminated map_gauge_vec 9 (?c\<lparr>prom := p2\<rparr>) ''e1'' ''n1'' PodSucceeded = Ret (c2, None)"
    by (rule sample_overtaken)
  have c: "col_ok map_gauge_vec (prom ?c)" "terminated (heap_pod ?c ! 0) = None" "reportReceived (heap_pod ?c ! 0) = None"
    using sample_col_ok by (simp_all add: started_controller_def)
  from metrics_not_atomic [OF started_controller_ok c(1) started_podForID c(2,3) r, of 8] show ?thesis
    unfolding sample_callbacks_def by blast
qed

end
