(* ===== verification/Linearization.thy ===== *)
theory Linearization
  imports Callers
begin

text \<open>
  Reports and terminations that run statement by statement, at the same time and interleaved with any other
  calls on the controller, have the effect on the registry of calls that happen at one moment
  each: a callback takes effect when it looks up its pod. A pod may be forgotten or replaced
  after that; then the callback writes to an object nobody can reach any more.
\<close>

section \<open>All calls together\<close>

text \<open>A step of one of the callbacks in progress, or a whole call of another operation.\<close>

definition calls_step :: "'g gauge_vec \<Rightarrow> (dir_entry list \<Rightarrow> dir_entry list) \<Rightarrow>
    act list \<times> 'g controller \<times> fs \<Rightarrow> nat + call \<times> reply \<Rightarrow> act list \<times> 'g controller \<times> fs \<Rightarrow> bool" where
  "calls_step gv sortf x l x' \<longleftrightarrow> (case l of
      Inl i \<Rightarrow> acts_step gv (fst x, fst (snd x)) i (fst x', fst (snd x')) \<and> snd (snd x') = snd (snd x)
    | Inr k \<Rightarrow> fst x' = fst x \<and> call_step gv sortf (snd x) k (snd x'))"

text \<open>
  When the calls took effect: for every step of a run the calls that did so in it, a callback once and in one
  of its own steps, another operation in its step.
\<close>

definition count_effects :: "nat \<Rightarrow> (nat + call \<times> reply) list \<Rightarrow> (call \<times> reply) list list \<Rightarrow> nat" where
  "count_effects i ls hs = length (filter (\<lambda>(l, h). l = Inl i \<and> h \<noteq> []) (zip ls hs))"

definition takes_effect :: "call list \<Rightarrow> reply list \<Rightarrow> (nat + call \<times> reply) list \<Rightarrow> (call \<times> reply) list list \<Rightarrow> bool" where
  "takes_effect cls rs ls hs \<longleftrightarrow>
     list_all2 (\<lambda>l h. case l of Inl i \<Rightarrow> h = [] \<or> h = [(cls ! i, rs ! i)] | Inr k \<Rightarrow> h = [k]) ls hs
     \<and> (\<forall>i < length cls. count_effects i ls hs = 1)"

section \<open>Lookups\<close>

text \<open>The object a callback has looked up: only its execution and node can ever lead to it.\<close>

definition owned :: "'g controller \<Rightarrow> string \<Rightarrow> string \<Rightarrow> nat \<Rightarrow> bool" where
  "owned c eid n pa \<longleftrightarrow> pa < length (heap_pod c) \<and> (\<forall>e < length (heap_ex c). \<forall>m.
      ex_pods (heap_ex c ! e) m = Some pa \<longrightarrow> ex_id (heap_ex c ! e) = eid \<and> m = n)"

lemma lookup_owned:
  assumes "heap_ok c" and "podForID c eid n = Inr pa"
  shows "owned c eid n pa"
proof -
  obtain e where e: "executions c eid = Some e" "ex_pods (heap_ex c ! e) n = Some pa" using assms(2) by (auto simp: podForID_Inr)
  have el: "e < length (heap_ex c)" "ex_id (heap_ex c ! e) = eid" using heap_ok_execution [OF assms(1) e(1)] by simp_all
  have "e1 = e \<and> m = n" if "e1 < length (heap_ex c)" "ex_pods (heap_ex c ! e1) m = Some pa" for e1 m
    using heap_ok_unique [OF assms(1) that(1) el(1) that(2) e(2)] heap_ok_pod [OF assms(1)] that el(1) e(2) by metis
  then show ?thesis using el podForID_allocated [OF assms] unfolding owned_def by blast
qed

text \<open>The calls after which a lookup does not lead to the same object any more.\<close>

fun drops :: "call \<Rightarrow> registry \<Rightarrow> string \<Rightarrow> string \<Rightarrow> bool" where
  "drops (CNewExecution clk jobs) g eid n \<longleftrightarrow> eid = time_Format_id (wall clk)"
| "drops (CAllAdded t i) g eid n \<longleftrightarrow> rg_executions g eid = None"
| "drops (CAddPod j) g eid n \<longleftrightarrow> eid = job_ID j \<and> n = job_Node j"
| "drops _ g eid n \<longleftrightarrow> False"

text \<open>What a call may do to the objects: those allocated before stay where they are, or cannot be reached.\<close>

definition moves :: "call \<Rightarrow> 'g controller \<Rightarrow> 'g controller \<Rightarrow> bool" where
  "moves cl c c' \<longleftrightarrow> length (heap_pod c) \<le> length (heap_pod c')
     \<and> (\<forall>e < length (heap_ex c'). \<forall>m p. ex_pods (heap_ex c' ! e) m = Some p \<and> p < length (heap_pod c) \<longrightarrow>
          e < length (heap_ex c) \<and> ex_pods (heap_ex c ! e) m = Some p \<and> ex_id (heap_ex c' ! e) = ex_id (heap_ex c ! e))
     \<and> (\<forall>eid n pa. pa < length (heap_pod c) \<longrightarrow>
          (podForID c' eid n = Inr pa \<longleftrightarrow> podForID c eid n = Inr pa \<and> \<not> drops cl (registry_of c') eid n))"

lemma moves_owned: "moves cl c c' \<Longrightarrow> owned c eid n pa \<Longrightarrow> owned c' eid n pa"
  unfolding moves_def owned_def by (auto intro: less_le_trans) metis+

text \<open>Most calls keep executions and pods where they are.\<close>

lemma moves_same:
  assumes "heap_ok c" and "executions c' = executions c" and "length (heap_ex c') = length (heap_ex c)"
    and x: "\<And>e. e < length (heap_ex c) \<Longrightarrow> ex_pods (heap_ex c' ! e) = ex_pods (heap_ex c ! e) \<and> ex_id (heap_ex c' ! e) = ex_id (heap_ex c ! e)"
    and "length (heap_pod c') = length (heap_pod c)"
    and d: "\<And>eid n. executions c eid \<noteq> None \<Longrightarrow> \<not> drops cl (registry_of c') eid n"
  shows "moves cl c c'"
proof -
  have "podForID c' eid n = Inr pa \<longleftrightarrow> podForID c eid n = Inr pa" for eid n pa
    using heap_ok_execution [OF assms(1), of eid] x by (auto simp: podForID_Inr assms(2))
  moreover have "\<not> drops cl (registry_of c') eid n" if "podForID c eid n = Inr pa" for eid n pa
    using that d by (auto simp: podForID_Inr)
  ultimately show ?thesis unfolding moves_def using assms(3,5) x by auto
qed

lemma moves_NewExecution:
  assumes "heap_ok c" and "NewExecution gv w clk c s jobs = Ret (eid, c', s')"
  shows "moves (CNewExecution clk jobs) c c'"
proof -
  from assms(2) obtain pr where c': "eid = time_Format_id (wall clk)"
    "c' = c\<lparr>executions := (executions c)(eid \<mapsto> length (heap_ex c)), heap_ex := heap_ex c @ [new_execution (podPoolSize c) eid],
       progressStep := f_div (Fin 100) (f_mul (f_of_int jobs) (Fin 3)), progress := 0, prom := pr\<rparr>"
    by (rule NewExecution_cases)
  have l: "podForID c' i n = Inr pa \<longleftrightarrow> podForID c i n = Inr pa \<and> i \<noteq> eid" for i n pa
    unfolding NewExecution_lookup [OF assms] by simp
  have x: "e < length (heap_ex c) \<and> ex_pods (heap_ex c ! e) m = Some p \<and> ex_id (heap_ex c' ! e) = ex_id (heap_ex c ! e)"
    if "e < length (heap_ex c')" "ex_pods (heap_ex c' ! e) m = Some p" for e m p
    using that by (cases "e < length (heap_ex c)") (auto simp: c'(2) nth_append less_Suc_eq)
  have "heap_pod c' = heap_pod c" by (simp add: c'(2))
  then have "length (heap_pod c) \<le> length (heap_pod c')" by simp
  moreover have "podForID c' i n = Inr pa \<longleftrightarrow> podForID c i n = Inr pa \<and> \<not> drops (CNewExecution clk jobs) (registry_of c') i n" for i n pa
    unfolding l by (simp add: c'(1))
  ultimately show ?thesis unfolding moves_def using x by blast
qed

lemma moves_AllAdded:
  assumes "heap_ok c" and "AllAdded gv sortf t c s eid = Ret (c', s', r)"
  shows "moves (CAllAdded t eid) c c'"
  using assms(2)
proof (cases rule: AllAdded_cases)
  case (closed e files n c1)
  have p: "heap_ex c1 = heap_ex c" "heap_pod c1 = heap_pod c"
    "executions c1 i = None \<or> executions c1 i = executions c i" for i
    using prune_files_effect [OF closed(4)] by auto
  have el: "e < length (heap_ex c)" using closed(1) heap_ok_execution [OF assms(1)] by (simp add: forID_Inr)
  have x: "heap_pod c' = heap_pod c" "length (heap_ex c') = length (heap_ex c)" "executions c' = executions c1"
    by (simp_all add: closed(6) p)
  have e: "ex_pods (heap_ex c' ! i) = ex_pods (heap_ex c ! i) \<and> ex_id (heap_ex c' ! i) = ex_id (heap_ex c ! i)" for i
    using el by (cases "i = e") (simp_all add: closed(6) p upd_ex_def)
  have "podForID c' i n = Inr pa \<longleftrightarrow> podForID c i n = Inr pa \<and> executions c' i \<noteq> None" for i n pa
    unfolding podForID_Inr x(3) using p(3) [of i] by (elim disjE) (auto simp: e)
  then show ?thesis by (simp add: moves_def x e)
qed (use assms(1) in \<open>auto intro!: moves_same\<close>)

lemma moves_send:
  assumes "heap_ok c" and "chan_send e j c = AddDone c'" and "\<And>g eid n. \<not> drops cl g eid n"
  shows "moves cl c c'"
proof -
  have "c' = upd_ex e (\<lambda>x. x\<lparr>chan_buf := chan_buf x @ [j]\<rparr>) c"
    using assms(2) by (auto simp: chan_send_def Let_def split: if_splits)
  then show ?thesis by (intro moves_same) (use assms(1,3) in \<open>auto simp: nth_upd upd_ex_def\<close>)
qed

lemma moves_register:
  assumes "heap_ok c" and "executions c (job_ID j) = Some e"
  shows "moves (CAddPod j) c (register_pod e j c)"
proof -
  let ?c = "register_pod e j c"
  have e: "e < length (heap_ex c)" "ex_id (heap_ex c ! e) = job_ID j" using heap_ok_execution [OF assms] by simp_all
  have x: "executions ?c = executions c" "length (heap_pod ?c) = Suc (length (heap_pod c))" "length (heap_ex ?c) = length (heap_ex c)"
    "ex_id (heap_ex ?c ! i) = ex_id (heap_ex c ! i)"
    "ex_pods (heap_ex ?c ! i) m = (if i = e \<and> m = job_Node j then Some (length (heap_pod c)) else ex_pods (heap_ex c ! i) m)" for i m
    using e by (cases "i = e"; simp add: register_pod_def upd_ex_def)+
  have "podForID ?c eid n = Inr pa \<longleftrightarrow> podForID c eid n = Inr pa \<and> \<not> (eid = job_ID j \<and> n = job_Node j)"
    if "pa < length (heap_pod c)" for eid n pa
    using assms(2) that e heap_ok_execution [OF assms(1), of eid] by (auto simp: podForID_Inr x)
  then show ?thesis by (simp add: moves_def x)
qed

lemma moves_AddPod:
  assumes "heap_ok c" and "exec_call gv sortf (CAddPod j) (c, s) = Ret ((c', s'), r)"
  shows "moves (CAddPod j) c c'"
proof (cases "executions c (job_ID j)")
  case None
  then have "c' = c" using assms by (simp add: AddPod_def forID_def)
  with None assms(1) show ?thesis by (auto intro: moves_same)
next
  case (Some e)
  have a: "AddPod c j = chan_send e j (register_pod e j c)" using Some by (simp add: AddPod_def forID_def)
  have m: "moves (CAddPod j) c (register_pod e j c)" by (rule moves_register [OF assms(1) Some])
  show ?thesis
  proof (cases "chan_send e j (register_pod e j c)")
    case (AddDone c1)
    then have "c' = upd_ex e (\<lambda>x. x\<lparr>chan_buf := chan_buf x @ [j]\<rparr>) (register_pod e j c)"
      using assms(2) a by (auto simp: chan_send_def Let_def split: if_splits)
    moreover have "ex_pods (heap_ex (upd_ex e (\<lambda>x. x\<lparr>chan_buf := chan_buf x @ [j]\<rparr>) c1) ! i) = ex_pods (heap_ex c1 ! i)
        \<and> ex_id (heap_ex (upd_ex e (\<lambda>x. x\<lparr>chan_buf := chan_buf x @ [j]\<rparr>) c1) ! i) = ex_id (heap_ex c1 ! i)" for c1 :: "'a controller" and i
      by (cases "i = e \<and> e < length (heap_ex c1)") (auto simp: upd_ex_def list_update_beyond)
    ultimately show ?thesis using m by (simp add: moves_def podForID_Inr)
  next
    case (AddBlocked e1 c1)
    then have "c' = register_pod e j c" using assms(2) a by (auto simp: chan_send_def Let_def split: if_splits)
    with m show ?thesis by simp
  qed (use assms(2) a in \<open>auto simp: chan_send_def Let_def split: if_splits\<close>)
qed

lemma moves_turn:
  assumes "heap_ok c" and "worker_turn t e w c = Some (c', jo)" and "\<And>g eid n. \<not> drops cl g eid n"
  shows "moves cl c c'"
proof -
  have f: "executions c' = executions c" "length (heap_ex c') = length (heap_ex c)" "length (heap_pod c') = length (heap_pod c)"
    using assms(2) by (auto simp: worker_turn_def set_worker_def split: worker.splits list.splits if_splits sum.splits)
  have "ex_pods (heap_ex c' ! i) = ex_pods (heap_ex c ! i) \<and> ex_id (heap_ex c' ! i) = ex_id (heap_ex c ! i)"
    if "i < length (heap_ex c)" for i
    using assms(2) that
    by (auto simp: worker_turn_def set_worker_def upd_ex_def nth_upd addProgress_def upd_pod_def
        split: worker.splits list.splits if_splits sum.splits)
  with f assms(1,3) show ?thesis by (intro moves_same) auto
qed

lemma exec_call_moves:
  assumes "heap_ok c" and "exec_call gv sortf cl (c, s) = Ret ((c', s'), r)"
  shows "moves cl c c'"
proof (cases cl)
  case (CNewExecution clk jobs)
  then obtain eid where "NewExecution gv False clk c s jobs = Ret (eid, c', s')" using assms(2) by auto
  with moves_NewExecution [OF assms(1)] CNewExecution show ?thesis by blast
next
  case (CAllAdded t eid)
  then obtain e where "AllAdded gv sortf t c s eid = Ret (c', s', e)" using assms(2) by auto
  with moves_AllAdded [OF assms(1)] CAllAdded show ?thesis by blast
next
  case (CAddPod j)
  with moves_AddPod [OF assms(1)] assms(2) show ?thesis by blast
next
  case (CPodTerminated t eid n ph)
  then obtain e where "PodTerminated gv t c eid n ph = Ret (c', e)" using assms(2) by auto
  then show ?thesis using assms(1) CPodTerminated by (intro moves_same) (simp_all add: PodTerminated_effect)
next
  case (CReportReceived t eid n b rs)
  then have "ReportReceived gv t c eid n b rs = Ret c'" using assms(2) by auto
  then show ?thesis using assms(1) CReportReceived by (intro moves_same) (simp_all add: ReportReceived_effect)
next
  case (CWorker t e w)
  then have "c' = c \<or> (\<exists>jo. worker_turn t e w c = Some (c', jo))"
    using assms(2) by (auto split: if_splits option.splits)
  then show ?thesis
  proof (elim disjE exE)
    assume "c' = c"
    then show ?thesis using assms(1) CWorker by (auto intro: moves_same)
  next
    fix jo
    assume "worker_turn t e w c = Some (c', jo)"
    then show ?thesis using moves_turn [OF assms(1)] CWorker by simp
  qed
next
  case (CSend e j)
  then have "c' = c \<or> chan_send e j c = AddDone c'"
    using assms(2) by (auto simp: chan_send_def Let_def split: if_splits)
  then show ?thesis
  proof
    assume "c' = c"
    then show ?thesis using assms(1) CSend by (auto intro: moves_same)
  qed (use moves_send [OF assms(1)] CSend in simp)
qed (use assms in \<open>auto intro!: moves_same\<close>)

section \<open>Callbacks that have taken effect\<close>

text \<open>
  Where a callback can be; and its reply, once it has looked up its pod, which is when it
  takes effect. What it has not yet written by then is owed to the registry, as long as the lookup
  would still lead to the same pod.
\<close>

fun stage :: "(string \<Rightarrow> string \<Rightarrow> nat \<Rightarrow> bool) \<Rightarrow> call \<Rightarrow> act \<Rightarrow> bool" where
  "stage own (CReportReceived t eid n b rs) a \<longleftrightarrow> (case a of
      ARecord t' e m b' rs' \<Rightarrow> e = eid \<and> m = n
    | AFlag t' e m b' \<Rightarrow> e = eid \<and> m = n
    | AMark t' e m \<Rightarrow> e = eid \<and> m = n
    | AMarkPod t' e m pa \<Rightarrow> e = eid \<and> m = n \<and> own eid n pa
    | ADone r \<Rightarrow> True
    | _ \<Rightarrow> False)"
| "stage own (CPodTerminated t eid n ph) a \<longleftrightarrow> (case a of
      ATerm t' e m ph' \<Rightarrow> e = eid \<and> m = n
    | ATermPod t' e m ph' pa \<Rightarrow> e = eid \<and> m = n \<and> own eid n pa
    | ADuration t' e m ph' pa \<Rightarrow> True
    | AJudge e m ph' pa \<Rightarrow> True
    | AFlagError e m \<Rightarrow> True
    | ADone r \<Rightarrow> True
    | _ \<Rightarrow> False)"
| "stage own _ a \<longleftrightarrow> False"

fun settled :: "call \<Rightarrow> act \<Rightarrow> reply option" where
  "settled (CReportReceived t eid n b rs) a = (case a of AMarkPod t' e m pa \<Rightarrow> Some RNone | ADone r \<Rightarrow> Some RNone | _ \<Rightarrow> None)"
| "settled (CPodTerminated t eid n ph) a = (case a of ATerm t' e m ph' \<Rightarrow> None | ADone r \<Rightarrow> Some (RErr r) | _ \<Rightarrow> Some (RErr None))"
| "settled _ a = None"

fun owed :: "(string \<Rightarrow> string \<Rightarrow> err + nat) \<Rightarrow> act \<Rightarrow> registry \<Rightarrow> registry" where
  "owed look (AMarkPod t eid n pa) g = (if look eid n = Inr pa then on_pod (ps_reported_update (\<lambda>_. True)) eid n g else g)"
| "owed look (ATermPod t eid n ph pa) g = (if look eid n = Inr pa then on_pod (ps_terminated_update (\<lambda>_. True)) eid n g else g)"
| "owed look _ g = g"

lemma settled_callback: "settled cl a = Some r \<Longrightarrow> callback cl"
  by (cases cl) simp_all

lemma settled_returned: "returned cl a = Some r \<Longrightarrow> settled cl a = Some r \<and> owed look a g = g"
  by (cases "(cl, a)" rule: returned.cases) auto

lemma stage_mono: "stage own cl a \<Longrightarrow> (\<And>eid n pa. own eid n pa \<Longrightarrow> own' eid n pa) \<Longrightarrow> stage own' cl a"
  by (cases cl; cases a) auto

lemma on_pod_commute:
  "f \<circ> h = h \<circ> f \<Longrightarrow> on_pod f e m (on_pod h e' m' g) = on_pod h e' m' (on_pod f e m g)"
  by (rule registry_eqI) (auto simp: on_pod_def option.map_comp comp_def fun_eq_iff map_option_case split: option.splits)

lemma on_pod_None [simp]: "rg_executions (on_pod f e m g) i = None \<longleftrightarrow> rg_executions g i = None"
  by (simp add: on_pod_def)

lemma unknown_on_pod [simp]: "unknown eid n (on_pod f e m g) = unknown eid n g"
  by (auto simp: unknown_def on_pod_def split: option.splits)

lemma owed_cases:
  obtains "\<And>look. owed look a = (\<lambda>g. g)"
    | eid n pa where "\<And>look g. owed look a g = (if look eid n = Inr pa then on_pod (ps_reported_update (\<lambda>_. True)) eid n g else g)"
        "\<And>own cl. stage own cl a \<Longrightarrow> own eid n pa"
    | eid n pa where "\<And>look g. owed look a g = (if look eid n = Inr pa then on_pod (ps_terminated_update (\<lambda>_. True)) eid n g else g)"
        "\<And>own cl. stage own cl a \<Longrightarrow> own eid n pa"
proof (cases a)
  case (AMarkPod t eid n pa)
  have "stage own cl a \<Longrightarrow> own eid n pa" for own cl by (cases cl) (simp_all add: AMarkPod)
  then show thesis by (intro that(2)) (simp_all add: AMarkPod)
next
  case (ATermPod t eid n ph pa)
  have "stage own cl a \<Longrightarrow> own eid n pa" for own cl by (cases cl) (simp_all add: ATermPod)
  then show thesis by (intro that(3)) (simp_all add: ATermPod)
qed (use that(1) in \<open>simp_all add: fun_eq_iff\<close>)

text \<open>Debts are in no order, and a call of another operation leaves them as they are.\<close>

lemma owed_commute: "owed look a (owed look b g) = owed look b (owed look a g)"
  by (cases a; cases b; simp; intro impI on_pod_commute; simp add: fun_eq_iff)

lemma owed_keeps [simp]: "rg_executions (owed look a g) i = None \<longleftrightarrow> rg_executions g i = None" "unknown eid n (owed look a g) = unknown eid n g"
  by (cases a rule: owed_cases; simp)+

lemma drops_cong: "(rg_executions g eid = None \<longleftrightarrow> rg_executions g' eid = None) \<Longrightarrow> drops cl g eid n = drops cl g' eid n"
  by (cases cl) simp_all

lemma on_pod_call:
  assumes "spec_step g (cl, r) g'" and "\<not> drops cl g' eid n" and "f \<in> {ps_reported_update (\<lambda>_. True), ps_terminated_update (\<lambda>_. True)}"
  shows "spec_step (on_pod f eid n g) (cl, r) (on_pod f eid n g')"
proof (cases cl)
  case (CNewExecution clk jobs)
  have "on_pod f eid n (g\<lparr>rg_executions := (rg_executions g)(i \<mapsto> Map.empty)\<rparr>)
      = (on_pod f eid n g)\<lparr>rg_executions := (rg_executions (on_pod f eid n g))(i \<mapsto> Map.empty)\<rparr>" if "i \<noteq> eid" for i
    using that by (intro registry_eqI) (auto simp: on_pod_def)
  then show ?thesis using assms(1,2) CNewExecution by auto
next
  case (CAllAdded t i)
  have "on_pod f eid n (forget old g) = forget old (on_pod f eid n g)" for old
    by (rule registry_eqI) (auto simp: on_pod_def forget_def restrict_map_def)
  then show ?thesis using assms(1) CAllAdded by (auto split: if_splits)
next
  case (CAddPod j)
  have "on_pod f eid n (add_pod (job_ID j) (job_Node j) g) = add_pod (job_ID j) (job_Node j) (on_pod f eid n g)"
    using assms(2) CAddPod by (intro registry_eqI) (auto simp: on_pod_def add_pod_def option.map_comp comp_def fun_upd_twist)
  then show ?thesis using assms(1) CAddPod by (auto split: if_splits)
next
  case (CPodTerminated t i m ph)
  then show ?thesis using assms(1,3) by (auto simp: fun_eq_iff intro: on_pod_commute)
next
  case (CReportReceived t i m b rs)
  then show ?thesis using assms(1,3) by (auto simp: fun_eq_iff intro: on_pod_commute)
qed (use assms in \<open>auto simp: on_pod_def\<close>)

text \<open>If the call drops the pod, what was owed to it is lost in the same way as if it had been paid.\<close>

lemma on_pod_dropped:
  assumes "spec_step g (cl, r) g'" and "drops cl g' eid n"
  shows "spec_step (on_pod f eid n g) (cl, r) g'"
proof (cases cl)
  case (CNewExecution clk jobs)
  have "(on_pod f eid n g)\<lparr>rg_executions := (rg_executions (on_pod f eid n g))(eid \<mapsto> Map.empty)\<rparr>
      = g\<lparr>rg_executions := (rg_executions g)(eid \<mapsto> Map.empty)\<rparr>"
    by (intro registry_eqI) (auto simp: on_pod_def)
  then show ?thesis using assms CNewExecution by simp
next
  case (CAllAdded t i)
  have "on_pod f eid n g = g" if "rg_executions g eid = None"
    using that by (intro registry_eqI) (auto simp: on_pod_def)
  moreover have "forget old (on_pod f eid n g) = forget old g" if "rg_executions (forget old g) eid = None" for old
    using that by (intro registry_eqI) (auto simp: on_pod_def forget_def restrict_map_def)
  ultimately show ?thesis using assms CAllAdded by (auto split: if_splits) metis+
next
  case (CAddPod j)
  have "add_pod (job_ID j) (job_Node j) (on_pod f eid n g) = add_pod (job_ID j) (job_Node j) g"
    using assms(2) CAddPod by (intro registry_eqI) (auto simp: on_pod_def add_pod_def option.map_comp comp_def)
  moreover have "on_pod f eid n g = g" if "rg_executions g eid = None"
    using that by (intro registry_eqI) (auto simp: on_pod_def)
  ultimately show ?thesis using assms CAddPod by (auto split: if_splits)
qed (use assms in auto)

lemma owed_call:
  assumes "spec_step g (cl, r) g'" and "stage own cl0 a"
    and "\<And>eid n pa. own eid n pa \<Longrightarrow> look' eid n = Inr pa \<longleftrightarrow> look eid n = Inr pa \<and> \<not> drops cl g' eid n"
  shows "spec_step (owed look a g) (cl, r) (owed look' a g')"
proof (cases a rule: owed_cases)
  case (2 eid n pa)
  with assms(3) [OF 2(2) [OF assms(2)]] show ?thesis using on_pod_call [OF assms(1)] on_pod_dropped [OF assms(1)] assms(1) by simp
next
  case (3 eid n pa)
  with assms(3) [OF 3(2) [OF assms(2)]] show ?thesis using on_pod_call [OF assms(1)] on_pod_dropped [OF assms(1)] assms(1) by simp
qed (use assms(1) in simp)

lemma owed_calls:
  assumes "spec_step g (cl, r) g'" and "\<And>a. a \<in> set xs \<Longrightarrow> \<exists>cl0. stage own cl0 a"
    and "\<And>eid n pa. own eid n pa \<Longrightarrow> look' eid n = Inr pa \<longleftrightarrow> look eid n = Inr pa \<and> \<not> drops cl g' eid n"
  shows "spec_step (fold (owed look) xs g) (cl, r) (fold (owed look') xs g')"
  using assms
proof (induction xs arbitrary: g g')
  case (Cons a xs)
  obtain cl0 where "stage own cl0 a" using Cons.prems(2) by auto
  note 1 = owed_call [OF Cons.prems(1) this Cons.prems(3)]
  have "drops cl (owed look' a g') eid n = drops cl g' eid n" for eid n by (rule drops_cong) simp
  then show ?case using Cons.IH [OF 1] Cons.prems(2,3) by simp
qed simp

section \<open>One step\<close>

lemma owned_cong: "heap_ex c' = heap_ex c \<Longrightarrow> length (heap_pod c') = length (heap_pod c) \<Longrightarrow> owned c' = owned c"
  by (simp add: owned_def fun_eq_iff)

text \<open>A write to an object that has been looked up changes its pod, or what nobody can reach.\<close>

lemma write_owned:
  assumes "heap_ok c" and o: "owned c eid n pa"
    and "executions c' = executions c" "heap_ex c' = heap_ex c" "nodes c' = nodes c" "ctl_config c' = ctl_config c"
    and "heap_pod c' = (heap_pod c)[pa := q]" and "pod_view q = f (pod_view (heap_pod c ! pa))" "pod_node q = pod_node (heap_pod c ! pa)"
  shows "registry_of c' = (if podForID c eid n = Inr pa then on_pod f eid n (registry_of c) else registry_of c)"
    "heap_ok c'" "podForID c' = podForID c" "owned c' = owned c"
proof -
  show "registry_of c' = (if podForID c eid n = Inr pa then on_pod f eid n (registry_of c) else registry_of c)"
  proof (cases "podForID c eid n = Inr pa")
    case True
    have "registry_of c' = on_pod f eid n (registry_of c)"
      by (rule registry_of_pod [where f = f and q = q, OF assms(1) True]) (rule assms)+
    with True show ?thesis by simp
  next
    case False
    have "ex_pods (heap_ex c ! e) m \<noteq> Some pa" if "executions c i = Some e" for i e m
      using heap_ok_execution [OF assms(1) that] o False that by (auto simp: owned_def podForID_Inr)
    then have "pods_view c' e m = pods_view c e m" if "executions c i = Some e" for i e m
      by (cases "ex_pods (heap_ex c ! e) m"; cases "ex_pods (heap_ex c ! e) m = Some pa")
        (use that in \<open>simp_all add: pods_view_def assms(4,7) nth_list_update_neq\<close>)
    then have "pods_view c' e = pods_view c e" if "executions c i = Some e" for i e using that by blast
    then have "map_option (pods_view c') (executions c i) = map_option (pods_view c) (executions c i)" for i
      by (cases "executions c i") simp_all
    then show ?thesis using False assms(3,5,6) by (intro registry_eqI) simp_all
  qed
  show "heap_ok c'" by (rule heap_ok_cong [OF assms(1)]) (use assms(3,4,7,9) in \<open>auto simp: nth_upd\<close>)
  show "podForID c' = podForID c" by (rule podForID_cong [OF assms(3,4)])
  show "owned c' = owned c" by (rule owned_cong) (simp_all add: assms)
qed

text \<open>A step of a callback keeps what it owes together with the registry, or is the moment it takes effect.\<close>

definition quiet :: "call \<Rightarrow> 'g controller \<Rightarrow> act \<Rightarrow> 'g controller \<Rightarrow> act \<Rightarrow> bool" where
  "quiet cl c a c' a' \<longleftrightarrow> settled cl a' = settled cl a
     \<and> owed (podForID c) a' (registry_of c') = owed (podForID c) a (registry_of c)"

definition effective :: "call \<Rightarrow> 'g controller \<Rightarrow> act \<Rightarrow> 'g controller \<Rightarrow> act \<Rightarrow> bool" where
  "effective cl c a c' a' \<longleftrightarrow> settled cl a = None \<and> owed (podForID c) a (registry_of c) = registry_of c
     \<and> (\<exists>r. settled cl a' = Some r \<and> spec_step (registry_of c) (cl, r) (owed (podForID c) a' (registry_of c')))"

lemma act_step_effect:
  assumes "heap_ok c" and "stage (owned c) cl a" and "act_step gv a c = Ret (a', c')"
  shows "heap_ok c' \<and> podForID c' = podForID c \<and> owned c' = owned c \<and> stage (owned c) cl a'
    \<and> (quiet cl c a c' a' \<or> effective cl c a c' a')"
proof -
  have m: "owned (c\<lparr>prom := pr\<rparr>) = owned c" for pr by (rule owned_cong) simp_all
  note w = write_metrics [OF assms(1)] m
  show ?thesis
  proof (cases a)
    case (ARecord t eid n b rs)
    show ?thesis
    proof (cases rs)
      case Nil
      then show ?thesis using assms ARecord by (cases cl) (auto simp: quiet_def)
    next
      case (Cons x rs')
      obtain k rr where "x = (k, rr)" by fastforce
      then show ?thesis using assms ARecord Cons w by (cases cl; cases rr) (auto simp: quiet_def)
    qed
  next
    case (AFlag t eid n b)
    then show ?thesis using assms w by (cases cl) (auto simp: quiet_def)
  next
    case (AMark t eid n)
    then show ?thesis using assms on_pod_unknown [of c eid n] lookup_owned [OF assms(1)]
      by (cases cl) (auto simp: effective_def split: sum.splits)
  next
    case (AMarkPod t eid n pa)
    then have o: "owned c eid n pa" using assms(2) by (cases cl) auto
    have c': "c' = upd_pod pa (\<lambda>p. p\<lparr>reportReceived := Some t, status := ''ReportReceived''\<rparr>) c" "a' = ADone None"
      using assms(3) AMarkPod by simp_all
    have "registry_of c' = owed (podForID c) a (registry_of c)" "heap_ok c'" "podForID c' = podForID c" "owned c' = owned c"
      unfolding AMarkPod owed.simps
      by (rule write_owned [OF assms(1) o, where q = "(heap_pod c ! pa)\<lparr>reportReceived := Some t, status := ''ReportReceived''\<rparr>"];
          simp add: c' upd_pod_def pod_view_def)+
    then show ?thesis using assms(2) AMarkPod c' by (cases cl) (auto simp: quiet_def)
  next
    case (ATerm t eid n ph)
    show ?thesis
    proof (cases "podForID c eid n")
      case (Inl x)
      then show ?thesis using assms ATerm on_pod_unknown [of c eid n] by (cases cl) (auto simp: effective_def unknown_registry)
    next
      case (Inr pa)
      have "registry_of c = on_pod (ps_terminated_update (\<lambda>_. True)) eid n (registry_of c)" if "terminated (heap_pod c ! pa) \<noteq> None"
        by (rule registry_of_pod [OF assms(1) Inr, where q = "heap_pod c ! pa"]) (use that in \<open>simp_all add: pod_view_def\<close>)
      then show ?thesis using assms ATerm Inr lookup_owned [OF assms(1) Inr]
        by (cases cl) (auto simp: effective_def unknown_registry split: if_splits)
    qed
  next
    case (ATermPod t eid n ph pa)
    then have o: "owned c eid n pa" using assms(2) by (cases cl) auto
    have c': "c' = upd_pod pa (\<lambda>p. p\<lparr>terminated := Some t, status := ph\<rparr>) (addProgress 1 c)" "a' = ADuration t eid n ph pa"
      using assms(3) ATermPod by simp_all
    have "registry_of c' = owed (podForID c) a (registry_of c)" "heap_ok c'" "podForID c' = podForID c" "owned c' = owned c"
      unfolding ATermPod owed.simps
      by (rule write_owned [OF assms(1) o, where q = "(heap_pod c ! pa)\<lparr>terminated := Some t, status := ph\<rparr>"];
          simp add: c' upd_pod_def pod_view_def)+
    then show ?thesis using assms(2) ATermPod c' by (cases cl) (auto simp: quiet_def)
  next
    case (ADuration t eid n ph pa)
    then show ?thesis using assms w by (cases cl) (auto simp: quiet_def)
  next
    case (AJudge eid n ph pa)
    then show ?thesis using assms by (cases cl) (auto simp: quiet_def split: if_splits)
  next
    case (AFlagError eid n)
    then show ?thesis using assms w by (cases cl) (auto simp: quiet_def)
  qed (use assms in \<open>cases cl; auto simp: quiet_def\<close>)
qed

text \<open>The calls in progress, and the registry as if each of them had finished what it owes.\<close>

definition in_progress :: "call list \<Rightarrow> act list \<times> 'g controller \<times> fs \<Rightarrow> bool" where
  "in_progress cls x \<longleftrightarrow> heap_ok (fst (snd x)) \<and> length (fst x) = length cls
     \<and> (\<forall>i < length cls. stage (owned (fst (snd x))) (cls ! i) (fst x ! i))"

definition seen :: "act list \<times> 'g controller \<times> fs \<Rightarrow> registry" where
  "seen x = fold (owed (podForID (fst (snd x)))) (fst x) (registry_of (fst (snd x)))"

lemma owed_fold: "i < length xs \<Longrightarrow>
    fold (owed look) xs g = fold (owed look) (take i xs @ drop (Suc i) xs) (owed look (xs ! i) g)"
proof -
  assume i: "i < length xs"
  have "fold (owed look) xs g = fold (owed look) (drop (Suc i) xs) (owed look (xs ! i) (fold (owed look) (take i xs) g))"
    by (subst id_take_nth_drop [OF i]) simp
  also have "owed look (xs ! i) (fold (owed look) (take i xs) g) = fold (owed look) (take i xs) (owed look (xs ! i) g)"
    by (rule fold_commute_apply) (simp add: fun_eq_iff owed_commute)
  finally show ?thesis by simp
qed

lemma in_progress_stage:
  assumes "in_progress cls x" and "a \<in> set (fst x)"
  shows "\<exists>cl. stage (owned (fst (snd x))) cl a"
  using assms by (auto simp: in_progress_def in_set_conv_nth)

lemma callback_step:
  assumes ok: "in_progress cls x" and st: "calls_step gv sortf x (Inl i) x'"
  shows "in_progress cls x' \<and> (\<forall>j. j \<noteq> i \<longrightarrow> fst x' ! j = fst x ! j) \<and> i < length cls
    \<and> (settled (cls ! i) (fst x' ! i) = settled (cls ! i) (fst x ! i) \<and> seen x' = seen x
       \<or> settled (cls ! i) (fst x ! i) = None
         \<and> (\<exists>r. settled (cls ! i) (fst x' ! i) = Some r \<and> spec_step (seen x) (cls ! i, r) (seen x')))"
proof -
  obtain xs c s where x: "x = (xs, c, s)" by (metis surj_pair)
  obtain xs' c' s' where x': "x' = (xs', c', s')" by (metis surj_pair)
  let ?L = "podForID c" and ?cl = "cls ! i"
  obtain a' where a: "i < length xs" "act_step gv (xs ! i) c = Ret (a', c')" "xs' = xs[i := a']"
    using st by (auto simp: calls_step_def acts_step_def x x')
  have ok: "heap_ok c" "length xs = length cls" "\<And>j. j < length cls \<Longrightarrow> stage (owned c) (cls ! j) (xs ! j)"
    using ok by (simp_all add: in_progress_def x)
  have "stage (owned c) ?cl (xs ! i)" using ok(2,3) a(1) by simp
  note e = act_step_effect [OF ok(1) this a(2)]
  have n: "fst x' ! i = a'" using a by (simp add: x')
  let ?rest = "take i xs @ drop (Suc i) xs"
  have f: "seen x = fold (owed ?L) ?rest (owed ?L (xs ! i) (registry_of c))" "seen x' = fold (owed ?L) ?rest (owed ?L a' (registry_of c'))"
    using a(1) e by (simp_all add: seen_def x x' a(3) owed_fold [of i])
  have "in_progress cls x'" using e ok a(1) by (auto simp: in_progress_def x' a(3) nth_list_update)
  moreover have "fst x' ! j = fst x ! j" if "j \<noteq> i" for j using that by (simp add: x x' a(3))
  moreover have "settled ?cl a' = settled ?cl (xs ! i) \<and> seen x' = seen x
       \<or> settled ?cl (xs ! i) = None \<and> (\<exists>r. settled ?cl a' = Some r \<and> spec_step (seen x) (?cl, r) (seen x'))"
  proof (cases "quiet ?cl c (xs ! i) c' a'")
    case False
    then obtain r where r: "settled ?cl (xs ! i) = None" "settled ?cl a' = Some r"
      "owed ?L (xs ! i) (registry_of c) = registry_of c" "spec_step (registry_of c) (?cl, r) (owed ?L a' (registry_of c'))"
      using e by (auto simp: effective_def)
    have "\<not> drops ?cl g eid n" for g eid n using settled_callback [OF r(2)] by (cases ?cl) simp_all
    moreover have "\<exists>cl0. stage (owned c) cl0 b" if "b \<in> set ?rest" for b
      using in_progress_stage [OF assms(1), of b] that by (auto simp: x dest: in_set_takeD in_set_dropD)
    ultimately have "spec_step (seen x) (?cl, r) (seen x')" unfolding f r(3)
      by (intro owed_calls [OF r(4), where own = "owned c"]) auto
    with r show ?thesis by simp
  qed (use f in \<open>simp add: quiet_def\<close>)
  ultimately show ?thesis using a(1) ok(2) n by (simp add: x)
qed

lemma other_step:
  assumes ok: "in_progress cls x" and st: "calls_step gv sortf x (Inr k) x'"
  shows "in_progress cls x' \<and> fst x' = fst x \<and> spec_step (seen x) k (seen x')"
proof -
  obtain xs c s where x: "x = (xs, c, s)" by (metis surj_pair)
  obtain c' s' where x': "x' = (xs, c', s')" using st by (cases x') (auto simp: calls_step_def x)
  obtain cl r where k: "k = (cl, r)" by fastforce
  have ok: "heap_ok c" "length xs = length cls" "\<And>j. j < length cls \<Longrightarrow> stage (owned c) (cls ! j) (xs ! j)"
    using assms(1) by (simp_all add: in_progress_def x)
  have call: "exec_call gv sortf cl (c, s) = Ret ((c', s'), r)" using st by (simp add: calls_step_def call_step_def x x' k)
  note g = exec_call_registry [OF ok(1) call] and m = exec_call_moves [OF ok(1) call]
  have "spec_step (seen x) (cl, r) (seen x')" unfolding seen_def x x' fst_conv snd_conv
  proof (rule owed_calls [where own = "owned c"])
    show "spec_step (registry_of c) (cl, r) (registry_of c')" using g by simp
    show "\<exists>cl0. stage (owned c) cl0 a" if "a \<in> set xs" for a using in_progress_stage [OF assms(1)] that by (simp add: x)
    show "podForID c' eid n = Inr pa \<longleftrightarrow> podForID c eid n = Inr pa \<and> \<not> drops cl (registry_of c') eid n"
      if "owned c eid n pa" for eid n pa using m that by (simp add: moves_def owned_def)
  qed
  moreover have "stage (owned c') (cls ! j) (xs ! j)" if "j < length cls" for j
    using ok(3) [OF that] moves_owned [OF m] by (rule stage_mono)
  ultimately show ?thesis using g ok(2) by (simp add: in_progress_def x x' k)
qed

section \<open>Runs\<close>

lemma count_effects_Nil [simp]: "count_effects i [] [] = 0"
  by (simp add: count_effects_def)

lemma count_effects_Cons [simp]:
  "count_effects i (l # ls) (h # hs) = (if l = Inl i \<and> h \<noteq> [] then Suc (count_effects i ls hs) else count_effects i ls hs)"
  by (simp add: count_effects_def)

text \<open>The history of a run: which calls took effect in which step, from any state of the calls to any other.\<close>

definition explains :: "call list \<Rightarrow> act list \<Rightarrow> (nat + call \<times> reply) list \<Rightarrow> act list \<Rightarrow> (call \<times> reply) list list \<Rightarrow> bool" where
  "explains cls xs ls xs' hs \<longleftrightarrow>
     list_all2 (\<lambda>l h. case l of Inl i \<Rightarrow> h = [] \<or> (i < length cls \<and> (\<exists>r. settled (cls ! i) (xs' ! i) = Some r \<and> h = [(cls ! i, r)]))
       | Inr k \<Rightarrow> h = [k]) ls hs
   \<and> (\<forall>i < length cls. if settled (cls ! i) (xs ! i) = None
        then count_effects i ls hs = (if settled (cls ! i) (xs' ! i) = None then 0 else 1)
        else count_effects i ls hs = 0 \<and> settled (cls ! i) (xs' ! i) = settled (cls ! i) (xs ! i))"

lemma explains_quiet:
  assumes "explains cls xs1 ls xs' hs" and "\<And>j. settled (cls ! j) (xs1 ! j) = settled (cls ! j) (xs ! j)"
  shows "explains cls xs (Inl i # ls) xs' ([] # hs)"
  using assms by (simp add: explains_def)

lemma explains_effect:
  assumes e: "explains cls xs1 ls xs' hs" and i: "i < length cls" and "settled (cls ! i) (xs ! i) = None"
    and r: "settled (cls ! i) (xs1 ! i) = Some r" and "\<And>j. j \<noteq> i \<Longrightarrow> xs1 ! j = xs ! j"
  shows "explains cls xs (Inl i # ls) xs' ([(cls ! i, r)] # hs)"
  unfolding explains_def
proof (intro conjI allI impI)
  have "settled (cls ! i) (xs' ! i) = Some r \<and> count_effects i ls hs = 0"
    using e i r unfolding explains_def by (metis option.distinct(1))
  note c = this
  show "list_all2 (\<lambda>l h. case l of Inl i \<Rightarrow> h = [] \<or> (i < length cls \<and> (\<exists>r. settled (cls ! i) (xs' ! i) = Some r \<and> h = [(cls ! i, r)]))
      | Inr k \<Rightarrow> h = [k]) (Inl i # ls) ([(cls ! i, r)] # hs)"
    using e i c by (simp add: explains_def)
  fix j
  assume "j < length cls"
  then have "if settled (cls ! j) (xs1 ! j) = None
      then count_effects j ls hs = (if settled (cls ! j) (xs' ! j) = None then 0 else 1)
      else count_effects j ls hs = 0 \<and> settled (cls ! j) (xs' ! j) = settled (cls ! j) (xs1 ! j)"
    using e unfolding explains_def by blast
  then show "if settled (cls ! j) (xs ! j) = None
      then count_effects j (Inl i # ls) ([(cls ! i, r)] # hs) = (if settled (cls ! j) (xs' ! j) = None then 0 else 1)
      else count_effects j (Inl i # ls) ([(cls ! i, r)] # hs) = 0 \<and> settled (cls ! j) (xs' ! j) = settled (cls ! j) (xs ! j)"
    using assms(3,5) c by (cases "j = i") simp_all
qed

lemma explains_other: "explains cls xs ls xs' hs \<Longrightarrow> explains cls xs (Inr k # ls) xs' ([k] # hs)"
  by (simp add: explains_def)

lemma calls_history:
  assumes "trace (calls_step gv sortf) x ls x'" and "in_progress cls x"
  shows "\<exists>hs. trace spec_step (seen x) (concat hs) (seen x') \<and> explains cls (fst x) ls (fst x') hs"
  using assms
proof (induction rule: trace.induct)
  case (trace_Nil x)
  show ?case by (intro exI [of _ "[]"]) (simp add: trace.trace_Nil explains_def)
next
  case (trace_Cons x l x1 ls x')
  show ?case
  proof (cases l)
    case (Inl i)
    note s = callback_step [OF trace_Cons.prems trace_Cons.hyps(1) [unfolded Inl]]
    obtain hs where hs: "trace spec_step (seen x1) (concat hs) (seen x')" "explains cls (fst x1) ls (fst x') hs"
      using trace_Cons.IH s by blast
    from s consider "\<And>j. settled (cls ! j) (fst x1 ! j) = settled (cls ! j) (fst x ! j)" "seen x1 = seen x"
      | r where "settled (cls ! i) (fst x ! i) = None" "settled (cls ! i) (fst x1 ! i) = Some r" "spec_step (seen x) (cls ! i, r) (seen x1)"
      by metis
    then show ?thesis
    proof cases
      case 1
      from explains_quiet [OF hs(2) 1(1)] hs(1) 1(2) Inl show ?thesis by (intro exI [of _ "[] # hs"]) simp
    next
      case 2
      have "explains cls (fst x) (l # ls) (fst x') ([(cls ! i, r)] # hs)"
        using explains_effect [OF hs(2) _ 2(1,2)] s Inl by blast
      then show ?thesis using trace.trace_Cons [OF 2(3) hs(1)] by (intro exI [of _ "[(cls ! i, r)] # hs"]) simp
    qed
  next
    case (Inr k)
    note s = other_step [OF trace_Cons.prems trace_Cons.hyps(1) [unfolded Inr]]
    then obtain hs where hs: "trace spec_step (seen x1) (concat hs) (seen x')" "explains cls (fst x) ls (fst x') hs"
      using trace_Cons.IH by auto
    have "trace spec_step (seen x) (concat ([k] # hs)) (seen x')" using s hs(1) by (auto intro: trace.trace_Cons)
    with explains_other [OF hs(2), of k] Inr show ?thesis by blast
  qed
qed

lemma calls_length: "trace (calls_step gv sortf) x ls x' \<Longrightarrow> length (fst x') = length (fst x)"
  by (induction rule: trace.induct) (auto simp: calls_step_def acts_step_def split: sum.splits)

text \<open>
  C8. Concurrent calls are linearizable. Let any number of reports and terminations, for the same or
  different pods, run statement by statement in any order, and let any other calls on the
  controller and turns of its workers happen between their steps. When all of them have returned, there is
  an order of all the calls, with these replies, that the specification allows and that leads to the
  registry the controller has: each callback took effect at one of its own steps, each other
  call at its step, so a call that returned before another began comes first.
\<close>

theorem calls_linearizable:
  assumes "heap_ok c" and "list_all callback cls"
    and "trace (calls_step gv sortf) (map enter cls, c, s) ls (xs, c', s')" and "map2 returned cls xs = map Some rs"
  shows "\<exists>hs. trace spec_step (registry_of c) (concat hs) (registry_of c') \<and> takes_effect cls rs ls hs"
proof -
  let ?x = "(map enter cls, c, s)" and ?x' = "(xs, c', s')"
  have st: "stage (owned c) (cls ! i) (enter (cls ! i)) \<and> settled (cls ! i) (enter (cls ! i)) = None
      \<and> owed look (enter (cls ! i)) g = g" if "i < length cls" for i look g
    using assms(2) that by (cases "cls ! i") (auto simp: list_all_length)
  then have ip: "in_progress cls ?x" using assms(1) by (simp add: in_progress_def)
  obtain hs where hs: "trace spec_step (seen ?x) (concat hs) (seen ?x')" "explains cls (map enter cls) ls xs hs"
    using calls_history [OF assms(3) ip] by auto
  have len: "length xs = length cls" using calls_length [OF assms(3)] by simp
  then have lr: "length rs = length cls" using arg_cong [OF assms(4), of length] by simp
  have ret: "returned (cls ! i) (xs ! i) = Some (rs ! i)" if "i < length cls" for i
    using arg_cong [OF assms(4), of "\<lambda>ys. ys ! i"] that len lr by simp
  then have set: "settled (cls ! i) (xs ! i) = Some (rs ! i) \<and> owed look (xs ! i) g = g" if "i < length cls" for i look g
    using settled_returned that by blast
  have none: "fold (owed look) ys g = g" if "\<And>i. i < length ys \<Longrightarrow> owed look (ys ! i) = (\<lambda>g. g)" for look ys g
  proof -
    have "owed look a = (\<lambda>g. g)" if "a \<in> set ys" for a using that \<open>\<And>i. i < length ys \<Longrightarrow> _\<close> by (auto simp: in_set_conv_nth)
    then show ?thesis by (induction ys) simp_all
  qed
  have "seen ?x = registry_of c" "seen ?x' = registry_of c'"
    unfolding seen_def fst_conv snd_conv using st set len by (auto intro!: none simp: fun_eq_iff)
  moreover have "takes_effect cls rs ls hs"
    unfolding takes_effect_def
  proof (intro conjI allI impI)
    show "list_all2 (\<lambda>l h. case l of Inl i \<Rightarrow> h = [] \<or> h = [(cls ! i, rs ! i)] | Inr k \<Rightarrow> h = [k]) ls hs"
      using hs(2) unfolding explains_def by (elim conjE list_all2_mono) (auto simp: set split: sum.splits)
    show "count_effects i ls hs = 1" if "i < length cls" for i
      using hs(2) st [OF that] set [OF that] that by (simp add: explains_def)
  qed
  ultimately show ?thesis using hs(1) by auto
qed

lemma acts_calls:
  "trace (acts_step gv) x ks x' \<Longrightarrow> trace (calls_step gv sortf) (fst x, snd x, s) (map Inl ks) (fst x', snd x', s)"
proof (induction rule: trace.induct)
  case (trace_Cons x k x1 ks x')
  have "calls_step gv sortf (fst x, snd x, s) (Inl k) (fst x1, snd x1, s)" using trace_Cons.hyps(1) by (simp add: calls_step_def)
  then show ?case using trace_Cons.IH by (auto intro: trace.trace_Cons)
qed (simp add: trace.trace_Nil)

theorem calls_linearizable_witness:
  "\<exists>r ks c' hs. trace (calls_step map_gauge_vec by_mtime) (map enter sample_callbacks, started_controller sample_cfg, sample_fs)
      (Inr (CHas ''n1'' ''e1'', r) # map Inl ks) ([ADone None, ADone None], c', sample_fs)
    \<and> trace spec_step (registry_of (started_controller sample_cfg)) (concat hs) (registry_of c')
    \<and> takes_effect sample_callbacks [RNone, RErr None] (Inr (CHas ''n1'' ''e1'', r) # map Inl ks) hs"
proof -
  let ?c = "started_controller sample_cfg" and ?r = "RBool (Has (started_controller sample_cfg) ''n1'' ''e1'')"
  obtain p2 c2 where r: "record_results map_gauge_vec ''e1'' ''n1'' [] (prom ?c) = Ret (prom ?c)"
    "ProcessingFinished map_gauge_vec (prom ?c) ''n1'' ''e1'' False = Ret p2"
    "PodTerminated map_gauge_vec 9 (?c\<lparr>prom := p2\<rparr>) ''e1'' ''n1'' PodSucceeded = Ret (c2, None)"
    by (rule sample_overtaken)
  obtain ks c' where "trace (acts_step map_gauge_vec) (map enter sample_callbacks, ?c) ks ([ADone None, ADone None], c')"
    using overtaken_run [OF started_podForID r, of 8] unfolding sample_callbacks_def list.map enter.simps by blast
  from acts_calls [OF this, of by_mtime sample_fs]
  have "trace (calls_step map_gauge_vec by_mtime) (map enter sample_callbacks, ?c, sample_fs) (map Inl ks)
      ([ADone None, ADone None], c', sample_fs)" by simp
  moreover have "calls_step map_gauge_vec by_mtime (map enter sample_callbacks, ?c, sample_fs) (Inr (CHas ''n1'' ''e1'', ?r))
      (map enter sample_callbacks, ?c, sample_fs)" by (simp add: calls_step_def call_step_def)
  ultimately have t: "trace (calls_step map_gauge_vec by_mtime) (map enter sample_callbacks, ?c, sample_fs)
      (Inr (CHas ''n1'' ''e1'', ?r) # map Inl ks) ([ADone None, ADone None], c', sample_fs)" by (rule trace_Cons [rotated])
  have "list_all callback sample_callbacks" "map2 returned sample_callbacks [ADone None, ADone None] = map Some [RNone, RErr None]"
    by (simp_all add: sample_callbacks_def)
  from calls_linearizable [OF started_controller_ok this(1) t this(2)] t show ?thesis by blast
qed

end
