(* ===== verification/Calendar.thy ===== *)
theory Calendar
  imports Execution_Properties
begin

text \<open>
  The order of executions. Identifiers are the minute of the start, written so that they sort as
  the minutes do, as strings and as the value of the metric that shows the current one.
\<close>

section \<open>Minutes in order\<close>

text \<open>Calendar times are ordered by year, month, day, hour and minute.\<close>

definition civil_key :: "'a civil_scheme \<Rightarrow> nat list" where
  "civil_key w = [c_year w, c_month w, c_day w, c_hour w, c_minute w]"

instantiation civil_ext :: (linorder) linorder
begin

definition less_civil_ext :: "'a civil_scheme \<Rightarrow> 'a civil_scheme \<Rightarrow> bool" where
  "v < w \<longleftrightarrow> civil_key v < civil_key w \<or> civil_key v = civil_key w \<and> civil.more v < civil.more w"

definition less_eq_civil_ext :: "'a civil_scheme \<Rightarrow> 'a civil_scheme \<Rightarrow> bool" where
  "v \<le> w \<longleftrightarrow> civil_key v < civil_key w \<or> civil_key v = civil_key w \<and> civil.more v \<le> civil.more w"

instance
proof
  fix u v w :: "'a civil_scheme"
  show "v < w \<longleftrightarrow> v \<le> w \<and> \<not> w \<le> v" by (auto simp: less_civil_ext_def less_eq_civil_ext_def)
  show "v \<le> v" by (simp add: less_eq_civil_ext_def)
  show "u \<le> v \<Longrightarrow> v \<le> w \<Longrightarrow> u \<le> w" by (auto simp: less_eq_civil_ext_def)
  show "v \<le> w \<Longrightarrow> w \<le> v \<Longrightarrow> v = w"
    by (auto simp: less_eq_civil_ext_def civil_key_def intro: civil.equality)
  show "v \<le> w \<or> w \<le> v" by (auto simp: less_eq_civil_ext_def)
qed

end

section \<open>Digits in order\<close>

lemma foldl_digits: "foldl (\<lambda>n c. 10 * n + char_digit c) a s = a * 10 ^ length s + str_nat s"
  unfolding str_nat_def
proof (induction s arbitrary: a)
  case (Cons c s)
  show ?case unfolding foldl.simps Cons [of "10 * a + char_digit c"] Cons [of "10 * 0 + char_digit c"] by (simp add: algebra_simps)
qed simp

lemma str_nat_append: "str_nat (s @ t) = str_nat s * 10 ^ length t + str_nat t"
  using foldl_digits [of "str_nat s" t] by (simp add: str_nat_def)

lemma str_nat_Cons: "str_nat (c # s) = char_digit c * 10 ^ length s + str_nat s"
  using foldl_digits [of "char_digit c" s] by (simp add: str_nat_def)

lemma str_nat_less: "list_all is_digit s \<Longrightarrow> str_nat s < 10 ^ length s"
proof (induction s)
  case (Cons c s)
  then have "of_char c \<le> (57 :: nat)" "str_nat s < 10 ^ length s" by (simp_all add: is_digit_def)
  then have "char_digit c \<le> 9" "str_nat s < 10 ^ length s" unfolding char_digit_def by linarith+
  then have "char_digit c * 10 ^ length s + str_nat s < 9 * 10 ^ length s + 10 ^ length s"
    by (intro add_le_less_mono mult_right_mono) simp_all
  then show ?case by (simp add: str_nat_Cons)
qed simp

lemma mult_add_less: "b < k \<Longrightarrow> d < k \<Longrightarrow> a * k + b < c * k + d \<longleftrightarrow> a < c \<or> a = c \<and> b < d" for a b c d k :: nat
proof (cases a c rule: linorder_cases)
  case less
  assume "b < k"
  have "a * k + b < Suc a * k" using \<open>b < k\<close> by simp
  also have "\<dots> \<le> c * k" using less by (intro mult_le_mono1) simp
  finally show ?thesis using less by simp
next
  case greater
  assume "d < k"
  have "c * k + d < Suc c * k" using \<open>d < k\<close> by simp
  also have "\<dots> \<le> a * k" using greater by (intro mult_le_mono1) simp
  finally show ?thesis using greater by simp
qed simp

text \<open>Strings of as many digits are in the order of their values.\<close>

lemma digits_less:
  "length s = length t \<Longrightarrow> list_all is_digit s \<Longrightarrow> list_all is_digit t \<Longrightarrow> s < t \<longleftrightarrow> str_nat s < str_nat t"
proof (induction s t rule: list_induct2)
  case (Cons c s d t)
  have cd: "48 \<le> (of_char c :: nat)" "48 \<le> (of_char d :: nat)" using Cons.prems by (simp_all add: is_digit_def)
  have "c < d \<longleftrightarrow> char_digit c < char_digit d" using cd by (auto simp: char_digit_def less_char_def)
  moreover have "c = d \<longleftrightarrow> char_digit c = char_digit d"
  proof
    assume "char_digit c = char_digit d"
    then have "(of_char c :: nat) = of_char d" using cd unfolding char_digit_def by linarith
    then show "c = d" by simp
  qed simp
  moreover have "str_nat s < 10 ^ length t" "str_nat t < 10 ^ length t"
    using Cons.prems Cons.hyps str_nat_less [of s] str_nat_less [of t] by simp_all
  ultimately show ?case using Cons by (simp add: str_nat_Cons mult_add_less)
qed simp

lemma str_nat_id:
  assumes "valid_civil w"
  shows "str_nat (time_Format_id w) =
    (((c_year w * 100 + c_month w) * 100 + c_day w) * 100 + c_hour w) * 100 + c_minute w"
  using assms by (simp add: time_Format_id_def str_nat_append str_nat_pad valid_civil_def)

lemma id_order:
  assumes "valid_civil v" and "valid_civil w"
  shows "time_Format_id v < time_Format_id w \<longleftrightarrow> v < w" and "str_nat (time_Format_id v) < str_nat (time_Format_id w) \<longleftrightarrow> v < w"
proof -
  show n: "str_nat (time_Format_id v) < str_nat (time_Format_id w) \<longleftrightarrow> v < w"
    using assms unfolding str_nat_id [OF assms(1)] str_nat_id [OF assms(2)] less_civil_ext_def civil_key_def valid_civil_def
    by (auto simp: mult_add_less)
  show "time_Format_id v < time_Format_id w \<longleftrightarrow> v < w"
    unfolding n [symmetric] by (rule digits_less) (auto simp: list_all_iff dest: time_Format_id_digits)
qed

section \<open>The metric of the current execution\<close>

text \<open>Integers below \<open>2^53\<close> are exact in \<open>float64\<close>.\<close>

lemma f_of_int_exact:
  assumes "0 \<le> i" and "i < 2 ^ 53"
  shows "f_of_int i = Fin (of_int i)"
proof (cases "i = 0")
  case True
  then show ?thesis by (simp add: f_of_int_def f_round_def rnd64_def)
next
  case False
  let ?x = "of_int i :: rat"
  have x: "0 < ?x" "?x < 2 ^ 53" using assms False by simp_all
  have "pow2 (ilog2 ?x) \<le> ?x" by (rule pow2_ilog2(1) [OF x(1)])
  then have l: "ilog2 ?x < 53" using pow2_mono [of 53 "ilog2 ?x"] x(2) by (fastforce simp: pow2_def)
  obtain k where u: "ulp ?x = 1 / 2 ^ k"
  proof
    have "max (ilog2 ?x - 52) (- 1074) \<le> 0" using l by simp
    then show "ulp ?x = 1 / 2 ^ nat (- max (ilog2 ?x - 52) (- 1074))"
      using x(1) by (auto simp: ulp_def pow2_def max_def)
  qed
  have "?x / ulp ?x = of_int (i * 2 ^ k)" by (simp add: u)
  then have "rnd64 ?x = ?x" using round_half_even_near [of "?x / ulp ?x" "i * 2 ^ k"] x(1) u by (simp add: rnd64_def)
  moreover have "?x < 2 ^ 1024" using x(2) by (rule less_trans) simp
  moreover have "\<not> ?x \<le> - (2 ^ 1024)"
  proof -
    have "- (2 ^ 1024 :: rat) < 0" by simp
    then show ?thesis using x(1) by linarith
  qed
  ultimately show ?thesis by (simp add: f_of_int_def f_round_def Let_def)
qed

text \<open>
  Executions are in order. Of two executions the one started in the earlier minute has the
  smaller identifier, as a string, and as the value of the metric that shows the current execution,
  which is exact: the identifier read as a number.
\<close>

theorem execution_order:
  assumes "NewExecution gv w clk c s jobs = Ret (eid, c1, s1)" and "NewExecution gv w' clk' c' s' jobs' = Ret (eid', c2, s2)"
    and "valid_civil (wall clk)" and "valid_civil (wall clk')"
  shows "(eid < eid' \<longleftrightarrow> wall clk < wall clk')
    \<and> (\<exists>x x'. strconv_ParseFloat eid = Some (Fin (of_nat x)) \<and> strconv_ParseFloat eid' = Some (Fin (of_nat x'))
         \<and> (x < x' \<longleftrightarrow> wall clk < wall clk'))"
proof -
  have e: "eid = time_Format_id (wall clk)" "eid' = time_Format_id (wall clk')"
    using assms(1,2) by (auto elim: NewExecution_cases)
  have p: "strconv_ParseFloat (time_Format_id v) = Some (Fin (of_nat (str_nat (time_Format_id v))))" for v
  proof -
    have d: "list_all is_digit (time_Format_id v)" "time_Format_id v \<noteq> []"
      using time_Format_id_length [of v] by (auto simp: list_all_iff simp del: time_Format_id_length dest: time_Format_id_digits)
    then have "int (str_nat (time_Format_id v)) < 2 ^ 53" using str_nat_less [of "time_Format_id v"] by simp
    then show ?thesis using d f_of_int_exact [of "int (str_nat (time_Format_id v))"] by (simp add: strconv_ParseFloat_def)
  qed
  show ?thesis
    unfolding e p using id_order [OF assms(3,4)] by (intro conjI exI [of _ "str_nat (time_Format_id (wall clk))"]
        exI [of _ "str_nat (time_Format_id (wall clk'))"]) simp_all
qed

theorem execution_order_witness:
  "\<exists>eid c1 s1 eid' c2 s2. NewExecution map_gauge_vec False sample_clock (sample_controller sample_cfg) sample_fs 3 = Ret (eid, c1, s1)
    \<and> NewExecution map_gauge_vec False (sample_clock\<lparr>wall := (wall sample_clock)\<lparr>c_minute := 31\<rparr>\<rparr>)
        (sample_controller sample_cfg) sample_fs 3 = Ret (eid', c2, s2)
    \<and> eid < eid'"
proof -
  let ?clk' = "sample_clock\<lparr>wall := (wall sample_clock)\<lparr>c_minute := 31\<rparr>\<rparr>"
  obtain eid c1 s1 where r: "NewExecution map_gauge_vec False sample_clock (sample_controller sample_cfg) sample_fs 3 = Ret (eid, c1, s1)"
    using sample_NewExecution by blast
  obtain eid' c2 s2 where r': "NewExecution map_gauge_vec False ?clk' (sample_controller sample_cfg) sample_fs 3 = Ret (eid', c2, s2)"
    using sample_NewExecution by blast
  have v: "valid_civil (wall sample_clock)" "valid_civil (wall ?clk')" "wall sample_clock < wall ?clk'"
    by (simp_all add: valid_civil_def sample_clock_def less_civil_ext_def civil_key_def)
  from execution_order [OF r r' v(1,2)] v(3) r r' show ?thesis by blast
qed

end
