(* ===== verification/Spec2Isabelle.thy ===== *)
theory Spec2Isabelle
  imports Metrics_Properties Lifecycle_Properties Execution_Properties Pool_Properties
    Reconciler_Properties Callback_Properties Job_Properties Cron_Properties Client_Properties
    Config_Properties System_Types Server_Properties Serving Startup
    End_To_End Overlap Linearization Calendar
begin

text \<open>
  The batch job controller, a Kubernetes controller that starts one pod per node on a schedule,
  collects what the pods report, and publishes it as Prometheus metrics and files.

  \<^bold>\<open>How the program works\<close>

  A tick of the schedule runs \<open>startPods\<close> (\<open>pkg/cron/cron.go\<close>). It lists the usable nodes, asks
  the lifecycle controller for a new execution (\<open>NewExecution\<close>, \<open>pkg/lifecycle/lifecycle.go\<close>),
  deletes the old pods, makes one pod per node from a template (\<open>New\<close>, \<open>pkg/job/job.go\<close>) and hands
  each to \<open>AddPod\<close>, which puts it into the channel of the execution, and waits while the channel is
  full. \<open>podPoolSize\<close> worker goroutines of the execution take the jobs out, create the pods, and poll until
  each has terminated. \<open>AllAdded\<close> closes the channel and removes the reports and metrics of old
  executions. A running pod calls back, with \<open>pkg/client\<close> or by itself, at the routes of
  \<open>pkg/http\<close>: results (\<open>ReportReceived\<close>), files and events. The reconciler (\<open>pkg/controller\<close>) sees a pod
  end and calls \<open>PodTerminated\<close>. Both update the collector of \<open>pkg/metrics\<close>. \<open>cmd/main.go\<close> reads the
  configuration (\<open>pkg/config\<close>) and wires the parts together.

  \<^bold>\<open>Theories and sources\<close>

  \<^item> \<open>Prelude\<close>: computations that may panic (\<open>go\<close>), error values, 64-bit integers, lemmas on lists
    and maps. \<open>GoStd\<close>, \<open>GoFloat\<close>, \<open>Files\<close>: what the code uses of Go's standard library: strings,
    paths, times, \<open>float64\<close> with rounding to nearest even, and the calls of \<open>os\<close> on a table of inodes.
  \<^item> \<open>Config\<close>, \<open>Config_Properties\<close>: \<open>pkg/config\<close>: the record \<open>Config\<close> with its accessors, \<open>getInternal\<close>
    and the search for the owner (\<open>findOwner\<close>, which may not return, hence an option).
  \<^item> \<open>Metrics_Model\<close>, \<open>Metrics_Proofs\<close>, \<open>Metrics_Properties\<close>: \<open>pkg/metrics\<close>. The label cache holds slices, which are
    shared and overwritten in the code; they are addresses into \<open>slice_heap\<close>. The locale \<open>execution_metric\<close>
    is the contract of a metric per execution.
  \<^item> \<open>Lifecycle\<close>, \<open>Lifecycle_Laws\<close>, \<open>Lifecycle_Properties\<close>, \<open>Executions\<close>, \<open>Execution_Properties\<close>: \<open>pkg/lifecycle\<close>. The
    structs that the code shares by pointer (executions and pods) are in \<open>heap_ex\<close> and \<open>heap_pod\<close>. The locale
    \<open>lifecycle_controller\<close> is the interface the callback server and the reconciler rely on.
  \<^item> \<open>Pool\<close>, \<open>Pool_Invariant\<close>, \<open>Pool_Properties\<close>: the interleavings of the cron goroutine, the workers and the
    callbacks as the step relation \<open>step\<close>, whose steps are the operations of \<open>Lifecycle\<close>; its
    reachable states satisfy \<open>sys_ok\<close>.
  \<^item> \<open>Registry\<close>, \<open>Registry_Properties\<close>: what the interface \<open>Controller\<close> promises, as operations on a registry of executions and
    pods (\<open>spec_step\<close>), and that the controller, called through \<open>exec_call\<close>, is a data refinement of it. \<open>Callers\<close>:
    \<open>ReportReceived\<close> and \<open>PodTerminated\<close> statement by statement (\<open>act_step\<close>), any number of calls at the same time;
    \<open>Linearization\<close>: with any other calls between their steps (\<open>calls_step\<close>). \<open>Calendar\<close>: the order of the minutes and of the identifiers made from them.
  \<^item> \<open>Kube\<close>, \<open>Reconciler\<close>, \<open>Reconciler_Properties\<close>: \<open>pkg/controller\<close>, on the parts of pods and nodes the code reads.
  \<^item> \<open>Json\<close>, \<open>Http\<close>, \<open>Http_Properties\<close>, \<open>Callback_Properties\<close>: \<open>pkg/http\<close>: the handlers, their callbacks, the
    middleware, the health check and the handlers of the mock server, on JSON values.
  \<^item> \<open>Server\<close>, \<open>Server_Properties\<close>: the servers of \<open>pkg/http\<close> with their routes, the chain in front of a handler
    and what is injected. \<open>Serving\<close>: \<open>Server.Start\<close>, the step relation \<open>serve_step\<close> of its two goroutines.
  \<^item> \<open>Jobs\<close>, \<open>Job_Properties\<close>: \<open>pkg/job\<close>. \<open>Cron\<close>, \<open>Cron_Refinement\<close>, \<open>Cron_Properties\<close>: \<open>pkg/cron\<close>; \<open>cstep\<close> is one
    iteration of the loop in \<open>startPods\<close>, or a step of the rest of the system, and every run of it is a
    run of \<open>Pool\<close>. \<open>Progress\<close>: a run of the cron job can always be brought to its end. \<open>Overlap\<close>: several
    goroutines in \<open>startPods\<close>, with the test and the setting of \<open>running\<close> as two steps.
  \<^item> \<open>Traces\<close>: runs of step relations, and the contracts \<open>step_invariant\<close>, \<open>refinement\<close> and \<open>data_refinement\<close>, which the
    step relations satisfy. \<open>System\<close>, \<open>Causes\<close>, \<open>System_Properties\<close>: the whole controller, \<open>sstep\<close>: the steps of \<open>Cron\<close>,
    reconcile requests and requests at the routes of the callback server, by the handlers of the code.
    \<open>System_Types\<close>: the typing of its states.
  \<^item> \<open>Client\<close>, \<open>Client_Properties\<close>: \<open>pkg/client\<close>. \<open>Cmd\<close>: \<open>cmd/main.go\<close>. \<open>Startup\<close>: the programs of \<open>cmd/generic\<close> and
    \<open>cmd/mock\<close>, with the interfaces of \<open>pkg/inject\<close> as the method sets of the components.
  \<^item> \<open>End_To_End\<close>: a request from the path on, through the routes and the chain to the handler, as a step of
    \<open>System\<close>, and the way of a job's results from the environment of its pod to the controller.

  \<^bold>\<open>What the lemmas show\<close>

  The pool: no job is lost or created twice, at most \<open>podPoolSize\<close> pods run, workers leave only when all is
  done, and they do leave once all pods have ended; a pod whose end is never reported blocks its
  worker, and enough of them block the schedule for ever. The cron job refines the pool and creates one correctly
  named and labelled pod per node, and from every state of a run the loop, the workers and the end of its
  pods can finish it; goroutines of the schedule exclude each other as long as they do not meet at the test of
  \<open>running\<close>, and share an execution if they do. The controller: terminations count once, the report and
  the termination commute except that a late report overwrites a failure, the retention keeps the latest
  reports; it implements the registry, in which a pod's state is what its callers have said since it was added;
  callbacks that run at the same time are linearizable in the registry, but not in the metrics; identifiers
  are in the order of the minutes. The collector: what is recorded and what pruning removes, and that it never panics.
  The callback server: which paths are routed to which handler, which requests are accepted, what they
  store and where, and that every request is a step of the whole controller; once cancelled a server stops,
  but without waiting for requests. What a job reports reaches its controller. The whole controller:
  its states are well typed, and in the running program every part has been given what it
  needs before it starts. The round trips between
  the client and the server, the URLs of a job and the routes, the labels of a pod and the event
  filter. Every property with a hypothesis has a witness on concrete values.

  \<^bold>\<open>Parameters\<close>

  Code outside the repository is an argument: Prometheus' gauge vectors (record \<open>gauge_vec\<close>, laws
  \<open>gauge_laws\<close>, instantiated by \<open>map_gauge_vec\<close>), the registry, the Kubernetes client (\<open>client\<close>, \<open>pod_api\<close>, \<open>reader\<close>), the text
  parsers of JSON and YAML, the template engine, the validation library (\<open>validator_law\<close>), MIME
  types, the sorting of \<open>slices.SortFunc\<close>, which is not stable (\<open>sort_law\<close>: a sorted permutation), the HTTP library of the client
  (\<open>delivers\<close>, \<open>reaches\<close>), how gin finds the route of a request (\<open>router_law\<close>), and the owner reference setter (\<open>owner_law\<close>).

  \<^bold>\<open>Bounds\<close>

  Path lookups follow at most 40 symbolic links, as the operating system does. \<open>progress_zero_to_100\<close> is stated up to
  \<open>pod_limit\<close>, \<open>2^60\<close> jobs, so that three times the number stays within an \<open>int64\<close>. No other fuel is used.

  \<^bold>\<open>Not modelled\<close>

  Data races: the controller's maps \<open>executions\<close> and \<open>nodes\<close> are read and written without a lock, for which Go may end the
  program; here an access is atomic. One call of an operation is atomic, but for the flag \<open>running\<close>, whose
  test and setting are steps of their own in \<open>Overlap\<close>, and the callbacks in \<open>Callers\<close>, for which a change of a metric, and the lookup of a pod, is one step; the mutex of the label cache
  makes an operation of the collector one step. Writing logs, what the profiling handlers and
  \<open>http.FileServer\<close> answer, the parsing of flags, and leader election, which the manager does, are calls of
  libraries. The mocks under \<open>pkg/mocks\<close> are generated.
\<close>

end
